(* ===== verification/Prelude.thy ===== *)
theory Prelude
  imports Complex_Main "HOL-Library.AList" "HOL-Library.Sublist" "HOL-Library.Char_ord"
    "HOL-Library.List_Lexorder" "HOL-Library.Product_Lexorder"
begin

text \<open>
  Shared vocabulary of the development: the Python string, integer, dictionary and sorting
  operations that the daemon's sources use, with the lemmas the components share.

  A Python \<open>str\<close> is a \<^typ>\<open>string\<close> whose characters are the code points below 256; a Python
  \<open>int\<close> is an \<^typ>\<open>int\<close> or, where the source only counts, a \<^typ>\<open>nat\<close>; a Python \<open>float\<close>
  (clock readings, progress fractions) is an exact \<^typ>\<open>rat\<close>; a Python \<open>dict\<close> is an
  association list in insertion order, updated in place by \<^const>\<open>AList.update\<close> as
  \<open>d[k] = v\<close> does.
\<close>

named_theorems str_simps \<open>evaluation rules for the string operations\<close>
named_theorems step_simps \<open>defining equations of the step functions\<close>

type_synonym time = rat
type_synonym 'v dict = "(string \<times> 'v) list"

section \<open>Python strings\<close>

definition ord_chr :: "char \<Rightarrow> nat" where
  "ord_chr c = of_char c"

text \<open>The characters \<open>str.strip()\<close> removes: the white space among the code points below 256.\<close>

definition is_space :: "char \<Rightarrow> bool" where
  "is_space c \<longleftrightarrow> (let n = ord_chr c in (9 \<le> n \<and> n \<le> 13) \<or> (28 \<le> n \<and> n \<le> 32) \<or> n = 133 \<or> n = 160)"

definition is_digit :: "char \<Rightarrow> bool" where
  "is_digit c \<longleftrightarrow> 48 \<le> ord_chr c \<and> ord_chr c \<le> 57"

definition rstrip_by :: "(char \<Rightarrow> bool) \<Rightarrow> string \<Rightarrow> string" where
  "rstrip_by p s = rev (dropWhile p (rev s))"

definition strip_by :: "(char \<Rightarrow> bool) \<Rightarrow> string \<Rightarrow> string" where
  "strip_by p s = rstrip_by p (dropWhile p s)"

definition strip :: "string \<Rightarrow> string" where
  "strip s = strip_by is_space s"

definition strip_char :: "char \<Rightarrow> string \<Rightarrow> string" where
  "strip_char c s = strip_by (\<lambda>x. x = c) s"

definition startswith :: "string \<Rightarrow> string \<Rightarrow> bool" where
  "startswith s p \<longleftrightarrow> prefix p s"

definition removeprefix :: "string \<Rightarrow> string \<Rightarrow> string" where
  "removeprefix s p = (if startswith s p then drop (length p) s else s)"

text \<open>\<open>s.partition(c)\<close> without the separator: what precedes the first \<open>c\<close> and what follows it.\<close>

definition partition_at :: "char \<Rightarrow> string \<Rightarrow> string \<times> string" where
  "partition_at c s = (takeWhile (\<lambda>x. x \<noteq> c) s, drop 1 (dropWhile (\<lambda>x. x \<noteq> c) s))"

text \<open>\<open>s.split(c)\<close> for a one-character separator: never empty.\<close>

fun split_on :: "char \<Rightarrow> string \<Rightarrow> string list" where
  "split_on c [] = [[]]"
| "split_on c (x # xs) =
     (if x = c then [] # split_on c xs
      else (case split_on c xs of [] \<Rightarrow> [[x]] | y # ys \<Rightarrow> (x # y) # ys))"

fun join_with :: "string \<Rightarrow> string list \<Rightarrow> string" where
  "join_with sep [] = []"
| "join_with sep [x] = x"
| "join_with sep (x # y # ys) = x @ sep @ join_with sep (y # ys)"

definition lower_char :: "char \<Rightarrow> char" where
  "lower_char c =
     (let n = ord_chr c in
      if (65 \<le> n \<and> n \<le> 90) \<or> (192 \<le> n \<and> n \<le> 222 \<and> n \<noteq> 215) then char_of (n + 32) else c)"

definition lower :: "string \<Rightarrow> string" where
  "lower s = map lower_char s"

definition contains :: "string \<Rightarrow> string \<Rightarrow> bool" where
  "contains s p \<longleftrightarrow> sublist p s"

section \<open>Decimal numerals\<close>

definition digit_val :: "char \<Rightarrow> nat" where
  "digit_val c = ord_chr c - 48"

definition nat_of_digits :: "string \<Rightarrow> nat" where
  "nat_of_digits s = foldl (\<lambda>n c. 10 * n + digit_val c) 0 s"

fun str_of_nat :: "nat \<Rightarrow> string" where
  "str_of_nat n =
     (if n < 10 then [char_of (48 + n)] else str_of_nat (n div 10) @ [char_of (48 + n mod 10)])"

declare str_of_nat.simps [simp del]

definition str_of_int :: "int \<Rightarrow> string" where
  "str_of_int i = (if i < 0 then CHR ''-'' # str_of_nat (nat (- i)) else str_of_nat (nat i))"

text \<open>\<open>int(x)\<close> of a float: truncation towards zero.\<close>

definition int_of_float :: "rat \<Rightarrow> int" where
  "int_of_float x = (if x < 0 then - \<lfloor>- x\<rfloor> else \<lfloor>x\<rfloor>)"

text \<open>
  \<open>re.match(r"^...\d+$", s)\<close>: Python's \<open>$\<close> also matches just before one trailing newline, so a
  digit group at the end of a pattern may be followed by that newline.
\<close>

definition digits_eol :: "string \<Rightarrow> string option" where
  "digits_eol s =
     (let ds = takeWhile is_digit s; rest = dropWhile is_digit s
      in if ds \<noteq> [] \<and> (rest = [] \<or> rest = [CHR 0x0A]) then Some ds else None)"

section \<open>Lemmas on strings and numerals\<close>

lemma ord_chr_char_of [simp]: "(n::nat) < 256 \<Longrightarrow> ord_chr (char_of n) = n"
  by (simp add: ord_chr_def)

lemma ord_chr_inject [simp]: "ord_chr c = ord_chr d \<longleftrightarrow> c = d"
  by (simp add: ord_chr_def)

lemma ord_chr_less: "ord_chr c < 256"
  by (simp add: ord_chr_def)

lemma is_digit_char_of [simp]: "(n::nat) < 10 \<Longrightarrow> is_digit (char_of (48 + n))"
  by (simp add: is_digit_def)

lemma digit_val_char_of [simp]: "(n::nat) < 10 \<Longrightarrow> digit_val (char_of (48 + n)) = n"
  by (simp add: digit_val_def)

lemma nat_of_digits_append:
  "nat_of_digits (s @ [c]) = 10 * nat_of_digits s + digit_val c"
  by (simp add: nat_of_digits_def)

lemma nat_of_digits_str_of_nat [simp]: "nat_of_digits (str_of_nat n) = n"
proof (induction n rule: str_of_nat.induct)
  case (1 n)
  show ?case
  proof (cases "n < 10")
    case True
    then show ?thesis
      using digit_val_char_of [of n]
      by (subst str_of_nat.simps) (simp add: nat_of_digits_def)
  next
    case False
    with "1.IH" have "nat_of_digits (str_of_nat (n div 10)) = n div 10" by simp
    with False show ?thesis
      using digit_val_char_of [of "n mod 10"]
      by (subst str_of_nat.simps) (simp add: nat_of_digits_append)
  qed
qed

lemma str_of_nat_digits: "list_all is_digit (str_of_nat n)"
proof (induction n rule: str_of_nat.induct)
  case (1 n)
  then show ?case
    using is_digit_char_of [of n] is_digit_char_of [of "n mod 10"]
    by (subst str_of_nat.simps) auto
qed

lemma str_of_nat_nonempty [simp]: "str_of_nat n \<noteq> []"
  by (subst str_of_nat.simps) simp

lemma str_of_nat_inject [simp]: "str_of_nat m = str_of_nat n \<longleftrightarrow> m = n"
  by (metis nat_of_digits_str_of_nat)

lemma takeWhile_all: "list_all P xs \<Longrightarrow> takeWhile P xs = xs"
  by (induction xs) auto

lemma dropWhile_all: "list_all P xs \<Longrightarrow> dropWhile P xs = []"
  by (induction xs) auto

lemma digits_eol_str_of_nat [simp]: "digits_eol (str_of_nat n) = Some (str_of_nat n)"
  using str_of_nat_digits [of n]
  by (simp add: digits_eol_def takeWhile_all dropWhile_all)

lemma split_on_nonempty [simp]: "split_on c s \<noteq> []"
  by (induction s) (auto split: list.splits)

lemma split_on_none: "c \<notin> set s \<Longrightarrow> split_on c s = [s]"
  by (induction s) auto

lemma split_on_append:
  "c \<notin> set s \<Longrightarrow> split_on c (s @ c # t) = s # split_on c t"
  by (induction s) auto

text \<open>The two parallel lists of \<open>cluster.env\<close> are written with \<open>",".join\<close> and read back with
  \<open>split(",")\<close>: nothing is lost when no entry holds the separator.\<close>

lemma split_on_join:
  "xs \<noteq> [] \<Longrightarrow> \<forall>x \<in> set xs. c \<notin> set x \<Longrightarrow> split_on c (join_with [c] xs) = xs"
proof (induction xs rule: induct_list012)
  case 1
  then show ?case by simp
next
  case (2 x)
  then show ?case by (simp add: split_on_none)
next
  case (3 x y zs)
  then show ?case by (simp add: split_on_append)
qed

lemma dropWhile_stop: "\<not> p c \<Longrightarrow> dropWhile p (xs @ c # ys) = dropWhile p xs @ c # ys"
  by (induction xs) auto

lemma rstrip_by_stop: "\<not> p c \<Longrightarrow> rstrip_by p (xs @ c # ys) = xs @ c # rstrip_by p ys"
  by (simp add: rstrip_by_def dropWhile_stop)

lemma rstrip_by_last [simp]: "p c \<Longrightarrow> rstrip_by p (xs @ [c]) = rstrip_by p xs"
  by (simp add: rstrip_by_def)

lemma rstrip_by_idem [simp]: "rstrip_by p (rstrip_by p s) = rstrip_by p s"
  by (simp add: rstrip_by_def)

lemma dropWhile_rstrip_by: "dropWhile p (rstrip_by p s) = rstrip_by p (dropWhile p s)"
proof (induction s)
  case Nil
  then show ?case by (simp add: rstrip_by_def)
next
  case (Cons c s)
  show ?case
  proof (cases "p c")
    case True
    show ?thesis
    proof (cases "\<forall>x \<in> set s. p x")
      case True
      then show ?thesis using \<open>p c\<close>
        by (auto simp: rstrip_by_def dropWhile_append dropWhile_eq_Nil_conv dest: set_dropWhileD)
    next
      case False
      then have "rstrip_by p (c # s) = c # rstrip_by p s"
        by (simp add: rstrip_by_def dropWhile_append dropWhile_eq_Nil_conv)
      then show ?thesis using Cons \<open>p c\<close> by simp
    qed
  next
    case False
    then show ?thesis using rstrip_by_stop [of p c "[]" s] by simp
  qed
qed

lemma strip_rstrip [simp]: "strip (rstrip_by is_space s) = strip s"
  by (simp add: strip_def strip_by_def dropWhile_rstrip_by)

text \<open>A text without blanks is not changed by stripping.\<close>

lemma strip_by_id: "\<forall>c \<in> set s. \<not> p c \<Longrightarrow> strip_by p s = s"
proof -
  assume a: "\<forall>c \<in> set s. \<not> p c"
  then have "dropWhile p t = t" if "set t \<subseteq> set s" for t
    using that by (cases t) auto
  from this [of s] this [of "rev s"] show ?thesis by (simp add: strip_by_def rstrip_by_def)
qed

lemma partition_at_append: "c \<notin> set s \<Longrightarrow> partition_at c (s @ c # t) = (s, t)"
  unfolding partition_at_def by (induction s) auto

lemma startswith_append [simp]: "startswith (p @ s) p"
  by (simp add: startswith_def)

lemma removeprefix_append [simp]: "removeprefix (p @ s) p = s"
  by (simp add: removeprefix_def)

lemma startswithE:
  assumes "startswith s p"
  obtains r where "s = p @ r" and "removeprefix s p = r"
  using assms by (auto simp: startswith_def prefix_def)

section \<open>Dictionaries\<close>

definition dict_get :: "'v dict \<Rightarrow> string \<Rightarrow> 'v option" where
  "dict_get d k = map_of d k"

definition dict_set :: "string \<Rightarrow> 'v \<Rightarrow> 'v dict \<Rightarrow> 'v dict" where
  "dict_set k v d = AList.update k v d"

definition dict_pop :: "string \<Rightarrow> 'v dict \<Rightarrow> 'v dict" where
  "dict_pop k d = AList.delete k d"

definition keys :: "'v dict \<Rightarrow> string list" where
  "keys d = map fst d"

definition dict_ok :: "'v dict \<Rightarrow> bool" where
  "dict_ok d \<longleftrightarrow> distinct (keys d)"

lemma dict_get_Nil [simp]: "dict_get [] k = None"
  by (simp add: dict_get_def)

lemma dict_get_Cons [simp]: "dict_get ((k', v) # d) k = (if k = k' then Some v else dict_get d k)"
  by (simp add: dict_get_def)

lemma dict_get_set [simp]:
  "dict_get (dict_set k v d) k' = (if k' = k then Some v else dict_get d k')"
  by (simp add: dict_get_def dict_set_def update_conv')

lemma dict_get_pop [simp]:
  "dict_get (dict_pop k d) k' = (if k' = k then None else dict_get d k')"
  by (simp add: dict_get_def dict_pop_def delete_conv')

lemma dict_ok_set [intro]: "dict_ok d \<Longrightarrow> dict_ok (dict_set k v d)"
  by (simp add: dict_ok_def dict_set_def keys_def distinct_update)

lemma dict_ok_pop [intro]: "dict_ok d \<Longrightarrow> dict_ok (dict_pop k d)"
  by (simp add: dict_ok_def dict_pop_def keys_def distinct_delete)

lemma dict_ok_Nil [simp]: "dict_ok []"
  by (simp add: dict_ok_def keys_def)

lemma dict_get_Some_iff: "dict_ok d \<Longrightarrow> dict_get d k = Some v \<longleftrightarrow> (k, v) \<in> set d"
  by (simp add: dict_ok_def keys_def dict_get_def)

lemma dict_get_keys: "dict_get d k \<noteq> None \<longleftrightarrow> k \<in> set (keys d)"
  by (auto simp: dict_get_def keys_def map_of_eq_None_iff)

lemma set_keys_set [simp]: "set (keys (dict_set k v d)) = insert k (set (keys d))"
  by (auto simp: keys_def dict_set_def dom_update)

lemma set_keys_pop [simp]: "set (keys (dict_pop k d)) = set (keys d) - {k}"
  by (auto simp: keys_def dict_pop_def delete_keys)

text \<open>Building a dictionary from pairs with distinct keys keeps the pairs and their order.\<close>

definition dict_of :: "(string \<times> 'v) list \<Rightarrow> 'v dict" where
  "dict_of kvs = foldl (\<lambda>out kv. dict_set (fst kv) (snd kv) out) [] kvs"

lemma dict_set_new: "k \<notin> set (keys d) \<Longrightarrow> dict_set k v d = d @ [(k, v)]"
  unfolding dict_set_def keys_def by (induction d) auto

lemma foldl_dict_set:
  "distinct (keys (acc @ kvs)) \<Longrightarrow> foldl (\<lambda>out kv. dict_set (fst kv) (snd kv) out) acc kvs = acc @ kvs"
proof (induction kvs arbitrary: acc)
  case Nil
  then show ?case by simp
next
  case (Cons kv kvs)
  then have "dict_set (fst kv) (snd kv) acc = acc @ [kv]"
    by (simp add: dict_set_new keys_def)
  then show ?case using Cons.IH [of "acc @ [kv]"] Cons.prems by simp
qed

lemma dict_of_distinct: "distinct (map fst kvs) \<Longrightarrow> dict_of kvs = kvs"
  using foldl_dict_set [of "[]" kvs] by (simp add: dict_of_def keys_def)

lemma dict_ok_dict_of [simp]: "dict_ok (dict_of kvs)"
proof -
  have "dict_ok acc \<Longrightarrow> dict_ok (foldl (\<lambda>out kv. dict_set (fst kv) (snd kv) out) acc kvs)" for acc
    by (induction kvs arbitrary: acc) auto
  then show ?thesis by (simp add: dict_of_def)
qed

section \<open>Texts of values\<close>

text \<open>\<open>repr\<close> of a \<open>str\<close>, and of a list of them; \<open>:x\<close> of an \<open>int\<close>.\<close>

definition hex_digit :: "nat \<Rightarrow> char" where
  "hex_digit n = (if n < 10 then char_of (48 + n) else char_of (87 + n))"

fun hex_of_nat :: "nat \<Rightarrow> string" where
  "hex_of_nat n = (if n < 16 then [hex_digit n] else hex_of_nat (n div 16) @ [hex_digit (n mod 16)])"

declare hex_of_nat.simps [simp del]

definition hex_of_int :: "int \<Rightarrow> string" where
  "hex_of_int i = (if i < 0 then CHR ''-'' # hex_of_nat (nat (- i)) else hex_of_nat (nat i))"

definition repr_char :: "char \<Rightarrow> char \<Rightarrow> string" where
  "repr_char q c =
     (let n = ord_chr c in
      if c = q \<or> n = 92 then [CHR 0x5C, c]
      else if n = 10 then [CHR 0x5C, CHR ''n'']
      else if n = 13 then [CHR 0x5C, CHR ''r'']
      else if n = 9 then [CHR 0x5C, CHR ''t'']
      else if n < 32 \<or> (127 \<le> n \<and> n \<le> 160) \<or> n = 173
        then [CHR 0x5C, CHR ''x'', hex_digit (n div 16), hex_digit (n mod 16)]
      else [c])"

definition py_repr :: "string \<Rightarrow> string" where
  "py_repr s =
     (let q = (if CHR 0x27 \<in> set s \<and> CHR 0x22 \<notin> set s then CHR 0x22 else CHR 0x27)
      in q # concat (map (repr_char q) s) @ [q])"

definition py_list :: "string list \<Rightarrow> string" where
  "py_list xs = ''['' @ join_with '', '' (map py_repr xs) @ '']''"

end
