(* ===== verification/Daemon_IO.thy ===== *)
theory Daemon_IO
  imports Prelude
begin

text \<open>
  The computations of the daemon and the world they run in.

  Everything outside \<open>src/daemon\<close> (the etcd v3 HTTP gateway, the clocks, the shell and docker,
  the other peers' HTTP servers, the file system) is one parameter: a record \<open>'w sys\<close> of
  functions on a world state \<open>'w\<close> about which nothing is assumed. A coroutine of the source is a
  value of type \<open>('w, 'a) io\<close>: it maps the daemon's state to a result, which is an exception or
  a value, and the state after it. Each call to the outside is recorded in \<open>st_trace\<close>, so that
  statements about the order of side effects can be made.

  Texts stored in etcd are kept decoded: \<open>Json d\<close> is the text \<open>json.dumps\<close> writes for the object
  \<open>d\<close>, and \<open>Text s\<close> is a text that \<open>json.loads\<close> rejects. JSON texts that are not objects are
  never written by the daemon and are not represented.
\<close>

section \<open>Values and exceptions\<close>

datatype json =
    JNull
  | JBool bool
  | JNum rat
  | JStr string
  | JArr "json list"
  | JObj "(string \<times> json) list"

type_synonym obj = "json dict"

datatype etcd_value = Json obj | Text string

fun json_loads :: "etcd_value \<Rightarrow> obj option" where
  "json_loads (Json d) = Some d"
| "json_loads (Text s) = None"

text \<open>\<open>d.get(k)\<close> for a key that holds a string: \<open>None\<close> when the key is absent or \<open>null\<close>.\<close>

definition get_str :: "obj \<Rightarrow> string \<Rightarrow> string option" where
  "get_str d k = (case dict_get d k of Some (JStr s) \<Rightarrow> Some s | _ \<Rightarrow> None)"

text \<open>Python truth of an optional string: absent, \<open>null\<close> and empty are false.\<close>

definition truthy :: "string option \<Rightarrow> bool" where
  "truthy v \<longleftrightarrow> (case v of None \<Rightarrow> False | Some s \<Rightarrow> s \<noteq> [])"

definition or_empty :: "string option \<Rightarrow> string" where
  "or_empty v = (case v of None \<Rightarrow> [] | Some s \<Rightarrow> s)"

text \<open>Exceptions, by class, with the part of the message that identifies the cause. \<open>Diverges\<close> is
  not a Python exception: it marks a polling loop that used up the bound on its rounds.\<close>

datatype exn =
    ValueError string
  | PermissionError string
  | RuntimeError string
  | TypeError string
  | KeyError string
  | AttributeError string
  | JoinError string
  | HTTPStatusError nat
  | HTTPException nat string
  | JSONDecodeError
  | FileNotFoundError
  | CancelledError
  | Diverges

text \<open>\<open>except Exception\<close> catches everything but \<open>CancelledError\<close>.\<close>

definition is_Exception :: "exn \<Rightarrow> bool" where
  "is_Exception e \<longleftrightarrow> e \<noteq> CancelledError \<and> e \<noteq> Diverges"

section \<open>The outside world\<close>

record member =
  mem_ID :: int
  mem_name :: string
  mem_peerURLs :: "string list"

text \<open>The POST bodies of \<open>etcd_client.py\<close>, one constructor per path of the v3 gateway.\<close>

datatype request =
    Lease_grant int
  | Lease_keepalive int
  | Lease_revoke int
  | Member_add "string list"
  | Member_list
  | Member_remove int
  | Put string etcd_value "int option"
  | Range string "string option"
  | Delete_range string
  | Txn_create string etcd_value "int option"

text \<open>The fields the client reads of a reply, each absent or present.\<close>

record reply =
  r_ID :: "int option"
  r_TTL :: "int option"
  r_result :: "int option option"
  r_kvs :: "(string \<times> etcd_value) list option"
  r_succeeded :: "bool option"
  r_members :: "member list option"

datatype http_reply = Transport_error | Response nat "reply option"

datatype http_method = GET | POST

record http_call =
  hc_method :: http_method
  hc_ip :: string
  hc_port :: int
  hc_path :: string
  hc_token :: string
  hc_body :: obj

datatype http_result = Http_error | Http_response nat "obj option"

record 'w sys =
  sys_etcd :: "string \<Rightarrow> request \<Rightarrow> 'w \<Rightarrow> http_reply \<times> 'w"
  sys_time :: "'w \<Rightarrow> time \<times> 'w"
  sys_monotonic :: "'w \<Rightarrow> time \<times> 'w"
  sys_sleep :: "time \<Rightarrow> 'w \<Rightarrow> 'w"
  sys_uuid4 :: "'w \<Rightarrow> string \<times> 'w"
  sys_run :: "string \<Rightarrow> 'w \<Rightarrow> (int \<times> string \<times> string) \<times> 'w"
  sys_http :: "http_call \<Rightarrow> 'w \<Rightarrow> http_result \<times> 'w"
  sys_tcp :: "string \<Rightarrow> int \<Rightarrow> 'w \<Rightarrow> bool \<times> 'w"
  sys_read :: "string \<Rightarrow> 'w \<Rightarrow> string option \<times> 'w"
  sys_write :: "string \<Rightarrow> string \<Rightarrow> 'w \<Rightarrow> 'w"

datatype act =
    A_etcd request
  | A_time
  | A_monotonic
  | A_sleep time
  | A_uuid4
  | A_run string
  | A_http http_call
  | A_tcp string int
  | A_read string
  | A_write string string
  | A_emit string
  | A_log string
  | A_progress rat

text \<open>The state a daemon threads through its coroutines: the etcd client's endpoints and endpoint
  counter, the calls made so far and the world.\<close>

record 'w st =
  st_endpoints :: "string list"
  st_idx :: nat
  st_trace :: "act list"
  st_world :: 'w

type_synonym ('w, 'a) io = "'w st \<Rightarrow> (exn + 'a) \<times> 'w st"

section \<open>Computations\<close>

definition ret :: "'a \<Rightarrow> ('w, 'a) io" where
  "ret x = (\<lambda>s. (Inr x, s))"

definition raise :: "exn \<Rightarrow> ('w, 'a) io" where
  "raise e = (\<lambda>s. (Inl e, s))"

definition bnd :: "('w, 'a) io \<Rightarrow> ('a \<Rightarrow> ('w, 'b) io) \<Rightarrow> ('w, 'b) io" where
  "bnd m f = (\<lambda>s. case m s of (Inl e, s') \<Rightarrow> (Inl e, s') | (Inr x, s') \<Rightarrow> f x s')"

text \<open>\<open>try: m except Exception as e: h(e)\<close>.\<close>

definition try_except :: "('w, 'a) io \<Rightarrow> (exn \<Rightarrow> ('w, 'a) io) \<Rightarrow> ('w, 'a) io" where
  "try_except m h =
     (\<lambda>s. case m s of
            (Inl e, s') \<Rightarrow> if is_Exception e then h e s' else (Inl e, s')
          | (Inr x, s') \<Rightarrow> (Inr x, s'))"

text \<open>\<open>for x in xs: acc = f(x, acc)\<close>; an exception leaves the loop.\<close>

fun fold_io :: "('a \<Rightarrow> 'b \<Rightarrow> ('w, 'b) io) \<Rightarrow> 'a list \<Rightarrow> 'b \<Rightarrow> ('w, 'b) io" where
  "fold_io f [] b = ret b"
| "fold_io f (x # xs) b = bnd (f x b) (fold_io f xs)"

text \<open>A call to the outside: the answer, the new world, one more entry of the trace.\<close>

definition call :: "act \<Rightarrow> ('w \<Rightarrow> 'a \<times> 'w) \<Rightarrow> ('w, 'a) io" where
  "call a f =
     (\<lambda>s. (Inr (fst (f (st_world s))),
           s\<lparr>st_trace := st_trace s @ [a], st_world := snd (f (st_world s))\<rparr>))"

definition now :: "'w sys \<Rightarrow> ('w, time) io" where
  "now sys = call A_time (sys_time sys)"

definition monotonic :: "'w sys \<Rightarrow> ('w, time) io" where
  "monotonic sys = call A_monotonic (sys_monotonic sys)"

definition sleep :: "'w sys \<Rightarrow> time \<Rightarrow> ('w, unit) io" where
  "sleep sys t = call (A_sleep t) (\<lambda>w. ((), sys_sleep sys t w))"

definition uuid4 :: "'w sys \<Rightarrow> ('w, string) io" where
  "uuid4 sys = call A_uuid4 (sys_uuid4 sys)"

definition run_cmd :: "'w sys \<Rightarrow> string \<Rightarrow> ('w, int \<times> string \<times> string) io" where
  "run_cmd sys c = call (A_run c) (sys_run sys c)"

definition http :: "'w sys \<Rightarrow> http_call \<Rightarrow> ('w, http_result) io" where
  "http sys c = call (A_http c) (sys_http sys c)"

definition tcp_probe :: "'w sys \<Rightarrow> string \<Rightarrow> int \<Rightarrow> ('w, bool) io" where
  "tcp_probe sys ip p = call (A_tcp ip p) (sys_tcp sys ip p)"

definition read_file :: "'w sys \<Rightarrow> string \<Rightarrow> ('w, string option) io" where
  "read_file sys p = call (A_read p) (sys_read sys p)"

definition write_file :: "'w sys \<Rightarrow> string \<Rightarrow> string \<Rightarrow> ('w, unit) io" where
  "write_file sys p c = call (A_write p c) (\<lambda>w. ((), sys_write sys p c w))"

definition emit :: "string \<Rightarrow> ('w, unit) io" where
  "emit l = call (A_emit l) (\<lambda>w. ((), w))"

text \<open>\<open>ctx.log_writer\<close> and \<open>ctx.progress_setter\<close> of a job's worker.\<close>

definition log_line :: "string \<Rightarrow> ('w, unit) io" where
  "log_line l = call (A_log l) (\<lambda>w. ((), w))"

definition set_progress :: "rat \<Rightarrow> ('w, unit) io" where
  "set_progress p = call (A_progress p) (\<lambda>w. ((), w))"

section \<open>Weakest preconditions\<close>

text \<open>\<open>wp m Q E s\<close>: run from \<open>s\<close>, the computation \<open>m\<close> ends in a value and a state with \<open>Q\<close> or in
  an exception and a state with \<open>E\<close>. The equations below compute it through the combinators.\<close>

definition wp :: "('w, 'a) io \<Rightarrow> ('a \<Rightarrow> 'w st \<Rightarrow> bool) \<Rightarrow> (exn \<Rightarrow> 'w st \<Rightarrow> bool) \<Rightarrow> 'w st \<Rightarrow> bool" where
  "wp m Q E s \<longleftrightarrow> (case m s of (Inr x, s') \<Rightarrow> Q x s' | (Inl e, s') \<Rightarrow> E e s')"

named_theorems wp_simps \<open>weakest preconditions of the combinators\<close>

lemma wp_ret [wp_simps]: "wp (ret x) Q E s = Q x s"
  by (simp add: wp_def ret_def)

lemma wp_raise [wp_simps]: "wp (raise e) Q E s = E e s"
  by (simp add: wp_def raise_def)

lemma wp_bnd [wp_simps]: "wp (bnd m f) Q E s = wp m (\<lambda>x. wp (f x) Q E) E s"
  by (auto simp: wp_def bnd_def split: prod.splits sum.splits)

lemma wp_try_except [wp_simps]:
  "wp (try_except m h) Q E s
     = wp m Q (\<lambda>e s'. if is_Exception e then wp (h e) Q E s' else E e s') s"
  by (auto simp: wp_def try_except_def split: prod.splits sum.splits)

lemma wp_if [wp_simps]: "wp (if b then m else n) Q E s = (if b then wp m Q E s else wp n Q E s)"
  by simp

lemma wp_call [wp_simps]:
  "wp (call a f) Q E s
     = Q (fst (f (st_world s))) (s\<lparr>st_trace := st_trace s @ [a], st_world := snd (f (st_world s))\<rparr>)"
  by (simp add: wp_def call_def)

lemma wp_mono:
  "wp m Q E s \<Longrightarrow> (\<And>x s'. Q x s' \<Longrightarrow> Q' x s') \<Longrightarrow> (\<And>e s'. E e s' \<Longrightarrow> E' e s') \<Longrightarrow> wp m Q' E' s"
  by (auto simp: wp_def split: prod.splits sum.splits)

lemma wp_conj: "wp m Q E s \<Longrightarrow> wp m Q' E' s \<Longrightarrow> wp m (\<lambda>x t. Q x t \<and> Q' x t) (\<lambda>x t. E x t \<and> E' x t) s"
  by (auto simp: wp_def split: prod.splits sum.splits)

lemma wp_D_ok: "wp m Q E s \<Longrightarrow> m s = (Inr x, s') \<Longrightarrow> Q x s'"
  by (simp add: wp_def)

lemma wp_D_err: "wp m Q E s \<Longrightarrow> m s = (Inl e, s') \<Longrightarrow> E e s'"
  by (simp add: wp_def)

lemma wp_always: "wp m (\<lambda>_ _. True) (\<lambda>_ _. True) s"
  by (simp add: wp_def split: prod.splits sum.splits)

text \<open>A computation about whose outcome nothing is known.\<close>

lemma wp_all: "(\<And>x t. Q x t) \<Longrightarrow> (\<And>e t. E e t) \<Longrightarrow> wp m Q E s"
  by (rule wp_mono [OF wp_always]) auto

text \<open>The invariant rule for loops: what is left to do indexes the invariant.\<close>

lemma wp_fold_io:
  assumes "I xs b s"
    and "\<And>x ys b s. I (x # ys) b s \<Longrightarrow> wp (f x b) (I ys) E s"
  shows "wp (fold_io f xs b) (I []) E s"
  using assms(1)
proof (induction xs arbitrary: b s)
  case Nil
  then show ?case by (simp add: wp_simps)
next
  case (Cons x xs)
  from assms(2) [OF Cons.prems] have "wp (f x b) (I xs) E s" .
  then show ?case
    by (auto simp: wp_bnd intro: wp_mono Cons.IH)
qed

lemmas call_defs = now_def monotonic_def sleep_def uuid4_def run_cmd_def http_def
  tcp_probe_def read_file_def write_file_def emit_def log_line_def set_progress_def

lemma is_Exception_simps [simp]:
  "is_Exception (ValueError m)" "is_Exception (PermissionError m)" "is_Exception (RuntimeError m)"
  "is_Exception (TypeError m)" "is_Exception (KeyError m)" "is_Exception (JoinError m)"
  "is_Exception (AttributeError m)" "is_Exception (HTTPStatusError n)" "is_Exception (HTTPException n m)" "is_Exception JSONDecodeError"
  "is_Exception FileNotFoundError" "\<not> is_Exception CancelledError" "\<not> is_Exception Diverges"
  by (simp_all add: is_Exception_def)

lemma truthy_simps [simp]: "\<not> truthy None" "truthy (Some s) \<longleftrightarrow> s \<noteq> []"
  by (simp_all add: truthy_def)

lemma or_empty_simps [simp]: "or_empty None = []" "or_empty (Some s) = s"
  by (simp_all add: or_empty_def)

lemma json_loads_Some_iff [simp]: "json_loads v = Some d \<longleftrightarrow> v = Json d"
  by (cases v) auto

lemma bnd_map: "bnd (bnd m (\<lambda>x. ret (f x))) g = bnd m (\<lambda>x. g (f x))"
  by (auto simp: fun_eq_iff bnd_def ret_def split: prod.split sum.split)

lemma result_of: "fst r = x \<Longrightarrow> r = (x, snd r)"
  by (cases r) simp

section \<open>Which calls a computation can make\<close>

text \<open>\<open>only A m\<close>: however \<open>m\<close> ends, every call it made on the way satisfies \<open>A\<close>.\<close>

definition extends :: "(act \<Rightarrow> bool) \<Rightarrow> 'w st \<Rightarrow> 'w st \<Rightarrow> bool" where
  "extends A s t \<longleftrightarrow> (\<exists>acts. st_trace t = st_trace s @ acts \<and> list_all A acts)"

definition only :: "(act \<Rightarrow> bool) \<Rightarrow> ('w, 'a) io \<Rightarrow> bool" where
  "only A m \<longleftrightarrow> (\<forall>s. extends A s (snd (m s)))"

lemma extends_refl [simp]: "extends A s s"
  by (simp add: extends_def)

lemma extends_trans: "extends A s t \<Longrightarrow> extends A t u \<Longrightarrow> extends A s u"
  by (force simp: extends_def)

named_theorems only_intros \<open>rules that compute the calls of a computation\<close>

lemma only_ret [only_intros]: "only A (ret x)"
  by (simp add: only_def ret_def)

lemma only_raise [only_intros]: "only A (raise e)"
  by (simp add: only_def raise_def)

lemma only_bnd [only_intros]: "only A m \<Longrightarrow> (\<And>x. only A (f x)) \<Longrightarrow> only A (bnd m f)"
  unfolding only_def bnd_def by (auto split: prod.splits sum.splits) (metis extends_trans snd_conv)+

lemma only_try_except [only_intros]: "only A m \<Longrightarrow> (\<And>e. only A (h e)) \<Longrightarrow> only A (try_except m h)"
  unfolding only_def try_except_def by (auto split: prod.splits sum.splits) (metis extends_trans snd_conv)+

lemma only_call [only_intros]: "A a \<Longrightarrow> only A (call a f)"
  by (auto simp: only_def call_def extends_def)

lemma only_fold [only_intros]: "(\<And>x b. x \<in> set xs \<Longrightarrow> only A (f x b)) \<Longrightarrow> only A (fold_io f xs b)"
  by (induction xs arbitrary: b) (auto intro!: only_intros)

lemma onlyD: "only A m \<Longrightarrow> m s = (r, t) \<Longrightarrow> \<exists>acts. st_trace t = st_trace s @ acts \<and> list_all A acts"
  unfolding only_def extends_def by (metis snd_conv)

lemma only_run [only_intros]: "A (A_run c) \<Longrightarrow> only A (run_cmd sys c)"
  unfolding run_cmd_def by (intro only_intros)

lemma only_read [only_intros]: "A (A_read p) \<Longrightarrow> only A (read_file sys p)"
  unfolding read_file_def by (intro only_intros)

lemma only_sleep [only_intros]: "A (A_sleep d) \<Longrightarrow> only A (sleep sys d)"
  unfolding sleep_def by (intro only_intros)

lemma only_monotonic [only_intros]: "A A_monotonic \<Longrightarrow> only A (monotonic sys)"
  unfolding monotonic_def by (intro only_intros)

lemma only_case_prod [only_intros]: "(\<And>a b. only A (f a b)) \<Longrightarrow> only A (case p of (a, b) \<Rightarrow> f a b)"
  by (cases p) simp

lemma only_if [only_intros]: "(b \<Longrightarrow> only A m) \<Longrightarrow> (\<not> b \<Longrightarrow> only A n) \<Longrightarrow> only A (if b then m else n)"
  by simp

lemma only_http [only_intros]: "A (A_http c) \<Longrightarrow> only A (http sys c)"
  unfolding http_def by (intro only_intros)

lemma only_tcp [only_intros]: "A (A_tcp ip p) \<Longrightarrow> only A (tcp_probe sys ip p)"
  unfolding tcp_probe_def by (intro only_intros)

lemma only_write [only_intros]: "A (A_write p c) \<Longrightarrow> only A (write_file sys p c)"
  unfolding write_file_def by (intro only_intros)

lemma only_log [only_intros]: "A (A_log l) \<Longrightarrow> only A (log_line l)"
  unfolding log_line_def by (intro only_intros)

lemma only_progress [only_intros]: "A (A_progress p) \<Longrightarrow> only A (set_progress p)"
  unfolding set_progress_def by (intro only_intros)

lemma only_mono: "only A m \<Longrightarrow> (\<And>a. A a \<Longrightarrow> B a) \<Longrightarrow> only B m"
  unfolding only_def extends_def list_all_iff by blast

end
