(* ===== verification/Json_Text.thy ===== *)
theory Json_Text
  imports Daemon_IO
begin

text \<open>
  \<open>json.loads\<close> on a text, as far as the daemon uses it on the output of docker and mc: the values of
  RFC 8259 with Python's strict mode (no control characters in strings), the last of several equal
  keys winning. Escapes beyond code point 255 are outside the modelled characters and are rejected. A
  nested value is read with one unit of fuel less; the length of the text is enough.
\<close>

definition json_ws :: "char \<Rightarrow> bool" where
  "json_ws c \<longleftrightarrow> c = CHR '' '' \<or> c = CHR 0x09 \<or> c = CHR 0x0A \<or> c = CHR 0x0D"

definition skip_ws :: "string \<Rightarrow> string" where
  "skip_ws s = dropWhile json_ws s"

definition hex_val :: "char \<Rightarrow> nat option" where
  "hex_val c =
     (let n = ord_chr c in
      if 48 \<le> n \<and> n \<le> 57 then Some (n - 48)
      else if 97 \<le> n \<and> n \<le> 102 then Some (n - 87)
      else if 65 \<le> n \<and> n \<le> 70 then Some (n - 55)
      else None)"

definition simple_escape :: "char \<Rightarrow> char option" where
  "simple_escape c =
     map_of [(CHR 0x22, CHR 0x22), (CHR 0x5C, CHR 0x5C), (CHR ''/'', CHR ''/''), (CHR ''b'', CHR 0x08),
             (CHR ''f'', CHR 0x0C), (CHR ''n'', CHR 0x0A), (CHR ''r'', CHR 0x0D), (CHR ''t'', CHR 0x09)] c"

definition char_of_hex :: "char \<Rightarrow> char \<Rightarrow> char \<Rightarrow> char \<Rightarrow> char option" where
  "char_of_hex a b c d =
     (case (hex_val a, hex_val b, hex_val c, hex_val d) of
        (Some 0, Some 0, Some x, Some y) \<Rightarrow> Some (char_of (16 * x + y))
      | _ \<Rightarrow> None)"

text \<open>The rest of a string, after its opening quote.\<close>

fun parse_string :: "string \<Rightarrow> (string \<times> string) option" where
  "parse_string [] = None"
| "parse_string (c # cs) =
     (if c = CHR 0x22 then Some ([], cs)
      else if c = CHR 0x5C then
        (case cs of
           [] \<Rightarrow> None
         | e # es \<Rightarrow>
             (case simple_escape e of
                Some x \<Rightarrow> map_option (\<lambda>(s, r). (x # s, r)) (parse_string es)
              | None \<Rightarrow>
                  if e \<noteq> CHR ''u'' then None
                  else
                    (case es of
                       h1 # h2 # h3 # h4 # r \<Rightarrow>
                         (case char_of_hex h1 h2 h3 h4 of
                            None \<Rightarrow> None
                          | Some x \<Rightarrow> map_option (\<lambda>(s, r'). (x # s, r')) (parse_string r))
                     | _ \<Rightarrow> None)))
      else if ord_chr c < 32 then None
      else map_option (\<lambda>(s, r). (c # s, r)) (parse_string cs))"

definition parse_number :: "string \<Rightarrow> (rat \<times> string) option" where
  "parse_number s0 =
     (let neg = startswith s0 ''-''; s = (if neg then tl s0 else s0);
          ds = (if startswith s ''0'' then ''0'' else takeWhile is_digit s); r = drop (length ds) s in
      if ds = [] then None
      else
        (let fs = (if startswith r ''.'' then takeWhile is_digit (tl r) else []);
             r1 = (if fs = [] then r else drop (length fs + 1) r);
             e0 = (if startswith r1 ''e'' \<or> startswith r1 ''E'' then tl r1 else []);
             eneg = startswith e0 ''-'';
             e1 = (if startswith e0 ''-'' \<or> startswith e0 ''+'' then tl e0 else e0);
             es = takeWhile is_digit e1;
             r2 = (if es = [] then r1 else drop (length es) e1);
             m = (of_nat (nat_of_digits (ds @ fs)) :: rat) / 10 ^ length fs;
             x = (if es = [] then m
                  else if eneg then m / 10 ^ nat_of_digits es else m * 10 ^ nat_of_digits es)
         in Some (if neg then - x else x, r2)))"

fun parse_value :: "nat \<Rightarrow> string \<Rightarrow> (json \<times> string) option"
  and parse_elements :: "nat \<Rightarrow> string \<Rightarrow> (json list \<times> string) option"
  and parse_members :: "nat \<Rightarrow> string \<Rightarrow> ((string \<times> json) list \<times> string) option" where
  "parse_value 0 s = None"
| "parse_value (Suc n) s =
     (if startswith s ''null'' then Some (JNull, drop 4 s)
      else if startswith s ''true'' then Some (JBool True, drop 4 s)
      else if startswith s ''false'' then Some (JBool False, drop 5 s)
      else if startswith s [CHR 0x22] then map_option (\<lambda>(x, r). (JStr x, r)) (parse_string (tl s))
      else if startswith s ''['' then
        (let r = skip_ws (tl s) in
         if startswith r '']'' then Some (JArr [], tl r)
         else map_option (\<lambda>(xs, r'). (JArr xs, r')) (parse_elements n r))
      else if startswith s ''{'' then
        (let r = skip_ws (tl s) in
         if startswith r ''}'' then Some (JObj [], tl r)
         else map_option (\<lambda>(kvs, r'). (JObj (dict_of kvs), r')) (parse_members n r))
      else map_option (\<lambda>(x, r). (JNum x, r)) (parse_number s))"
| "parse_elements 0 s = None"
| "parse_elements (Suc n) s =
     (case parse_value n s of
        None \<Rightarrow> None
      | Some (x, r0) \<Rightarrow>
          (let r = skip_ws r0 in
           if startswith r '']'' then Some ([x], tl r)
           else if startswith r '','' then
             map_option (\<lambda>(xs, r'). (x # xs, r')) (parse_elements n (skip_ws (tl r)))
           else None))"
| "parse_members 0 s = None"
| "parse_members (Suc n) s =
     (if \<not> startswith s [CHR 0x22] then None
      else
        (case parse_string (tl s) of
           None \<Rightarrow> None
         | Some (k, r0) \<Rightarrow>
             (let r1 = skip_ws r0 in
              if \<not> startswith r1 '':'' then None
              else
                (case parse_value n (skip_ws (tl r1)) of
                   None \<Rightarrow> None
                 | Some (x, r2) \<Rightarrow>
                     (let r = skip_ws r2 in
                      if startswith r ''}'' then Some ([(k, x)], tl r)
                      else if startswith r '','' then
                        map_option (\<lambda>(kvs, r'). ((k, x) # kvs, r')) (parse_members n (skip_ws (tl r)))
                      else None)))))"

definition loads :: "string \<Rightarrow> json option" where
  "loads s =
     (case parse_value (Suc (length s)) (skip_ws s) of
        Some (x, r) \<Rightarrow> if skip_ws r = [] then Some x else None
      | None \<Rightarrow> None)"

text \<open>The parser on a few texts.\<close>

lemma loads_sample:
  "loads ''{ }'' = Some (JObj [])" "loads ''[1, -2.5e1,null]'' = Some (JArr [JNum 1, JNum (- 25), JNull])"
  "loads ''{'' = None" "loads ''1 2'' = None"
  by code_simp+

end
