(* ===== verification/Etcd_Client.thy ===== *)
theory Etcd_Client
  imports Daemon_IO
begin

text \<open>
  \<open>src/daemon/etcd_client.py\<close>: the client of the etcd v3 HTTP gateway. The gateway itself is
  \<open>sys_etcd\<close>; here are the retry loop with endpoint fail-over, the operations built on it, the
  prefix range and the flattening of watch events. The locale \<open>etcd_gateway\<close> names what the code
  relies on of etcd; \<open>kv_store\<close> is the contract the client offers to the rest of the daemon, and
  the sublocale shows that the client meets it on every such gateway, through its retries.

  Keys and values travel base64-encoded; requests and replies carry them decoded.
\<close>

section \<open>Keys\<close>

text \<open>\<open>_prefix_end\<close>: the key range \<open>[prefix, range_end)\<close> of a prefix scan.\<close>

definition prefix_end :: "string \<Rightarrow> string" where
  "prefix_end p = (if p = [] then [] else butlast p @ [char_of (ord_chr (last p) + 1)])"

section \<open>Transport\<close>

definition new_client :: "string list \<Rightarrow> 'w \<Rightarrow> exn + 'w st" where
  "new_client eps w =
     (if eps = [] then Inl (ValueError ''at least one etcd endpoint required'')
      else Inr \<lparr>st_endpoints = eps, st_idx = 0, st_trace = [], st_world = w\<rparr>)"

definition url :: "'w st \<Rightarrow> string" where
  "url s = rstrip_by (\<lambda>c. c = CHR ''/'') (st_endpoints s ! (st_idx s mod length (st_endpoints s)))"

definition retry_delays :: "time list" where
  "retry_delays = [1, 2, 4, 8, 8, 8]"

definition bump_idx :: "('w, unit) io" where
  "bump_idx = (\<lambda>s. (Inr (), s\<lparr>st_idx := st_idx s + 1\<rparr>))"

definition etcd_call :: "'w sys \<Rightarrow> request \<Rightarrow> ('w, http_reply) io" where
  "etcd_call sys rq = (\<lambda>s. call (A_etcd rq) (sys_etcd sys (url s) rq) s)"

definition success :: "nat \<Rightarrow> bool" where
  "success status \<longleftrightarrow> 200 \<le> status \<and> status < 300"

fun post_loop :: "'w sys \<Rightarrow> request \<Rightarrow> time list \<Rightarrow> ('w, reply) io" where
  "post_loop sys rq [] = raise (RuntimeError ''etcd: all endpoints failed after retries'')"
| "post_loop sys rq (d # ds) =
     bnd (if d = 0 then ret () else sleep sys d) (\<lambda>_.
     bnd (etcd_call sys rq) (\<lambda>r.
       case r of
         Transport_error \<Rightarrow> bnd bump_idx (\<lambda>_. post_loop sys rq ds)
       | Response status body \<Rightarrow>
           if status = 503 then bnd bump_idx (\<lambda>_. post_loop sys rq ds)
           else if \<not> success status then raise (HTTPStatusError status)
           else (case body of None \<Rightarrow> raise JSONDecodeError | Some rep \<Rightarrow> ret rep)))"

definition post :: "'w sys \<Rightarrow> request \<Rightarrow> ('w, reply) io" where
  "post sys rq = post_loop sys rq (0 # retry_delays)"

section \<open>Operations\<close>

definition lease_grant :: "'w sys \<Rightarrow> int \<Rightarrow> ('w, int) io" where
  "lease_grant sys ttl_s =
     bnd (post sys (Lease_grant ttl_s)) (\<lambda>r.
       case r_ID r of None \<Rightarrow> raise (KeyError ''ID'') | Some i \<Rightarrow> ret i)"

definition lease_keepalive :: "'w sys \<Rightarrow> int \<Rightarrow> ('w, int) io" where
  "lease_keepalive sys lease_id =
     bnd (post sys (Lease_keepalive lease_id)) (\<lambda>r.
       case (case r_result r of Some t \<Rightarrow> t | None \<Rightarrow> r_TTL r) of
         None \<Rightarrow> raise (RuntimeError ''lease not found / expired'')
       | Some ttl \<Rightarrow> ret ttl)"

definition lease_revoke :: "'w sys \<Rightarrow> int \<Rightarrow> ('w, unit) io" where
  "lease_revoke sys lease_id = bnd (post sys (Lease_revoke lease_id)) (\<lambda>_. ret ())"

definition member_add :: "'w sys \<Rightarrow> string list \<Rightarrow> ('w, reply) io" where
  "member_add sys peer_urls = post sys (Member_add peer_urls)"

definition member_list :: "'w sys \<Rightarrow> ('w, member list) io" where
  "member_list sys =
     bnd (post sys Member_list) (\<lambda>r. ret (case r_members r of None \<Rightarrow> [] | Some ms \<Rightarrow> ms))"

definition etcd_put :: "'w sys \<Rightarrow> string \<Rightarrow> etcd_value \<Rightarrow> int option \<Rightarrow> ('w, unit) io" where
  "etcd_put sys k v lease_id = bnd (post sys (Put k v lease_id)) (\<lambda>_. ret ())"

definition reply_kvs :: "reply \<Rightarrow> (string \<times> etcd_value) list" where
  "reply_kvs r = (case r_kvs r of None \<Rightarrow> [] | Some kvs \<Rightarrow> kvs)"

definition etcd_get :: "'w sys \<Rightarrow> string \<Rightarrow> ('w, etcd_value option) io" where
  "etcd_get sys k =
     bnd (post sys (Range k None)) (\<lambda>r.
       case reply_kvs r of [] \<Rightarrow> ret None | kv # _ \<Rightarrow> ret (Some (snd kv)))"

definition get_prefix :: "'w sys \<Rightarrow> string \<Rightarrow> ('w, etcd_value dict) io" where
  "get_prefix sys p =
     bnd (post sys (Range p (Some (prefix_end p)))) (\<lambda>r.
       ret (dict_of (reply_kvs r)))"

definition etcd_delete :: "'w sys \<Rightarrow> string \<Rightarrow> ('w, unit) io" where
  "etcd_delete sys k = bnd (post sys (Delete_range k)) (\<lambda>_. ret ())"

definition put_if_absent :: "'w sys \<Rightarrow> string \<Rightarrow> etcd_value \<Rightarrow> int option \<Rightarrow> ('w, bool) io" where
  "put_if_absent sys k v lease_id =
     bnd (post sys (Txn_create k v lease_id)) (\<lambda>r.
       ret (case r_succeeded r of None \<Rightarrow> False | Some b \<Rightarrow> b))"

section \<open>Watches\<close>

datatype ev_type = PUT | DELETE

record raw_kv =
  rk_key :: "string option"
  rk_value :: "etcd_value option"
  rk_mod_revision :: "int option"

record raw_event =
  re_type :: "ev_type option"
  re_kv :: "raw_kv option"

record event =
  ev_type :: ev_type
  ev_key :: string
  ev_value :: "etcd_value option"
  ev_rev :: int

text \<open>An empty value is falsy in the source, so it reads as no value at all.\<close>

definition normalise_event :: "raw_event \<Rightarrow> event" where
  "normalise_event ev =
     \<lparr>ev_type = (case re_type ev of None \<Rightarrow> PUT | Some t \<Rightarrow> t),
      ev_key = (case re_kv ev of None \<Rightarrow> [] | Some kv \<Rightarrow> or_empty (rk_key kv)),
      ev_value =
        (case re_kv ev of
           None \<Rightarrow> None
         | Some kv \<Rightarrow> (case rk_value kv of Some (Text []) \<Rightarrow> None | v \<Rightarrow> v)),
      ev_rev =
        (case re_kv ev of
           None \<Rightarrow> 0
         | Some kv \<Rightarrow> (case rk_mod_revision kv of None \<Rightarrow> 0 | Some n \<Rightarrow> n))\<rparr>"

text \<open>One connection of the watch stream: blank lines and lines that are not JSON are skipped,
  every other line yields its events.\<close>

datatype watch_line = Blank | Bad_json | Message "raw_event list option"

fun watch_events :: "watch_line list \<Rightarrow> event list" where
  "watch_events [] = []"
| "watch_events (Blank # ls) = watch_events ls"
| "watch_events (Bad_json # ls) = watch_events ls"
| "watch_events (Message evs # ls) =
     map normalise_event (case evs of None \<Rightarrow> [] | Some es \<Rightarrow> es) @ watch_events ls"

section \<open>Prefix ranges\<close>

definition in_range :: "string \<Rightarrow> string option \<Rightarrow> string \<Rightarrow> bool" where
  "in_range a e k \<longleftrightarrow> (case e of None \<Rightarrow> k = a | Some b \<Rightarrow> a \<le> k \<and> k < b)"

lemma char_less_ord: "(c::char) < d \<longleftrightarrow> ord_chr c < ord_chr d"
  by (simp add: less_char_def ord_chr_def)

lemma char_between:
  "ord_chr c < 255 \<Longrightarrow> c < x \<Longrightarrow> \<not> x < char_of (Suc (ord_chr c))"
  by (simp add: char_less_ord)

lemma char_less_Suc [simp]: "ord_chr c < 255 \<Longrightarrow> c < char_of (Suc (ord_chr c))"
  by (simp add: char_less_ord)

lemma between_snoc:
  assumes "ord_chr c < 255"
  shows "(q @ [c] \<le> k \<and> k < q @ [char_of (ord_chr c + 1)]) \<longleftrightarrow> prefix (q @ [c]) (k::string)"
proof (induction q arbitrary: k)
  case Nil
  show ?case
    using assms by (cases k) (auto dest: char_between [OF assms])
next
  case (Cons a q)
  show ?case using Cons.IH [of "tl k"] by (cases k) auto
qed

lemma in_range_prefix:
  assumes "p \<noteq> []" and "ord_chr (last p) < 255"
  shows "in_range p (Some (prefix_end p)) k \<longleftrightarrow> startswith k p"
proof -
  from assms(1) obtain q c where p: "p = q @ [c]" by (cases p rule: rev_cases) auto
  with assms(2) show ?thesis
    using between_snoc [of c q k]
    by (simp add: in_range_def prefix_end_def startswith_def)
qed


section \<open>What the client relies on, and what it offers\<close>

text \<open>The effect of a request that etcd has committed, on the keys.\<close>

definition apply_req :: "request \<Rightarrow> (string \<rightharpoonup> etcd_value) \<Rightarrow> (string \<rightharpoonup> etcd_value)" where
  "apply_req rq m =
     (case rq of
        Put k v l \<Rightarrow> m(k \<mapsto> v)
      | Delete_range k \<Rightarrow> m(k := None)
      | Txn_create k v l \<Rightarrow> (if m k = None then m(k \<mapsto> v) else m)
      | _ \<Rightarrow> m)"

text \<open>Requests that neither use a lease nor write a key that daemons attach to leases.\<close>

fun plain_req :: "string set \<Rightarrow> request \<Rightarrow> bool" where
  "plain_req L (Put k v l) \<longleftrightarrow> k \<notin> L \<and> l = None"
| "plain_req L (Txn_create k v l) \<longleftrightarrow> k \<notin> L \<and> l = None"
| "plain_req L (Delete_range k) \<longleftrightarrow> k \<notin> L"
| "plain_req L (Lease_revoke i) \<longleftrightarrow> False"
| "plain_req L rq \<longleftrightarrow> True"

text \<open>No key under the prefix is attached to a lease.\<close>

definition prefix_free :: "string set \<Rightarrow> string \<Rightarrow> bool" where
  "prefix_free L p \<longleftrightarrow> (\<forall>k \<in> L. \<not> startswith k p)"

text \<open>
  etcd's documented behaviour, seen by one client: a request answered with success took effect; any
  other outcome (an error status, a lost connection) leaves the keys as they were or with the request
  applied; a range read returns the keys of the range, sorted; a create transaction succeeds iff the
  key is absent; reading a file changes no key, and time passing none outside \<open>leased\<close>, the keys attached to leases.
\<close>

locale etcd_gateway =
  fixes sys :: "'w sys" and leased :: "string set" and kv :: "'w \<Rightarrow> string \<rightharpoonup> etcd_value"
  assumes gw_success:
      "plain_req leased rq \<Longrightarrow> sys_etcd sys u rq w = (Response st b, w') \<Longrightarrow> success st
         \<Longrightarrow> kv w' = apply_req rq (kv w)"
    and gw_any:
      "plain_req leased rq \<Longrightarrow> sys_etcd sys u rq w = (r, w') \<Longrightarrow> kv w' = kv w \<or> kv w' = apply_req rq (kv w)"
    and gw_range:
      "sys_etcd sys u (Range a e) w = (Response st (Some rep), w') \<Longrightarrow> success st
         \<Longrightarrow> distinct (map fst (reply_kvs rep)) \<and> sorted (map fst (reply_kvs rep))
           \<and> (\<forall>k v. (k, v) \<in> set (reply_kvs rep) \<longrightarrow> in_range a e k)
           \<and> (\<forall>k v. k \<notin> leased \<longrightarrow> in_range a e k
                \<longrightarrow> (k, v) \<in> set (reply_kvs rep) \<longleftrightarrow> kv w k = Some v)"
    and gw_txn:
      "sys_etcd sys u (Txn_create k v None) w = (Response st (Some rep), w') \<Longrightarrow> success st
         \<Longrightarrow> k \<notin> leased \<Longrightarrow> r_succeeded rep = Some True \<longleftrightarrow> kv w k = None"
    and quiet_time: "kv (snd (sys_time sys w)) = kv w"
    and quiet_monotonic: "kv (snd (sys_monotonic sys w)) = kv w"
    and quiet_sleep: "kv (sys_sleep sys t w) = kv w"
    and quiet_uuid4: "kv (snd (sys_uuid4 sys w)) = kv w"
    and quiet_read: "kv (snd (sys_read sys f w)) = kv w"

text \<open>
  The contract of the client's operations: each either raises an \<open>Exception\<close> or does what its
  docstring says. A write that raises may or may not have been applied. A \<open>put_if_absent\<close> that
  answers \<open>False\<close> may have created the key itself, when a retry found the first attempt's write.
\<close>

locale kv_store =
  fixes sys :: "'w sys" and leased :: "string set" and kv :: "'w \<Rightarrow> string \<rightharpoonup> etcd_value"
  assumes put_spec:
      "k \<notin> leased \<Longrightarrow> wp (etcd_put sys k v None)
         (\<lambda>_ t. kv (st_world t) = (kv (st_world s))(k \<mapsto> v))
         (\<lambda>e t. is_Exception e \<and> (kv (st_world t) = kv (st_world s)
                  \<or> kv (st_world t) = (kv (st_world s))(k \<mapsto> v))) s"
    and get_spec:
      "k \<notin> leased \<Longrightarrow> wp (etcd_get sys k)
         (\<lambda>r t. r = kv (st_world s) k \<and> kv (st_world t) = kv (st_world s))
         (\<lambda>e t. is_Exception e \<and> kv (st_world t) = kv (st_world s)) s"
    and get_prefix_spec:
      "p \<noteq> [] \<Longrightarrow> ord_chr (last p) < 255 \<Longrightarrow> prefix_free leased p \<Longrightarrow> wp (get_prefix sys p)
         (\<lambda>d t. dict_ok d \<and> sorted (keys d)
            \<and> (\<forall>k. dict_get d k = (if startswith k p then kv (st_world s) k else None))
            \<and> kv (st_world t) = kv (st_world s))
         (\<lambda>e t. is_Exception e \<and> kv (st_world t) = kv (st_world s)) s"
    and delete_spec:
      "k \<notin> leased \<Longrightarrow> wp (etcd_delete sys k)
         (\<lambda>_ t. kv (st_world t) = (kv (st_world s))(k := None))
         (\<lambda>e t. is_Exception e \<and> (kv (st_world t) = kv (st_world s)
                  \<or> kv (st_world t) = (kv (st_world s))(k := None))) s"
    and put_if_absent_spec:
      "k \<notin> leased \<Longrightarrow> wp (put_if_absent sys k v None)
         (\<lambda>b t. if b then kv (st_world s) k = None \<and> kv (st_world t) = (kv (st_world s))(k \<mapsto> v)
                else kv (st_world t) = (if kv (st_world s) k = None then (kv (st_world s))(k \<mapsto> v)
                                        else kv (st_world s)))
         (\<lambda>e t. is_Exception e \<and> (kv (st_world t) = kv (st_world s)
                  \<or> kv (st_world s) k = None \<and> kv (st_world t) = (kv (st_world s))(k \<mapsto> v))) s"
    and member_list_spec:
      "wp (member_list sys) (\<lambda>_ t. kv (st_world t) = kv (st_world s))
         (\<lambda>e t. is_Exception e \<and> kv (st_world t) = kv (st_world s)) s"
    and member_add_spec:
      "wp (member_add sys us) (\<lambda>_ t. kv (st_world t) = kv (st_world s))
         (\<lambda>e t. is_Exception e \<and> kv (st_world t) = kv (st_world s)) s"
    and clock_spec: "kv (snd (sys_time sys w)) = kv w" "kv (snd (sys_monotonic sys w)) = kv w"
      "kv (sys_sleep sys d w) = kv w" "kv (snd (sys_uuid4 sys w)) = kv w" "kv (snd (sys_read sys f w)) = kv w"

section \<open>The retry loop\<close>

lemma wp_bump_idx [wp_simps]: "wp bump_idx Q E s = Q () (s\<lparr>st_idx := st_idx s + 1\<rparr>)"
  by (simp add: wp_def bump_idx_def)

lemma wp_etcd_call [wp_simps]:
  "wp (etcd_call sys rq) Q E s = wp (call (A_etcd rq) (sys_etcd sys (url s) rq)) Q E s"
  by (simp add: wp_def etcd_call_def)

lemma url_update [simp]: "url (s\<lparr>st_trace := tr, st_world := w\<rparr>) = url s"
  by (simp add: url_def)

lemma success_not_503 [simp]: "\<not> success 503"
  by (simp add: success_def)

lemma apply_req_idem: "apply_req rq (apply_req rq m) = apply_req rq m"
  by (auto simp: apply_req_def split: request.splits)

text \<open>Whatever the gateway does, a request raises only an \<open>Exception\<close>.\<close>

lemma post_loop_raises: "wp (post_loop sys rq ds) (\<lambda>_ _. True) (\<lambda>e _. is_Exception e) s"
  by (induction ds arbitrary: s)
    (auto simp: wp_simps sleep_def split: http_reply.split option.split)

lemma post_raises: "wp (post sys rq) (\<lambda>_ _. True) (\<lambda>e _. is_Exception e) s"
  unfolding post_def by (rule post_loop_raises)

context etcd_gateway
begin

lemma post_loop_effect:
  assumes "plain_req leased rq"
    and "kv (st_world s) = m \<or> kv (st_world s) = apply_req rq m"
  shows "wp (post_loop sys rq ds)
    (\<lambda>rep t. kv (st_world t) = apply_req rq m
       \<and> (\<exists>u w st w'. sys_etcd sys u rq w = (Response st (Some rep), w') \<and> success st
            \<and> (kv w = m \<or> kv w = apply_req rq m)))
    (\<lambda>e t. kv (st_world t) = m \<or> kv (st_world t) = apply_req rq m) s"
  using assms(2)
proof (induction ds arbitrary: s)
  case Nil
  then show ?case by (simp add: wp_simps)
next
  case (Cons d ds)
  let ?w = "if d = 0 then st_world s else sys_sleep sys d (st_world s)"
  obtain r w' where call: "sys_etcd sys (url s) rq ?w = (r, w')" by fastforce
  have w: "kv ?w = m \<or> kv ?w = apply_req rq m" using Cons.prems by (simp add: quiet_sleep)
  have w': "kv w' = m \<or> kv w' = apply_req rq m"
    using gw_any [OF assms(1) call] w by (auto simp: apply_req_idem)
  show ?case
  proof (cases "\<exists>st b. r = Response st b \<and> success st")
    case True
    then obtain st b where r: "r = Response st b" "success st" by blast
    have "kv w' = apply_req rq m"
      using gw_success [OF assms(1)] call r w by (auto simp: apply_req_idem)
    moreover have "\<exists>u w st' w''. sys_etcd sys u rq w = (Response st' (Some rep), w'') \<and> success st'
        \<and> (kv w = m \<or> kv w = apply_req rq m)" if "b = Some rep" for rep
      using call r w that by blast
    moreover have "st \<noteq> 503" using r by auto
    ultimately show ?thesis
      using call r by (cases b; cases "d = 0"; simp add: wp_simps sleep_def)
  next
    case False
    then show ?thesis
      using call w' Cons.IH
      by (auto simp: wp_simps sleep_def split: http_reply.split)
  qed
qed

lemma post_effect:
  assumes "plain_req leased rq"
  shows "wp (post sys rq)
    (\<lambda>rep t. kv (st_world t) = apply_req rq (kv (st_world s))
       \<and> (\<exists>u w st w'. sys_etcd sys u rq w = (Response st (Some rep), w') \<and> success st
            \<and> (kv w = kv (st_world s) \<or> kv w = apply_req rq (kv (st_world s)))))
    (\<lambda>e t. is_Exception e
       \<and> (kv (st_world t) = kv (st_world s) \<or> kv (st_world t) = apply_req rq (kv (st_world s)))) s"
  using wp_conj [OF post_raises [of sys rq s, unfolded post_def]
      post_loop_effect [OF assms, of s "kv (st_world s)" "0 # retry_delays"]]
  unfolding post_def by (rule wp_mono) auto

text \<open>A read finds the keys of its range and changes nothing.\<close>

lemma post_range:
  "wp (post sys (Range a e))
    (\<lambda>rep t. kv (st_world t) = kv (st_world s)
       \<and> distinct (map fst (reply_kvs rep)) \<and> sorted (map fst (reply_kvs rep))
       \<and> (\<forall>k v. (k, v) \<in> set (reply_kvs rep) \<longrightarrow> in_range a e k)
       \<and> (\<forall>k v. k \<notin> leased \<longrightarrow> in_range a e k
            \<longrightarrow> (k, v) \<in> set (reply_kvs rep) \<longleftrightarrow> kv (st_world s) k = Some v))
    (\<lambda>x t. is_Exception x \<and> kv (st_world t) = kv (st_world s)) s"
  by (rule wp_mono [OF post_effect]) (auto simp: apply_req_def dest!: gw_range)

lemma client_get:
  "k \<notin> leased \<Longrightarrow> wp (etcd_get sys k)
     (\<lambda>r t. r = kv (st_world s) k \<and> kv (st_world t) = kv (st_world s))
     (\<lambda>e t. is_Exception e \<and> kv (st_world t) = kv (st_world s)) s"
  unfolding etcd_get_def wp_bnd
proof (rule wp_mono [OF post_range], goal_cases)
  case (1 rep t)
  then show ?case
    by (cases "reply_kvs rep"; cases "kv (st_world s) k") (fastforce simp: wp_simps in_range_def)+
qed auto

lemma client_get_prefix:
  assumes "p \<noteq> []" "ord_chr (last p) < 255" and L: "prefix_free leased p"
  shows "wp (get_prefix sys p)
    (\<lambda>d t. dict_ok d \<and> sorted (keys d)
       \<and> (\<forall>k. dict_get d k = (if startswith k p then kv (st_world s) k else None))
       \<and> kv (st_world t) = kv (st_world s))
    (\<lambda>e t. is_Exception e \<and> kv (st_world t) = kv (st_world s)) s"
  unfolding get_prefix_def wp_bnd
proof (rule wp_mono [OF post_range], goal_cases)
  case (1 rep t)
  let ?d = "reply_kvs rep"
  have ok: "dict_ok ?d" using 1 by (simp add: dict_ok_def keys_def)
  have "dict_get ?d k = (if startswith k p then kv (st_world s) k else None)" for k
  proof (cases "startswith k p")
    case True
    then have "dict_get ?d k = Some v \<longleftrightarrow> kv (st_world s) k = Some v" for v
      using 1 L in_range_prefix [OF assms(1,2)] by (auto simp: dict_get_Some_iff [OF ok] prefix_free_def)
    then show ?thesis using True by (metis option.exhaust)
  next
    case False
    then show ?thesis
      using 1 in_range_prefix [OF assms(1,2)] dict_get_Some_iff [OF ok, of k] by (cases "dict_get ?d k") auto
  qed
  then show ?case using 1 ok by (simp add: wp_simps dict_of_distinct keys_def)
qed auto

lemma client_put_if_absent:
  "k \<notin> leased \<Longrightarrow> wp (put_if_absent sys k v None)
     (\<lambda>b t. if b then kv (st_world s) k = None \<and> kv (st_world t) = (kv (st_world s))(k \<mapsto> v)
            else kv (st_world t) = (if kv (st_world s) k = None then (kv (st_world s))(k \<mapsto> v)
                                    else kv (st_world s)))
     (\<lambda>e t. is_Exception e \<and> (kv (st_world t) = kv (st_world s)
              \<or> kv (st_world s) k = None \<and> kv (st_world t) = (kv (st_world s))(k \<mapsto> v))) s"
  unfolding put_if_absent_def wp_bnd
proof (rule wp_mono [OF post_effect], goal_cases)
  case (2 rep t)
  then obtain u w st w' where c: "sys_etcd sys u (Txn_create k v None) w = (Response st (Some rep), w')"
    and st: "success st"
    and w: "kv w = kv (st_world s) \<or> kv w = apply_req (Txn_create k v None) (kv (st_world s))" by blast
  from gw_txn [OF c st 2(1)] w have "r_succeeded rep = Some True \<Longrightarrow> kv (st_world s) k = None"
    by (auto simp: apply_req_def split: if_splits)
  then show ?case using 2 by (auto simp: wp_simps apply_req_def split: option.split)
qed (auto simp: apply_req_def split: if_splits)

lemma client_write:
  assumes "plain_req leased rq"
  shows "wp (bnd (post sys rq) (\<lambda>_. ret ()))
    (\<lambda>_ t. kv (st_world t) = apply_req rq (kv (st_world s)))
    (\<lambda>e t. is_Exception e \<and> (kv (st_world t) = kv (st_world s)
             \<or> kv (st_world t) = apply_req rq (kv (st_world s)))) s"
  unfolding wp_bnd by (rule wp_mono [OF post_effect [OF assms]]) (auto simp: wp_simps)

end

text \<open>The client meets the contract on every gateway that behaves as documented.\<close>

sublocale etcd_gateway \<subseteq> kv_store sys leased kv
proof (unfold_locales, goal_cases)
  case (1 k v s)
  then show ?case using client_write [of "Put k v None" s] by (simp add: etcd_put_def apply_req_def)
next
  case (2 k s)
  then show ?case by (rule client_get)
next
  case (3 p s)
  then show ?case by (rule client_get_prefix)
next
  case (4 k s)
  then show ?case using client_write [of "Delete_range k" s] by (simp add: etcd_delete_def apply_req_def)
next
  case (5 k v s)
  then show ?case by (rule client_put_if_absent)
next
  case (6 s)
  then show ?case unfolding member_list_def wp_bnd
    by (auto simp: wp_simps apply_req_def intro: wp_mono [OF post_effect])
next
  case (7 us s)
  then show ?case unfolding member_add_def
    by (auto simp: apply_req_def intro: wp_mono [OF post_effect])
qed (simp_all add: quiet_time quiet_monotonic quiet_sleep quiet_uuid4 quiet_read)

context etcd_gateway
begin

lemma client: "kv_store sys leased kv"
  by unfold_locales

end

text \<open>etcd answers every request with success.\<close>

definition always_up :: "'w sys \<Rightarrow> bool" where
  "always_up sys \<longleftrightarrow> (\<forall>u rq w. \<exists>st rep w'. sys_etcd sys u rq w = (Response st (Some rep), w') \<and> success st)"

lemma post_up:
  assumes "always_up sys"
  shows "wp (post sys rq) (\<lambda>_ _. True) (\<lambda>_ _. False) s"
proof -
  obtain st rep w' where c: "sys_etcd sys (url s) rq (st_world s) = (Response st (Some rep), w')" "success st"
    using assms unfolding always_up_def by blast
  moreover from c(2) have "st \<noteq> 503" by auto
  ultimately show ?thesis by (simp add: post_def wp_simps)
qed

text \<open>A request that succeeds is the last thing that happened.\<close>

lemma post_loop_last:
  "wp (post_loop sys rq ds) (\<lambda>_ t. st_trace t \<noteq> [] \<and> last (st_trace t) = A_etcd rq) (\<lambda>_ _. True) s"
  by (induction ds arbitrary: s) (auto simp: wp_simps sleep_def split: http_reply.split option.split)

lemma put_up:
  assumes "always_up sys"
  shows "wp (etcd_put sys k v l) (\<lambda>_ _. True) (\<lambda>_ _. False) s"
  unfolding etcd_put_def wp_bnd by (rule wp_mono [OF post_up [OF assms]]) (auto simp: wp_simps)

lemma delete_up:
  assumes "always_up sys"
  shows "wp (etcd_delete sys k) (\<lambda>_ _. True) (\<lambda>_ _. False) s"
  unfolding etcd_delete_def wp_bnd by (rule wp_mono [OF post_up [OF assms]]) (auto simp: wp_simps)

lemma get_prefix_up:
  assumes "always_up sys"
  shows "wp (get_prefix sys p) (\<lambda>_ _. True) (\<lambda>_ _. False) s"
  unfolding get_prefix_def wp_bnd by (rule wp_mono [OF post_up [OF assms]]) (auto simp: wp_simps)

section \<open>Which calls the requests make\<close>

lemma only_post_loop:
  assumes "A (A_etcd rq)" and "\<And>d. A (A_sleep d)"
  shows "only A (post_loop sys rq ds)"
proof (induction ds)
  case (Cons d ds)
  have c: "only A (etcd_call sys rq)"
    using assms(1) by (auto simp: only_def etcd_call_def call_def extends_def)
  have b: "only A bump_idx" by (auto simp: only_def bump_idx_def extends_def)
  show ?case unfolding post_loop.simps
    by (intro only_intros c) (auto intro!: only_intros b Cons assms split: http_reply.split option.split)
qed (simp add: only_intros)

lemma only_get_prefix [only_intros]:
  assumes "A (A_etcd (Range p (Some (prefix_end p))))" and "\<And>d. A (A_sleep d)"
  shows "only A (get_prefix sys p)"
  unfolding get_prefix_def post_def by (intro only_bnd only_ret only_post_loop assms)

lemma only_post [only_intros]: "A (A_etcd rq) \<Longrightarrow> (\<And>d. A (A_sleep d)) \<Longrightarrow> only A (post sys rq)"
  unfolding post_def by (rule only_post_loop)

lemma only_etcd_get [only_intros]:
  "A (A_etcd (Range k None)) \<Longrightarrow> (\<And>d. A (A_sleep d)) \<Longrightarrow> only A (etcd_get sys k)"
  unfolding etcd_get_def by (intro only_intros) (auto intro!: only_intros split: list.split)

lemma only_etcd_delete [only_intros]:
  "A (A_etcd (Delete_range k)) \<Longrightarrow> (\<And>d. A (A_sleep d)) \<Longrightarrow> only A (etcd_delete sys k)"
  unfolding etcd_delete_def by (intro only_intros)

lemma only_etcd_put [only_intros]:
  "A (A_etcd (Put k v l)) \<Longrightarrow> (\<And>d. A (A_sleep d)) \<Longrightarrow> only A (etcd_put sys k v l)"
  unfolding etcd_put_def by (intro only_intros)

lemma only_member_list [only_intros]:
  "A (A_etcd Member_list) \<Longrightarrow> (\<And>d. A (A_sleep d)) \<Longrightarrow> only A (member_list sys)"
  unfolding member_list_def by (intro only_intros)

end
