(* ===== verification/Sim_World.thy ===== *)
theory Sim_World
  imports Etcd_Client
begin

text \<open>
  A concrete outside world: an in-memory etcd with injected faults, a clock, files and scripted
  answers for commands, peers and probes. It is no model of etcd's sources; it is an instance of the
  parameter \<open>sys\<close>, on which the interfaces are interpreted and the witnesses of the theorems are
  evaluated.
\<close>

datatype fault = Serve | Drop | Drop_applied | Busy | Fail

record world =
  w_kv :: "(string \<times> etcd_value) list"
  w_bound :: "(string \<times> int) list"
  w_lease :: int
  w_members :: "member list"
  w_faults :: "fault list"
  w_clock :: time
  w_uuid :: nat
  w_files :: "(string \<times> string) list"
  w_runs :: "(int \<times> string \<times> string) list"
  w_https :: "http_result list"
  w_tcps :: "bool list"

definition world0 :: world where
  "world0 = \<lparr>w_kv = [], w_bound = [], w_lease = 1, w_members = [], w_faults = [], w_clock = 0,
     w_uuid = 0, w_files = [], w_runs = [], w_https = [], w_tcps = []\<rparr>"

definition reply0 :: reply where
  "reply0 = \<lparr>r_ID = None, r_TTL = None, r_result = None, r_kvs = None, r_succeeded = None,
     r_members = None\<rparr>"

definition mem_range :: "string \<Rightarrow> string option \<Rightarrow> world \<Rightarrow> (string \<times> etcd_value) list" where
  "mem_range a e w =
     map (\<lambda>k. (k, the (map_of (w_kv w) k)))
       (filter (in_range a e) (sort (remdups (map fst (w_kv w)))))"

definition mem_bind :: "string \<Rightarrow> int option \<Rightarrow> world \<Rightarrow> world" where
  "mem_bind k l w =
     (case l of None \<Rightarrow> w\<lparr>w_bound := AList.delete k (w_bound w)\<rparr>
      | Some i \<Rightarrow> w\<lparr>w_bound := AList.update k i (w_bound w)\<rparr>)"

fun mem_serve :: "request \<Rightarrow> world \<Rightarrow> reply \<times> world" where
  "mem_serve (Put k v l) w = (reply0, mem_bind k l (w\<lparr>w_kv := AList.update k v (w_kv w)\<rparr>))"
| "mem_serve (Delete_range k) w = (reply0, w\<lparr>w_kv := AList.delete k (w_kv w)\<rparr>)"
| "mem_serve (Txn_create k v l) w =
     (case map_of (w_kv w) k of
        None \<Rightarrow> (reply0\<lparr>r_succeeded := Some True\<rparr>,
                 mem_bind k l (w\<lparr>w_kv := AList.update k v (w_kv w)\<rparr>))
      | Some _ \<Rightarrow> (reply0, w))"
| "mem_serve (Range a e) w = (reply0\<lparr>r_kvs := Some (mem_range a e w)\<rparr>, w)"
| "mem_serve (Lease_grant t) w =
     (reply0\<lparr>r_ID := Some (w_lease w), r_TTL := Some t\<rparr>, w\<lparr>w_lease := w_lease w + 1\<rparr>)"
| "mem_serve (Lease_keepalive i) w =
     (reply0\<lparr>r_result := Some (if i \<in> snd ` set (w_bound w) then Some 15 else None)\<rparr>, w)"
| "mem_serve (Lease_revoke i) w =
     (reply0, w\<lparr>w_kv := filter (\<lambda>kv. map_of (w_bound w) (fst kv) \<noteq> Some i) (w_kv w),
                w_bound := filter (\<lambda>b. snd b \<noteq> i) (w_bound w)\<rparr>)"
| "mem_serve (Member_add us) w =
     (reply0\<lparr>r_members := Some (w_members w @ [\<lparr>mem_ID = int (length (w_members w)) + 1, mem_name = [],
        mem_peerURLs = us\<rparr>])\<rparr>,
      w\<lparr>w_members := w_members w @ [\<lparr>mem_ID = int (length (w_members w)) + 1, mem_name = [],
        mem_peerURLs = us\<rparr>]\<rparr>)"
| "mem_serve Member_list w = (reply0\<lparr>r_members := Some (w_members w)\<rparr>, w)"
| "mem_serve (Member_remove i) w =
     (reply0, w\<lparr>w_members := filter (\<lambda>m. mem_ID m \<noteq> i) (w_members w)\<rparr>)"

definition mem_etcd :: "string \<Rightarrow> request \<Rightarrow> world \<Rightarrow> http_reply \<times> world" where
  "mem_etcd u rq w =
     (let w1 = w\<lparr>w_faults := tl (w_faults w)\<rparr> in
      case w_faults w of
        Drop # _ \<Rightarrow> (Transport_error, w1)
      | Drop_applied # _ \<Rightarrow> (Transport_error, snd (mem_serve rq w1))
      | Busy # _ \<Rightarrow> (Response 503 None, w1)
      | Fail # _ \<Rightarrow> (Response 500 None, w1)
      | _ \<Rightarrow> (Response 200 (Some (fst (mem_serve rq w1))), snd (mem_serve rq w1)))"

definition pop_script :: "'a \<Rightarrow> 'a list \<Rightarrow> 'a" where
  "pop_script d xs = (case xs of [] \<Rightarrow> d | x # _ \<Rightarrow> x)"

definition mem_sys :: "world sys" where
  "mem_sys =
     \<lparr>sys_etcd = mem_etcd,
      sys_time = (\<lambda>w. (w_clock w, w)),
      sys_monotonic = (\<lambda>w. (w_clock w, w)),
      sys_sleep = (\<lambda>t w. w\<lparr>w_clock := w_clock w + t\<rparr>),
      sys_uuid4 = (\<lambda>w. (''job-'' @ str_of_nat (w_uuid w), w\<lparr>w_uuid := Suc (w_uuid w)\<rparr>)),
      sys_run = (\<lambda>c w. (pop_script (0, [], []) (w_runs w), w\<lparr>w_runs := tl (w_runs w)\<rparr>)),
      sys_http = (\<lambda>c w. (pop_script Http_error (w_https w), w\<lparr>w_https := tl (w_https w)\<rparr>)),
      sys_tcp = (\<lambda>ip p w. (pop_script False (w_tcps w), w\<lparr>w_tcps := tl (w_tcps w)\<rparr>)),
      sys_read = (\<lambda>p w. (map_of (w_files w) p, w)),
      sys_write = (\<lambda>p c w. w\<lparr>w_files := AList.update p c (w_files w)\<rparr>)\<rparr>"

text \<open>A daemon that has just opened its client on this world.\<close>

definition start :: "world \<Rightarrow> world st" where
  "start w = \<lparr>st_endpoints = [''http://10.0.0.1:2379''], st_idx = 0, st_trace = [], st_world = w\<rparr>"

lemma mem_sys_simps [simp]:
  "sys_etcd mem_sys = mem_etcd" "sys_time mem_sys w = (w_clock w, w)"
  "sys_monotonic mem_sys w = (w_clock w, w)"
  "sys_sleep mem_sys t w = w\<lparr>w_clock := w_clock w + t\<rparr>"
  "sys_uuid4 mem_sys w = (''job-'' @ str_of_nat (w_uuid w), w\<lparr>w_uuid := Suc (w_uuid w)\<rparr>)"
  "sys_run mem_sys c w = (pop_script (0, [], []) (w_runs w), w\<lparr>w_runs := tl (w_runs w)\<rparr>)"
  "sys_http mem_sys hc w = (pop_script Http_error (w_https w), w\<lparr>w_https := tl (w_https w)\<rparr>)"
  "sys_tcp mem_sys ip p w = (pop_script False (w_tcps w), w\<lparr>w_tcps := tl (w_tcps w)\<rparr>)"
  "sys_read mem_sys f w = (map_of (w_files w) f, w)"
  "sys_write mem_sys f d w = w\<lparr>w_files := AList.update f d (w_files w)\<rparr>"
  by (simp_all add: mem_sys_def)

lemma mem_bind_kv [simp]: "w_kv (mem_bind k l w) = w_kv w"
  by (simp add: mem_bind_def split: option.split)

lemma mem_serve_plain:
  "plain_req L rq \<Longrightarrow> map_of (w_kv (snd (mem_serve rq w))) = apply_req rq (map_of (w_kv w))"
  by (cases rq) (auto simp: apply_req_def update_conv' delete_conv' split: option.split)

lemma mem_etcd_success:
  "mem_etcd u rq w = (Response st b, w') \<Longrightarrow> success st
     \<Longrightarrow> b = Some (fst (mem_serve rq (w\<lparr>w_faults := tl (w_faults w)\<rparr>)))
       \<and> w' = snd (mem_serve rq (w\<lparr>w_faults := tl (w_faults w)\<rparr>))"
  by (auto simp: mem_etcd_def Let_def success_def split: list.splits fault.splits)

lemma mem_range_keys: "map fst (mem_range a e w) = filter (in_range a e) (sort (remdups (map fst (w_kv w))))"
  by (simp add: mem_range_def comp_def)

lemma mem_range_set:
  "(k, v) \<in> set (mem_range a e w) \<longleftrightarrow> in_range a e k \<and> map_of (w_kv w) k = Some v"
proof -
  have "k \<in> fst ` set (w_kv w) \<longleftrightarrow> map_of (w_kv w) k \<noteq> None"
    by (simp add: map_of_eq_None_iff)
  then show ?thesis by (auto simp: mem_range_def)
qed

interpretation mem: etcd_gateway mem_sys L "\<lambda>w. map_of (w_kv w)" for L
proof (unfold_locales, goal_cases)
  case (1 rq u w st b w')
  then show ?case
    using mem_serve_plain [of L rq] by (auto dest!: mem_etcd_success)
next
  case (2 rq u w r w')
  then show ?case
    using mem_serve_plain [of L rq "w\<lparr>w_faults := tl (w_faults w)\<rparr>"]
    by (auto simp: mem_etcd_def Let_def split: list.splits fault.splits)
next
  case (3 u a e w st rep w')
  then have "reply_kvs rep = mem_range a e w"
    by (auto dest!: mem_etcd_success simp: reply_kvs_def mem_range_def)
  then show ?case by (simp add: mem_range_keys mem_range_set sorted_wrt_filter)
next
  case (4 u k v w st rep w')
  then show ?case
    by (auto dest!: mem_etcd_success simp: reply0_def split: option.splits)
qed simp_all

text \<open>The same world on a day without faults.\<close>

definition calm_etcd :: "string \<Rightarrow> request \<Rightarrow> world \<Rightarrow> http_reply \<times> world" where
  "calm_etcd u rq w = mem_etcd u rq (w\<lparr>w_faults := []\<rparr>)"

definition calm_sys :: "world sys" where
  "calm_sys = mem_sys\<lparr>sys_etcd := calm_etcd\<rparr>"

lemma calm_sys_simps [simp]:
  "sys_etcd calm_sys = calm_etcd" "sys_time calm_sys = sys_time mem_sys"
  "sys_monotonic calm_sys = sys_monotonic mem_sys" "sys_sleep calm_sys = sys_sleep mem_sys"
  "sys_uuid4 calm_sys = sys_uuid4 mem_sys" "sys_read calm_sys = sys_read mem_sys"
  by (simp_all add: calm_sys_def)

lemma calm_up: "always_up calm_sys"
  by (simp add: always_up_def calm_etcd_def mem_etcd_def Let_def success_def)

interpretation calm: etcd_gateway calm_sys L "\<lambda>w. map_of (w_kv w)" for L
proof (unfold_locales, goal_cases)
  case (1 rq u w st b w')
  then show ?case using mem.gw_success [of L rq u "w\<lparr>w_faults := []\<rparr>"] by (simp add: calm_etcd_def)
next
  case (2 rq u w r w')
  then show ?case using mem.gw_any [of L rq u "w\<lparr>w_faults := []\<rparr>"] by (simp add: calm_etcd_def)
next
  case (3 u a e w st rep w')
  then show ?case using mem.gw_range [of u a e "w\<lparr>w_faults := []\<rparr>"] by (simp add: calm_etcd_def)
next
  case (4 u k v w st rep w')
  then show ?case using mem.gw_txn [of u k v "w\<lparr>w_faults := []\<rparr>"] by (simp add: calm_etcd_def)
qed simp_all

text \<open>The one key that daemons attach to a lease.\<close>

abbreviation lease_keys :: "string set" where
  "lease_keys \<equiv> {''/cluster/leader''}"

text \<open>A cluster of two nodes, as their daemons register it.\<close>

definition node_entry :: "string \<Rightarrow> obj" where
  "node_entry ip = [(''ip'', JStr ip)]"

definition two_nodes :: world where
  "two_nodes = world0\<lparr>w_kv :=
     [(''/cluster/topology/peers/node-1'', Json (node_entry ''10.0.0.1'')),
      (''/cluster/topology/peers/node-2'', Json (node_entry ''10.0.0.2'')),
      (''/cluster/version'', Text ''v2.5.4'')]\<rparr>"

end
