(* ===== verification/Config.thy ===== *)
theory Config
  imports Daemon_IO
begin

text \<open>
  \<open>src/daemon/config.py\<close> and \<open>src/daemon/auth.py\<close>: the daemon's settings with their defaults, and
  the bearer-token check in front of every authenticated route. \<open>Settings\<close> reads the record from the
  environment.
\<close>

section \<open>Settings\<close>

record daemon_config =
  cluster_name :: string
  node_name :: string
  local_ip :: string
  cluster_token :: string
  etcd_endpoints :: string
  etcd_peer_port :: int
  listen_port :: int
  lease_ttl_s :: int
  keepalive_interval_s :: int
  log_level :: string
  watchdog_mode :: string
  watchdog_interval_s :: int
  watchdog_unhealthy_threshold :: int
  watchdog_peer_failure_threshold :: int
  watchdog_restart_loop_window_s :: int
  watchdog_restart_loop_max :: int
  auto_migrate_pulsar_on_host_failure :: bool
  auto_migrate_pulsar_threshold :: int
  jobs_retention_s :: int
  jobs_prune_interval_s :: int
  jobs_heartbeat_timeout_s :: int
  jobs_stuck_sweep_interval_s :: int
  rolling_minio_peer_rpc_timeout_s :: rat
  rolling_minio_healthy_wait_s :: int
  minio_api_port :: int
  minio_access_key :: string
  minio_secret_key :: string
  minio_ha_pool_size :: int

text \<open>A configuration from the five required settings and the declared defaults.\<close>

definition default_config :: "string \<Rightarrow> string \<Rightarrow> string \<Rightarrow> string \<Rightarrow> string \<Rightarrow> daemon_config" where
  "default_config cluster node ip token endpoints =
     \<lparr>cluster_name = cluster, node_name = node, local_ip = ip, cluster_token = token,
      etcd_endpoints = endpoints, etcd_peer_port = 2380, listen_port = 19500, lease_ttl_s = 15,
      keepalive_interval_s = 5, log_level = ''info'', watchdog_mode = ''auto'',
      watchdog_interval_s = 10, watchdog_unhealthy_threshold = 3,
      watchdog_peer_failure_threshold = 6, watchdog_restart_loop_window_s = 300,
      watchdog_restart_loop_max = 3, auto_migrate_pulsar_on_host_failure = False,
      auto_migrate_pulsar_threshold = 30, jobs_retention_s = 30 * 24 * 3600,
      jobs_prune_interval_s = 3600, jobs_heartbeat_timeout_s = 60,
      jobs_stuck_sweep_interval_s = 30, rolling_minio_peer_rpc_timeout_s = 180,
      rolling_minio_healthy_wait_s = 90, minio_api_port = 9000, minio_access_key = ''minioadmin'',
      minio_secret_key = [], minio_ha_pool_size = 0\<rparr>"

definition etcd_endpoint_list :: "daemon_config \<Rightarrow> string list" where
  "etcd_endpoint_list cfg =
     map strip (filter (\<lambda>e. strip e \<noteq> []) (split_on (CHR '','') (etcd_endpoints cfg)))"

section \<open>Bearer tokens\<close>

definition ascii :: "string \<Rightarrow> bool" where
  "ascii s \<longleftrightarrow> list_all (\<lambda>c. ord_chr c < 128) s"

text \<open>\<open>secrets.compare_digest\<close> on two \<open>str\<close>: only ASCII is accepted.\<close>

definition compare_digest :: "string \<Rightarrow> string \<Rightarrow> exn + bool" where
  "compare_digest a b =
     (if ascii a \<and> ascii b then Inr (a = b)
      else Inl (TypeError ''comparing strings with non-ASCII characters is not supported''))"

definition require_token :: "daemon_config \<Rightarrow> string option \<Rightarrow> exn + unit" where
  "require_token cfg authorization =
     (case authorization of
        None \<Rightarrow> Inl (HTTPException 401 ''missing bearer token'')
      | Some h \<Rightarrow>
          if h = [] \<or> \<not> startswith (lower h) ''bearer '' then
            Inl (HTTPException 401 ''missing bearer token'')
          else
            (let presented = strip (snd (partition_at (CHR '' '') h)) in
             case compare_digest presented (cluster_token cfg) of
               Inl e \<Rightarrow> Inl e
             | Inr ok \<Rightarrow> if ok then Inr () else Inl (HTTPException 403 ''invalid token'')))"

section \<open>Properties\<close>

text \<open>The endpoint list never holds an entry that is empty or padded, so opening the client fails
  exactly when the setting names no endpoint.\<close>

lemma lower_char_space [simp]: "lower_char c = CHR '' '' \<longleftrightarrow> c = CHR '' ''"
proof -
  have sp: "c = CHR '' '' \<longleftrightarrow> ord_chr c = 32" for c
    using ord_chr_inject [of c "CHR '' ''"] by (simp add: ord_chr_def)
  show ?thesis
    using ord_chr_less [of c] by (auto simp: lower_char_def Let_def sp split: if_splits)
qed

lemma lower_length [simp]: "length (lower s) = length s"
  by (simp add: lower_def)

lemma space_notin_lower: "CHR '' '' \<notin> set (lower s) \<longleftrightarrow> CHR '' '' \<notin> set s"
  by (induction s) (auto simp: lower_def eq_commute [of "CHR '' ''"])

lemma bearer_split:
  assumes "startswith (lower h) ''bearer ''"
  obtains scheme rest where "h = scheme @ CHR '' '' # rest" "lower scheme = ''bearer''"
    "partition_at (CHR '' '') h = (scheme, rest)"
proof -
  from assms obtain r where r: "lower h = ''bearer'' @ CHR '' '' # r"
    by (auto simp: startswith_def prefix_def)
  let ?s = "take 6 h"
  have s: "lower ?s = ''bearer''" using r by (simp add: lower_def flip: take_map)
  have "lower (drop 6 h) = CHR '' '' # r" using r by (simp add: lower_def flip: drop_map)
  then obtain rest where d: "drop 6 h = CHR '' '' # rest"
    by (cases "drop 6 h") (auto simp: lower_def)
  have h: "h = ?s @ CHR '' '' # rest" by (metis append_take_drop_id d)
  have n: "CHR '' '' \<notin> set ?s" using s space_notin_lower [of ?s] by simp
  have "partition_at (CHR '' '') (?s @ CHR '' '' # rest) = (?s, rest)"
    using n by (rule partition_at_append)
  then show thesis using that [OF h s] h by simp
qed


lemma require_token_accepts:
  "require_token cfg (Some h) = Inr () \<longleftrightarrow>
     (\<exists>scheme rest. h = scheme @ CHR '' '' # rest \<and> lower scheme = ''bearer''
        \<and> strip rest = cluster_token cfg \<and> ascii (cluster_token cfg))"
  (is "?L \<longleftrightarrow> ?R")
proof
  assume L: ?L
  then have "startswith (lower h) ''bearer ''"
    by (auto simp: require_token_def split: if_splits)
  then obtain scheme rest where "h = scheme @ CHR '' '' # rest" "lower scheme = ''bearer''"
    "partition_at (CHR '' '') h = (scheme, rest)" by (rule bearer_split)
  with L show ?R
    by (auto simp: require_token_def compare_digest_def Let_def split: if_splits)
next
  assume ?R
  then obtain scheme rest where h: "h = scheme @ CHR '' '' # rest" and s: "lower scheme = ''bearer''"
    and t: "strip rest = cluster_token cfg" "ascii (cluster_token cfg)" by blast
  have "CHR '' '' \<notin> set scheme" using s space_notin_lower [of scheme] by simp
  then have "partition_at (CHR '' '') h = (scheme, rest)" unfolding h by (rule partition_at_append)
  moreover have "startswith (lower h) ''bearer ''"
    using s h by (simp add: startswith_def lower_def lower_char_space [THEN iffD2])
  ultimately show ?L
    using t h by (simp add: require_token_def compare_digest_def)
qed

text \<open>A request passes the token check exactly when its \<open>Authorization\<close> header is the word \<open>bearer\<close>, in
  any case, a blank, and the cluster token, up to surrounding blanks; no header, an empty one or another
  scheme is a 401, and a wrong token is a 403 (a token that is not ASCII is never accepted).\<close>

theorem require_token_exact:
  "(require_token cfg (Some h) = Inr () \<longleftrightarrow>
     (\<exists>scheme rest. h = scheme @ CHR '' '' # rest \<and> lower scheme = ''bearer''
        \<and> strip rest = cluster_token cfg \<and> ascii (cluster_token cfg)))
   \<and> (\<exists>m. require_token cfg None = Inl (HTTPException 401 m))
   \<and> (startswith (lower h) ''bearer '' \<or> (\<exists>m. require_token cfg (Some h) = Inl (HTTPException 401 m)))"
  by (simp add: require_token_accepts) (auto simp: require_token_def)

end
