(* ===== verification/Settings.thy ===== *)
theory Settings
  imports Config Etcd_Client
begin

text \<open>
  \<open>src/daemon/config.py\<close> and the first lines of \<open>lifespan\<close> (\<open>src/daemon/main.py\<close>): from the environment of the
  container to the settings and the etcd client. The prefix, the case-insensitive names, the dropped
  empty values and the defaults are the source's declarations; how pydantic reads an \<open>int\<close>, a \<open>float\<close> and a
  \<open>bool\<close> from a text is a parameter. The loader is cut into the groups in which the class declares its fields.
\<close>

section \<open>The environment\<close>

record parsers =
  parse_int :: "string \<Rightarrow> int option"
  parse_float :: "string \<Rightarrow> rat option"
  parse_bool :: "string \<Rightarrow> bool option"

type_synonym environ = "(string \<times> string) list"

text \<open>\<open>case_sensitive=False\<close> and \<open>env_ignore_empty=True\<close>: empty values are dropped, names are lowered, and of
  two names that differ in case the later one counts.\<close>

fun known_env :: "environ \<Rightarrow> string dict \<Rightarrow> string dict" where
  "known_env [] d = d"
| "known_env ((k, v) # env) d = known_env env (if v = [] then d else dict_set (lower k) v d)"

definition setting :: "environ \<Rightarrow> string \<Rightarrow> string option" where
  "setting env field = dict_get (known_env env []) (lower ''MILVUS_ONPREM_'' @ field)"

definition optional :: "environ \<Rightarrow> (string \<Rightarrow> 'a option) \<Rightarrow> string \<Rightarrow> 'a \<Rightarrow> 'a option" where
  "optional env parse field dflt = (case setting env field of None \<Rightarrow> Some dflt | Some v \<Rightarrow> parse v)"

section \<open>Loading\<close>

definition load_identity :: "environ \<Rightarrow> daemon_config option" where
  "load_identity env =
     Option.bind (setting env ''cluster_name'') (\<lambda>cluster.
     Option.bind (setting env ''node_name'') (\<lambda>node.
     Option.bind (setting env ''local_ip'') (\<lambda>ip.
     Option.bind (setting env ''cluster_token'') (\<lambda>token.
     Option.bind (setting env ''etcd_endpoints'') (\<lambda>endpoints.
       Some (default_config cluster node ip token endpoints))))))"

definition load_ports :: "parsers \<Rightarrow> environ \<Rightarrow> daemon_config \<Rightarrow> daemon_config option" where
  "load_ports P env c =
     Option.bind (optional env (parse_int P) ''etcd_peer_port'' 2380) (\<lambda>a.
     Option.bind (optional env (parse_int P) ''listen_port'' 19500) (\<lambda>b.
     Option.bind (optional env (parse_int P) ''lease_ttl_s'' 15) (\<lambda>d.
     Option.bind (optional env (parse_int P) ''keepalive_interval_s'' 5) (\<lambda>e.
     Option.bind (optional env Some ''log_level'' ''info'') (\<lambda>f.
       Some (c\<lparr>etcd_peer_port := a, listen_port := b, lease_ttl_s := d, keepalive_interval_s := e, log_level := f\<rparr>))))))"

definition load_watchdog :: "parsers \<Rightarrow> environ \<Rightarrow> daemon_config \<Rightarrow> daemon_config option" where
  "load_watchdog P env c =
     Option.bind (optional env Some ''watchdog_mode'' ''auto'') (\<lambda>a.
     Option.bind (optional env (parse_int P) ''watchdog_interval_s'' 10) (\<lambda>b.
     Option.bind (optional env (parse_int P) ''watchdog_unhealthy_threshold'' 3) (\<lambda>d.
     Option.bind (optional env (parse_int P) ''watchdog_peer_failure_threshold'' 6) (\<lambda>e.
     Option.bind (optional env (parse_int P) ''watchdog_restart_loop_window_s'' 300) (\<lambda>f.
     Option.bind (optional env (parse_int P) ''watchdog_restart_loop_max'' 3) (\<lambda>g.
       Some (c\<lparr>watchdog_mode := a, watchdog_interval_s := b, watchdog_unhealthy_threshold := d,
               watchdog_peer_failure_threshold := e, watchdog_restart_loop_window_s := f, watchdog_restart_loop_max := g\<rparr>)))))))"

definition load_failover :: "parsers \<Rightarrow> environ \<Rightarrow> daemon_config \<Rightarrow> daemon_config option" where
  "load_failover P env c =
     Option.bind (optional env (parse_bool P) ''auto_migrate_pulsar_on_host_failure'' False) (\<lambda>a.
     Option.bind (optional env (parse_int P) ''auto_migrate_pulsar_threshold'' 30) (\<lambda>b.
       Some (c\<lparr>auto_migrate_pulsar_on_host_failure := a, auto_migrate_pulsar_threshold := b\<rparr>)))"

definition load_jobs :: "parsers \<Rightarrow> environ \<Rightarrow> daemon_config \<Rightarrow> daemon_config option" where
  "load_jobs P env c =
     Option.bind (optional env (parse_int P) ''jobs_retention_s'' (30 * 24 * 3600)) (\<lambda>a.
     Option.bind (optional env (parse_int P) ''jobs_prune_interval_s'' 3600) (\<lambda>b.
     Option.bind (optional env (parse_int P) ''jobs_heartbeat_timeout_s'' 60) (\<lambda>d.
     Option.bind (optional env (parse_int P) ''jobs_stuck_sweep_interval_s'' 30) (\<lambda>e.
       Some (c\<lparr>jobs_retention_s := a, jobs_prune_interval_s := b, jobs_heartbeat_timeout_s := d,
               jobs_stuck_sweep_interval_s := e\<rparr>)))))"

definition load_minio :: "parsers \<Rightarrow> environ \<Rightarrow> daemon_config \<Rightarrow> daemon_config option" where
  "load_minio P env c =
     Option.bind (optional env (parse_float P) ''rolling_minio_peer_rpc_timeout_s'' 180) (\<lambda>a.
     Option.bind (optional env (parse_int P) ''rolling_minio_healthy_wait_s'' 90) (\<lambda>b.
     Option.bind (optional env (parse_int P) ''minio_api_port'' 9000) (\<lambda>d.
     Option.bind (optional env Some ''minio_access_key'' ''minioadmin'') (\<lambda>e.
     Option.bind (optional env Some ''minio_secret_key'' []) (\<lambda>f.
     Option.bind (optional env (parse_int P) ''minio_ha_pool_size'' 0) (\<lambda>g.
       Some (c\<lparr>rolling_minio_peer_rpc_timeout_s := a, rolling_minio_healthy_wait_s := b, minio_api_port := d,
               minio_access_key := e, minio_secret_key := f, minio_ha_pool_size := g\<rparr>)))))))"

text \<open>\<open>DaemonConfig()\<close>; \<open>None\<close> is pydantic's \<open>ValidationError\<close>.\<close>

definition load_settings :: "parsers \<Rightarrow> environ \<Rightarrow> daemon_config option" where
  "load_settings P env =
     Option.bind (load_identity env) (\<lambda>c.
     Option.bind (load_ports P env c) (\<lambda>c.
     Option.bind (load_watchdog P env c) (\<lambda>c.
     Option.bind (load_failover P env c) (\<lambda>c.
     Option.bind (load_jobs P env c) (load_minio P env)))))"

text \<open>The start of \<open>lifespan\<close>: the settings, then the client on their endpoints.\<close>

definition boot :: "parsers \<Rightarrow> environ \<Rightarrow> 'w \<Rightarrow> exn + (daemon_config \<times> 'w st)" where
  "boot P env w =
     (case load_settings P env of
        None \<Rightarrow> Inl (ValueError ''validation error for DaemonConfig'')
      | Some cfg \<Rightarrow>
          (case new_client (etcd_endpoint_list cfg) w of
             Inl e \<Rightarrow> Inl e
           | Inr s \<Rightarrow> Inr (cfg, s)))"

section \<open>The declared fields\<close>

text \<open>The class as a table: every field with its name, its default and its place in the record.\<close>

definition required_table :: "(string \<times> (daemon_config \<Rightarrow> string)) list" where
  "required_table = [(''cluster_name'', cluster_name), (''node_name'', node_name), (''local_ip'', local_ip),
     (''cluster_token'', cluster_token), (''etcd_endpoints'', etcd_endpoints)]"

definition text_table :: "(string \<times> string \<times> (daemon_config \<Rightarrow> string)) list" where
  "text_table = [(''log_level'', ''info'', log_level), (''watchdog_mode'', ''auto'', watchdog_mode),
     (''minio_access_key'', ''minioadmin'', minio_access_key), (''minio_secret_key'', [], minio_secret_key)]"

definition int_table :: "(string \<times> int \<times> (daemon_config \<Rightarrow> int)) list" where
  "int_table =
     [(''etcd_peer_port'', 2380, etcd_peer_port), (''listen_port'', 19500, listen_port), (''lease_ttl_s'', 15, lease_ttl_s),
      (''keepalive_interval_s'', 5, keepalive_interval_s), (''watchdog_interval_s'', 10, watchdog_interval_s),
      (''watchdog_unhealthy_threshold'', 3, watchdog_unhealthy_threshold),
      (''watchdog_peer_failure_threshold'', 6, watchdog_peer_failure_threshold),
      (''watchdog_restart_loop_window_s'', 300, watchdog_restart_loop_window_s),
      (''watchdog_restart_loop_max'', 3, watchdog_restart_loop_max),
      (''auto_migrate_pulsar_threshold'', 30, auto_migrate_pulsar_threshold),
      (''jobs_retention_s'', 2592000, jobs_retention_s), (''jobs_prune_interval_s'', 3600, jobs_prune_interval_s),
      (''jobs_heartbeat_timeout_s'', 60, jobs_heartbeat_timeout_s),
      (''jobs_stuck_sweep_interval_s'', 30, jobs_stuck_sweep_interval_s),
      (''rolling_minio_healthy_wait_s'', 90, rolling_minio_healthy_wait_s), (''minio_api_port'', 9000, minio_api_port),
      (''minio_ha_pool_size'', 0, minio_ha_pool_size)]"

text \<open>A configuration shows the environment: a required field holds its text, any other its value or its default.\<close>

definition conforms :: "parsers \<Rightarrow> environ \<Rightarrow> daemon_config \<Rightarrow> bool" where
  "conforms P env cfg \<longleftrightarrow>
     list_all (\<lambda>(f, get). setting env f = Some (get cfg)) required_table
     \<and> list_all (\<lambda>(f, d, get). optional env Some f d = Some (get cfg)) text_table
     \<and> list_all (\<lambda>(f, d, get). optional env (parse_int P) f d = Some (get cfg)) int_table
     \<and> optional env (parse_float P) ''rolling_minio_peer_rpc_timeout_s'' 180 = Some (rolling_minio_peer_rpc_timeout_s cfg)
     \<and> optional env (parse_bool P) ''auto_migrate_pulsar_on_host_failure'' False = Some (auto_migrate_pulsar_on_host_failure cfg)"

lemmas tables = required_table_def text_table_def int_table_def

lemmas loaders = load_identity_def load_ports_def load_watchdog_def load_failover_def load_jobs_def load_minio_def

lemma conforms_if_loaded: "load_settings P env = Some cfg \<Longrightarrow> conforms P env cfg"
  unfolding load_settings_def loaders bind_eq_Some_conv conforms_def tables
  by (clarsimp simp: default_config_def)

lemma loaded_if_conforms: "conforms P env cfg \<Longrightarrow> load_settings P env = Some cfg"
  unfolding conforms_def tables
  by (cases cfg) (simp add: load_settings_def loaders default_config_def)

lemma load_settings_iff: "load_settings P env = Some cfg \<longleftrightarrow> conforms P env cfg"
  using conforms_if_loaded loaded_if_conforms by blast

section \<open>When the settings load\<close>

text \<open>Each text, where there is one, can be read by the parser of its field.\<close>

definition readable :: "environ \<Rightarrow> (string \<Rightarrow> 'a option) \<Rightarrow> string \<Rightarrow> bool" where
  "readable env parse field \<longleftrightarrow> (case setting env field of None \<Rightarrow> True | Some v \<Rightarrow> parse v \<noteq> None)"

definition well_formed_env :: "parsers \<Rightarrow> environ \<Rightarrow> bool" where
  "well_formed_env P env \<longleftrightarrow>
     list_all (\<lambda>(f, get). setting env f \<noteq> None) required_table
     \<and> list_all (\<lambda>(f, d, get). readable env (parse_int P) f) int_table
     \<and> readable env (parse_float P) ''rolling_minio_peer_rpc_timeout_s''
     \<and> readable env (parse_bool P) ''auto_migrate_pulsar_on_host_failure''"

lemma optional_defined: "(\<exists>x. optional env parse field dflt = Some x) \<longleftrightarrow> readable env parse field"
  by (auto simp: optional_def readable_def split: option.split)

lemma readable_total [simp]: "readable env Some field"
  by (simp add: readable_def split: option.split)

lemma bind_defined: "(\<exists>y. Option.bind m f = Some y) \<longleftrightarrow> (\<exists>x. m = Some x \<and> (\<exists>y. f x = Some y))"
  by (cases m) auto

lemma settings_defined: "(\<exists>cfg. load_settings P env = Some cfg) \<longleftrightarrow> well_formed_env P env"
  unfolding load_settings_def loaders bind_defined well_formed_env_def tables
  by (simp add: optional_defined bind_defined conj_ac)

text \<open>No setting is ever empty.\<close>

lemma known_env_nonempty:
  "\<lbrakk>dict_get (known_env env d) k = Some v; \<And>k v. dict_get d k = Some v \<Longrightarrow> v \<noteq> []\<rbrakk> \<Longrightarrow> v \<noteq> []"
proof (induction env arbitrary: d)
  case (Cons kv env)
  obtain k' v' where kv: "kv = (k', v')" by force
  show ?case
    using Cons.prems by (intro Cons.IH [of "if v' = [] then d else dict_set (lower k') v' d"])
      (auto simp: kv split: if_splits)
qed simp

lemma setting_nonempty: "setting env f = Some v \<Longrightarrow> v \<noteq> []"
  unfolding setting_def by (erule known_env_nonempty) (simp add: dict_get_def)

lemma endpoint_list_nonempty:
  "etcd_endpoint_list cfg \<noteq> [] \<longleftrightarrow> (\<exists>e \<in> set (split_on (CHR '','') (etcd_endpoints cfg)). strip e \<noteq> [])"
  by (auto simp: etcd_endpoint_list_def filter_empty_conv)

lemma boot_iff:
  "boot P env w = Inr (cfg, s) \<longleftrightarrow>
     conforms P env cfg \<and> etcd_endpoint_list cfg \<noteq> []
     \<and> s = \<lparr>st_endpoints = etcd_endpoint_list cfg, st_idx = 0, st_trace = [], st_world = w\<rparr>"
  unfolding load_settings_iff [symmetric]
  by (auto simp: boot_def new_client_def split: option.splits sum.splits)

section \<open>Properties\<close>

text \<open>C23. A daemon starts exactly when its environment names the five required settings with non-empty values, every
  number and flag that is set and not empty can be read, and the endpoints hold an entry that is not blank;
  it then has the value of each setting, or its default where the variable is missing or empty. Its token is
  never empty: no request passes its token check without presenting a token.\<close>

theorem daemon_boots_exactly:
  "((\<exists>cfg s. boot P env w = Inr (cfg, s)) \<longleftrightarrow>
      well_formed_env P env
      \<and> (\<exists>v. setting env ''etcd_endpoints'' = Some v \<and> (\<exists>e \<in> set (split_on (CHR '','') v). strip e \<noteq> [])))
   \<and> (\<forall>cfg s. boot P env w = Inr (cfg, s) \<longrightarrow>
        conforms P env cfg \<and> st_endpoints s = etcd_endpoint_list cfg \<and> st_endpoints s \<noteq> []
        \<and> cluster_token cfg \<noteq> []
        \<and> (\<forall>h. require_token cfg (Some h) = Inr () \<longrightarrow> (\<exists>scheme tk. h = scheme @ CHR '' '' # tk \<and> strip tk \<noteq> [])))"
proof (intro conjI allI impI)
  have ep: "conforms P env cfg \<Longrightarrow> setting env ''etcd_endpoints'' = Some (etcd_endpoints cfg)" for cfg
    by (simp add: conforms_def tables)
  show "(\<exists>cfg s. boot P env w = Inr (cfg, s)) \<longleftrightarrow>
      well_formed_env P env
      \<and> (\<exists>v. setting env ''etcd_endpoints'' = Some v \<and> (\<exists>e \<in> set (split_on (CHR '','') v). strip e \<noteq> []))"
    unfolding boot_iff settings_defined [symmetric] load_settings_iff endpoint_list_nonempty
    using ep by fastforce
next
  fix cfg s assume "boot P env w = Inr (cfg, s)"
  then have b: "conforms P env cfg" "etcd_endpoint_list cfg \<noteq> []"
    "s = \<lparr>st_endpoints = etcd_endpoint_list cfg, st_idx = 0, st_trace = [], st_world = w\<rparr>"
    by (simp_all add: boot_iff)
  then show "conforms P env cfg" "st_endpoints s = etcd_endpoint_list cfg" "st_endpoints s \<noteq> []" by simp_all
  from b(1) have "setting env ''cluster_token'' = Some (cluster_token cfg)" by (simp add: conforms_def tables)
  then show tk: "cluster_token cfg \<noteq> []" by (rule setting_nonempty)
  fix h assume "require_token cfg (Some h) = Inr ()"
  then obtain scheme rest where "h = scheme @ CHR '' '' # rest" "strip rest = cluster_token cfg"
    by (auto simp: require_token_accepts)
  with tk show "\<exists>scheme tk. h = scheme @ CHR '' '' # tk \<and> strip tk \<noteq> []" by metis
qed

text \<open>A container's environment, with one empty setting and one in lower case, and a reader of decimal numbers.\<close>

definition decimal_parsers :: parsers where
  "decimal_parsers = \<lparr>parse_int = (\<lambda>s. if s \<noteq> [] \<and> list_all is_digit s then Some (int (nat_of_digits s)) else None),
     parse_float = (\<lambda>s. if s \<noteq> [] \<and> list_all is_digit s then Some (of_nat (nat_of_digits s)) else None),
     parse_bool = (\<lambda>s. if s = ''true'' then Some True else if s = ''false'' then Some False else None)\<rparr>"

definition container_env :: environ where
  "container_env = [(''PATH'', ''/bin''), (''MILVUS_ONPREM_CLUSTER_NAME'', ''c''), (''MILVUS_ONPREM_NODE_NAME'', ''node-1''),
     (''MILVUS_ONPREM_LOCAL_IP'', ''10.0.0.1''), (''MILVUS_ONPREM_CLUSTER_TOKEN'', ''secret''),
     (''MILVUS_ONPREM_ETCD_ENDPOINTS'', '' http://10.0.0.1:2379 , ''), (''MILVUS_ONPREM_MINIO_HA_POOL_SIZE'', []),
     (''milvus_onprem_listen_port'', ''8080'')]"

lemma container_settings:
  "setting container_env f = dict_get
     [(''path'', ''/bin''), (''milvus_onprem_cluster_name'', ''c''), (''milvus_onprem_node_name'', ''node-1''),
      (''milvus_onprem_local_ip'', ''10.0.0.1''), (''milvus_onprem_cluster_token'', ''secret''),
      (''milvus_onprem_etcd_endpoints'', '' http://10.0.0.1:2379 , ''), (''milvus_onprem_listen_port'', ''8080'')]
     (''milvus_onprem_'' @ f)"
proof -
  have "known_env container_env [] =
     [(''path'', ''/bin''), (''milvus_onprem_cluster_name'', ''c''), (''milvus_onprem_node_name'', ''node-1''),
      (''milvus_onprem_local_ip'', ''10.0.0.1''), (''milvus_onprem_cluster_token'', ''secret''),
      (''milvus_onprem_etcd_endpoints'', '' http://10.0.0.1:2379 , ''), (''milvus_onprem_listen_port'', ''8080'')]"
    by code_simp
  moreover have "lower ''MILVUS_ONPREM_'' = ''milvus_onprem_''" by code_simp
  ultimately show ?thesis by (simp add: setting_def)
qed

theorem daemon_boots_exactly_witness:
  "\<exists>cfg s. boot decimal_parsers container_env () = Inr (cfg, s) \<and> cluster_token cfg \<noteq> []
     \<and> st_endpoints s = [''http://10.0.0.1:2379''] \<and> listen_port cfg = 8080 \<and> minio_ha_pool_size cfg = 0"
proof -
  have p: "parse_int decimal_parsers ''8080'' = Some 8080" by code_simp
  have w: "well_formed_env decimal_parsers container_env"
    by (simp add: well_formed_env_def tables readable_def container_settings dict_get_def p)
  have e: "setting container_env ''etcd_endpoints'' = Some '' http://10.0.0.1:2379 , ''"
    by (simp add: container_settings dict_get_def)
  have "\<exists>x \<in> set (split_on (CHR '','') '' http://10.0.0.1:2379 , ''). strip x \<noteq> []" by code_simp
  with w e obtain cfg s where b: "boot decimal_parsers container_env () = Inr (cfg, s)"
    using daemon_boots_exactly [of decimal_parsers container_env "()"] by blast
  then have c: "conforms decimal_parsers container_env cfg" "cluster_token cfg \<noteq> []" "st_endpoints s = etcd_endpoint_list cfg"
    using daemon_boots_exactly [of decimal_parsers container_env "()"] by blast+
  then have "etcd_endpoints cfg = '' http://10.0.0.1:2379 , ''" using e by (simp add: conforms_def tables)
  moreover have "etcd_endpoint_list (default_config [] [] [] [] '' http://10.0.0.1:2379 , '') = [''http://10.0.0.1:2379'']" by code_simp
  ultimately have "st_endpoints s = [''http://10.0.0.1:2379'']" using c(3) by (simp add: etcd_endpoint_list_def default_config_def)
  moreover have "optional container_env (parse_int decimal_parsers) ''listen_port'' 19500 = Some 8080"
    "optional container_env (parse_int decimal_parsers) ''minio_ha_pool_size'' 0 = Some 0"
    by (simp_all add: optional_def container_settings dict_get_def p)
  then have "listen_port cfg = 8080" "minio_ha_pool_size cfg = 0" using c(1) by (simp_all add: conforms_def tables)
  ultimately show ?thesis using b c(2) by blast
qed

end
