(* ===== verification/Cluster_Env.thy ===== *)
theory Cluster_Env
  imports Daemon_IO
begin

text \<open>
  The shell-style settings file \<open>cluster.env\<close>, as the daemon reads and edits it:
  \<open>_read_cluster_env\<close> (\<open>joining.py\<close>), \<open>_read_cluster_env_value\<close> and \<open>_is_pulsar_deploy\<close>
  (\<open>workers/remove_node.py\<close>), \<open>_read_kv\<close> (\<open>workers/version_upgrade.py\<close>,
  \<open>workers/rotate_token.py\<close>), the reader of \<open>/admin/get-pulsar-host\<close> (\<open>api.py\<close>), the tag reader
  of \<open>_register_cluster_version\<close> (\<open>main.py\<close>) and the editor \<open>_upsert_kv\<close> (\<open>handlers.py\<close>).
\<close>

section \<open>Files in text mode\<close>

abbreviation nl :: char where "nl \<equiv> CHR 0x0A"

text \<open>Universal newlines: a carriage return, alone or before a newline, reads as a newline.\<close>

fun universal_nl :: "string \<Rightarrow> string" where
  "universal_nl [] = []"
| "universal_nl [c] = (if c = CHR 0x0D then [nl] else [c])"
| "universal_nl (c # d # cs) =
     (if c = CHR 0x0D then nl # universal_nl (if d = nl then cs else d # cs)
      else c # universal_nl (d # cs))"

text \<open>The lines of an open file, each with its newline (\<open>readlines\<close>, \<open>for line in f\<close>).\<close>

fun readlines :: "string \<Rightarrow> string list" where
  "readlines [] = []"
| "readlines (c # cs) =
     (if c = nl then [nl] # readlines cs
      else (case readlines cs of [] \<Rightarrow> [[c]] | l # ls \<Rightarrow> (c # l) # ls))"

definition is_linesep :: "char \<Rightarrow> bool" where
  "is_linesep c \<longleftrightarrow> (let n = ord_chr c in (10 \<le> n \<and> n \<le> 13) \<or> (28 \<le> n \<and> n \<le> 30) \<or> n = 133)"

text \<open>\<open>str.splitlines()\<close> on a text without carriage returns.\<close>

fun splitlines :: "string \<Rightarrow> string list" where
  "splitlines [] = []"
| "splitlines (c # cs) =
     (if is_linesep c then [] # splitlines cs
      else (case splitlines cs of [] \<Rightarrow> [[c]] | l # ls \<Rightarrow> (c # l) # ls))"

section \<open>Reading\<close>

definition clean_value :: "string \<Rightarrow> string" where
  "clean_value v = strip_char (CHR 0x27) (strip_char (CHR 0x22) (strip v))"

text \<open>The line parser all readers share: the key and value of a \<open>KEY=VALUE\<close> line.\<close>

definition env_line :: "string \<Rightarrow> (string \<times> string) option" where
  "env_line line =
     (let l = strip line in
      if l = [] \<or> startswith l ''#'' \<or> CHR ''='' \<notin> set l then None
      else (case partition_at (CHR ''='') l of (k, v) \<Rightarrow> Some (strip k, clean_value v)))"

fun read_dict :: "string list \<Rightarrow> string dict \<Rightarrow> string dict" where
  "read_dict [] out = out"
| "read_dict (line # ls) out =
     (case env_line line of
        Some (k, v) \<Rightarrow> read_dict ls (if k \<noteq> [] then dict_set k v out else out)
      | None \<Rightarrow> read_dict ls out)"

definition read_cluster_env :: "'w sys \<Rightarrow> ('w, string dict) io" where
  "read_cluster_env sys =
     bnd (read_file sys ''/repo/cluster.env'') (\<lambda>c.
       case c of
         None \<Rightarrow> raise (JoinError ''daemon cannot read /repo/cluster.env'')
       | Some text \<Rightarrow> ret (read_dict (splitlines (universal_nl text)) []))"

fun first_value :: "string \<Rightarrow> string list \<Rightarrow> string option" where
  "first_value key [] = None"
| "first_value key (line # ls) =
     (case env_line line of
        Some (k, v) \<Rightarrow> if k = key then Some v else first_value key ls
      | None \<Rightarrow> first_value key ls)"

definition text_value :: "string \<Rightarrow> string \<Rightarrow> string option" where
  "text_value key text = first_value key (readlines (universal_nl text))"

definition read_cluster_env_value :: "'w sys \<Rightarrow> string \<Rightarrow> string \<Rightarrow> ('w, string) io" where
  "read_cluster_env_value sys key dflt =
     bnd (read_file sys ''/repo/cluster.env'') (\<lambda>c.
       case c of
         Some text \<Rightarrow> ret (case text_value key text of Some v \<Rightarrow> v | None \<Rightarrow> dflt)
       | None \<Rightarrow>
           bnd (read_file sys ''/etc/milvus-onprem/cluster.env'') (\<lambda>c2.
             case c2 of
               Some text \<Rightarrow> ret (case text_value key text of Some v \<Rightarrow> v | None \<Rightarrow> dflt)
             | None \<Rightarrow> ret dflt))"

definition read_kv :: "'w sys \<Rightarrow> string \<Rightarrow> ('w, string) io" where
  "read_kv sys key =
     bnd (read_file sys ''/repo/cluster.env'') (\<lambda>c.
       ret (case c of Some text \<Rightarrow> or_empty (text_value key text) | None \<Rightarrow> []))"

definition get_admin_pulsar_host :: "'w sys \<Rightarrow> ('w, string) io" where
  "get_admin_pulsar_host sys =
     bnd (read_file sys ''/repo/cluster.env'') (\<lambda>c.
       ret (case c of
              Some text \<Rightarrow> (case text_value ''PULSAR_HOST'' text of Some v \<Rightarrow> v | None \<Rightarrow> ''node-1'')
            | None \<Rightarrow> ''node-1''))"

definition is_pulsar_deploy :: "'w sys \<Rightarrow> ('w, bool) io" where
  "is_pulsar_deploy sys =
     bnd (read_cluster_env_value sys ''MQ_TYPE'' []) (\<lambda>mq.
       let explicit = lower (strip mq) in
       if explicit \<noteq> [] then ret (explicit = ''pulsar'')
       else bnd (read_cluster_env_value sys ''MILVUS_IMAGE_TAG'' []) (\<lambda>t.
         let parts = split_on (CHR ''.'') (dropWhile (\<lambda>c. c = CHR ''v'') t)
         in ret (2 \<le> length parts \<and> parts ! 0 = ''2'' \<and> parts ! 1 = ''5'')))"

section \<open>Editing\<close>

fun upsert_lines :: "string \<Rightarrow> string \<Rightarrow> string list \<Rightarrow> string list" where
  "upsert_lines key value [] = [key @ ''='' @ value @ [nl]]"
| "upsert_lines key value (line # ls) =
     (if startswith line (key @ ''='') then (key @ ''='' @ value @ [nl]) # ls
      else line # upsert_lines key value ls)"

definition upsert_text :: "string \<Rightarrow> string \<Rightarrow> string \<Rightarrow> string" where
  "upsert_text key value text = concat (upsert_lines key value (readlines (universal_nl text)))"

definition upsert_kv :: "'w sys \<Rightarrow> string \<Rightarrow> string \<Rightarrow> string \<Rightarrow> ('w, unit) io" where
  "upsert_kv sys path key value =
     bnd (read_file sys path) (\<lambda>c.
       case c of
         None \<Rightarrow> raise FileNotFoundError
       | Some text \<Rightarrow> write_file sys path (upsert_text key value text))"


section \<open>Properties\<close>

text \<open>The keys the daemon edits: no blank, no \<open>=\<close>, not a comment.\<close>

definition key_ok :: "string \<Rightarrow> bool" where
  "key_ok key \<longleftrightarrow> key \<noteq> [] \<and> (\<forall>c \<in> set key. \<not> is_space c \<and> c \<noteq> CHR ''='' \<and> c \<noteq> CHR ''#'')"

definition one_line :: "string \<Rightarrow> bool" where
  "one_line v \<longleftrightarrow> nl \<notin> set v \<and> CHR 0x0D \<notin> set v"

lemma is_space_simps [simp]:
  "is_space nl" "is_space (CHR 0x0D)" "\<not> is_space (CHR ''='')" "\<not> is_space (CHR ''#'')"
  by (simp_all add: is_space_def ord_chr_def)

lemma strip_key_line:
  assumes "key_ok key"
  shows "strip (key @ CHR ''='' # r) = key @ CHR ''='' # rstrip_by is_space r"
proof -
  obtain c k where k: "key = c # k" "\<not> is_space c"
    using assms by (cases key) (auto simp: key_ok_def)
  then show ?thesis
    using rstrip_by_stop [of is_space "CHR ''=''" key r] by (simp add: strip_def strip_by_def)
qed

text \<open>A line that starts with \<open>KEY=\<close> parses to that key.\<close>

lemma env_line_key:
  assumes "key_ok key"
  shows "env_line (key @ CHR ''='' # r) = Some (key, clean_value r)"
proof -
  have "strip key = key"
    using assms by (simp add: strip_def strip_by_id key_ok_def)
  moreover have "CHR ''='' \<notin> set key" using assms by (auto simp: key_ok_def)
  moreover have "\<not> startswith (key @ t) ''#''" for t
    using assms by (cases key) (auto simp: key_ok_def startswith_def)
  ultimately show ?thesis
    using assms by (simp add: env_line_def strip_key_line partition_at_append clean_value_def)
qed

lemma readlines_line: "nl \<notin> set b \<Longrightarrow> readlines (b @ nl # r) = (b @ [nl]) # readlines r"
  by (induction b) auto

lemma concat_readlines [simp]: "concat (readlines t) = t"
  by (induction t) (auto split: list.splits)

lemma readlines_concat:
  "\<forall>l \<in> set ls. \<exists>b. l = b @ [nl] \<and> nl \<notin> set b \<Longrightarrow> readlines (concat ls) = ls"
  by (induction ls) (auto simp: readlines_line)

lemma readlines_complete:
  "t = [] \<or> last t = nl \<Longrightarrow> l \<in> set (readlines t) \<Longrightarrow> \<exists>b. l = b @ [nl] \<and> nl \<notin> set b"
proof (induction t arbitrary: l)
  case Nil
  then show ?case by simp
next
  case (Cons c t)
  show ?case
  proof (cases "c = nl")
    case True
    then show ?thesis using Cons by (cases t) auto
  next
    case False
    then have t: "t \<noteq> []" "last t = nl" using Cons.prems(1) by (auto split: if_splits)
    then obtain l0 ls where r: "readlines t = l0 # ls"
      by (cases "readlines t") (use concat_readlines [of t] in auto)
    have *: "\<exists>b. l = b @ [nl] \<and> nl \<notin> set b" if "l \<in> set (l0 # ls)" for l
      using Cons.IH t that r by auto
    show ?thesis
    proof (cases "l = c # l0")
      case True
      with * [of l0] False show ?thesis by (auto intro: exI [of _ "c # b" for b])
    next
      case False
      then show ?thesis using Cons.prems(2) \<open>c \<noteq> nl\<close> r * by auto
    qed
  qed
qed

lemma universal_nl_no_cr [simp]: "CHR 0x0D \<notin> set (universal_nl t)"
  by (induction t rule: universal_nl.induct) auto

lemma universal_nl_id: "CHR 0x0D \<notin> set t \<Longrightarrow> universal_nl t = t"
  by (induction t rule: universal_nl.induct) auto

lemma set_upsert_lines:
  "c \<in> set (concat (upsert_lines key value ls)) \<Longrightarrow>
     c \<in> set (concat ls) \<or> c \<in> set key \<or> c \<in> set value \<or> c = CHR ''='' \<or> c = nl"
  by (induction ls) (auto split: if_splits)

lemma upsert_lines_all:
  "\<forall>l \<in> set ls. P l \<Longrightarrow> P (key @ ''='' @ value @ [nl]) \<Longrightarrow> \<forall>l \<in> set (upsert_lines key value ls). P l"
  by (induction ls) auto

text \<open>When the file ends in a newline, reading the edited file yields the edited lines.\<close>

lemma readlines_upsert:
  assumes "key_ok key" "one_line value" "universal_nl text = [] \<or> last (universal_nl text) = nl"
  shows "readlines (universal_nl (upsert_text key value text))
           = upsert_lines key value (readlines (universal_nl text))"
proof -
  let ?ls = "readlines (universal_nl text)"
  have key: "nl \<notin> set key" "CHR 0x0D \<notin> set key"
    using assms(1) is_space_simps(1,2) unfolding key_ok_def by blast+
  have val: "nl \<notin> set value" "CHR 0x0D \<notin> set value" using assms(2) by (auto simp: one_line_def)
  have "\<forall>l \<in> set ?ls. \<exists>b. l = b @ [nl] \<and> nl \<notin> set b"
    using readlines_complete [OF assms(3)] by blast
  moreover have "\<exists>b. key @ ''='' @ value @ [nl] = b @ [nl] \<and> nl \<notin> set b"
    using key val by (intro exI [of _ "key @ CHR ''='' # value"]) simp
  ultimately have "\<forall>l \<in> set (upsert_lines key value ?ls). \<exists>b. l = b @ [nl] \<and> nl \<notin> set b"
    by (rule upsert_lines_all)
  then have rl: "readlines (concat (upsert_lines key value ?ls)) = upsert_lines key value ?ls"
    by (rule readlines_concat)
  have "CHR 0x0D \<notin> set (upsert_text key value text)"
    using set_upsert_lines [of "CHR 0x0D" key "value" ?ls] key val by (auto simp: upsert_text_def)
  then show ?thesis using rl by (simp add: universal_nl_id upsert_text_def)
qed


lemma first_value_upsert:
  assumes "key_ok key"
    and "\<And>l v. l \<in> set ls \<Longrightarrow> env_line l = Some (key, v) \<Longrightarrow> startswith l (key @ ''='')"
  shows "first_value key (upsert_lines key value ls) = Some (clean_value value)"
proof -
  have new: "env_line (key @ CHR ''='' # value @ [nl]) = Some (key, clean_value value)"
    using env_line_key [OF assms(1), of "value @ [nl]"] strip_rstrip [of "value @ [nl]"]
    by (simp add: clean_value_def)
  show ?thesis using assms(2)
    by (induction ls) (auto simp: new split: option.split)
qed

text \<open>The edit keeps every other key.\<close>

lemma first_value_upsert_other:
  assumes "key_ok key" "k \<noteq> key"
  shows "first_value k (upsert_lines key value ls) = first_value k ls"
proof -
  have "env_line l = Some (key, clean_value (drop (length key + 1) l))"
    if "startswith l (key @ ''='')" for l
    using that env_line_key [OF assms(1)] by (auto simp: startswith_def prefix_def)
  then show ?thesis
    using assms env_line_key [OF assms(1), of "value @ [nl]"]
    by (induction ls) (auto split: option.split)
qed


definition sample_env :: string where
  "sample_env = ''# cluster'' @ [nl] @ ''PULSAR_HOST=node-1'' @ [nl] @ ''MQ_TYPE=pulsar'' @ [nl]"


text \<open>Without that final newline the new setting is glued to the last line of the file and is lost to
  every reader.\<close>

theorem upsert_without_newline:
  "text_value ''PULSAR_HOST'' (upsert_text ''PULSAR_HOST'' ''node-2'' ''MQ_TYPE=pulsar'') = None
   \<and> text_value ''MQ_TYPE'' (upsert_text ''PULSAR_HOST'' ''node-2'' ''MQ_TYPE=pulsar'')
       = Some ''pulsarPULSAR_HOST=node-2''"
  by code_simp

end
