(* ===== verification/Env_Edit.thy ===== *)
theory Env_Edit
  imports Cluster_Env
begin

text \<open>
  \<open>_upsert_kv\<close> of \<open>src/daemon/handlers.py\<close> one system call at a time, and several editors of the same
  \<open>cluster.env\<close> in one daemon. The edits run in threads (\<open>asyncio.to_thread\<close>), so the calls of two edits
  interleave unless the handlers' lock keeps their coroutines apart: a topology event and
  \<open>/recreate-minio-self\<close> take it, \<open>/admin/sync-pulsar-host\<close> and \<open>/rotate-self\<close> do not.

  A disk has names and inodes; an open file is its inode. Opening and reading the old file is one step, and
  so is the write, which Python's buffer sends at the close for a file of less than eight kilobytes.
\<close>

section \<open>Files\<close>

record inode =
  in_text :: string
  in_mode :: nat
  in_uid :: nat
  in_gid :: nat

record disk =
  dk_names :: "string \<Rightarrow> nat option"
  dk_inodes :: "nat \<Rightarrow> inode"
  dk_fresh :: nat

definition view :: "disk \<Rightarrow> string \<Rightarrow> inode option" where
  "view d p = map_option (dk_inodes d) (dk_names d p)"

definition set_inode :: "nat \<Rightarrow> inode \<Rightarrow> disk \<Rightarrow> disk" where
  "set_inode i x d = d\<lparr>dk_inodes := (dk_inodes d)(i := x)\<rparr>"

definition link :: "string \<Rightarrow> nat option \<Rightarrow> disk \<Rightarrow> disk" where
  "link p i d = d\<lparr>dk_names := (dk_names d)(p := i)\<rparr>"

text \<open>The daemon's process: its id, the owner and mode of a file it creates, and whether it may change owners.\<close>

record process =
  pr_pid :: nat
  pr_uid :: nat
  pr_gid :: nat
  pr_create_mode :: nat
  pr_may_chown :: bool

definition tmp_path :: "process \<Rightarrow> string \<Rightarrow> string" where
  "tmp_path pr path = path @ ''.tmp.'' @ str_of_nat (pr_pid pr)"

lemma tmp_path_neq [simp]: "tmp_path pr path \<noteq> path" "path \<noteq> tmp_path pr path"
  by (simp_all add: tmp_path_def)

section \<open>One edit\<close>

text \<open>Where an edit stands: the call it makes next, with what it knows (\<open>st\<close>, the new text, the open file).\<close>

datatype stage =
    Stat
  | Read inode
  | Open inode string
  | Write inode string nat
  | Chmod inode
  | Chown inode
  | Replace
  | Done
  | Failed exn

fun edit_step :: "process \<Rightarrow> string \<Rightarrow> string \<times> string \<Rightarrow> disk \<times> stage \<Rightarrow> disk \<times> stage" where
  "edit_step pr path kv (d, Stat) =
     (case view d path of None \<Rightarrow> (d, Failed FileNotFoundError) | Some st \<Rightarrow> (d, Read st))"
| "edit_step pr path kv (d, Read st) =
     (case view d path of
        None \<Rightarrow> (d, Failed FileNotFoundError)
      | Some x \<Rightarrow> (d, Open st (upsert_text (fst kv) (snd kv) (in_text x))))"
| "edit_step pr path kv (d, Open st text) =
     (case dk_names d (tmp_path pr path) of
        Some i \<Rightarrow> (set_inode i ((dk_inodes d i)\<lparr>in_text := []\<rparr>) d, Write st text i)
      | None \<Rightarrow>
          (let i = dk_fresh d;
               x = \<lparr>in_text = [], in_mode = pr_create_mode pr, in_uid = pr_uid pr, in_gid = pr_gid pr\<rparr>
           in (set_inode i x (link (tmp_path pr path) (Some i) (d\<lparr>dk_fresh := Suc i\<rparr>)), Write st text i)))"
| "edit_step pr path kv (d, Write st text i) =
     (let x = dk_inodes d i
      in (set_inode i (x\<lparr>in_text := text @ drop (length text) (in_text x)\<rparr>) d, Chmod st))"
| "edit_step pr path kv (d, Chmod st) =
     (case dk_names d (tmp_path pr path) of
        None \<Rightarrow> (d, Failed FileNotFoundError)
      | Some i \<Rightarrow> (set_inode i ((dk_inodes d i)\<lparr>in_mode := take_bit 9 (in_mode st)\<rparr>) d, Chown st))"
| "edit_step pr path kv (d, Chown st) =
     (case dk_names d (tmp_path pr path) of
        None \<Rightarrow> (d, Failed FileNotFoundError)
      | Some i \<Rightarrow>
          (if pr_may_chown pr then set_inode i ((dk_inodes d i)\<lparr>in_uid := in_uid st, in_gid := in_gid st\<rparr>) d else d, Replace))"
| "edit_step pr path kv (d, Replace) =
     (case dk_names d (tmp_path pr path) of
        None \<Rightarrow> (d, Failed FileNotFoundError)
      | Some i \<Rightarrow> (link (tmp_path pr path) None (link path (Some i) d), Done))"
| "edit_step pr path kv (d, Done) = (d, Done)"
| "edit_step pr path kv (d, Failed e) = (d, Failed e)"

section \<open>What a lone edit leaves\<close>

text \<open>Every name is known, and no two names share a file.\<close>

definition disk_ok :: "disk \<Rightarrow> bool" where
  "disk_ok d \<longleftrightarrow> (\<forall>p i. dk_names d p = Some i \<longrightarrow> i < dk_fresh d)
     \<and> (\<forall>p q i. dk_names d p = Some i \<and> dk_names d q = Some i \<longrightarrow> p = q)"

definition is_edit :: "process \<Rightarrow> string \<times> string \<Rightarrow> inode \<Rightarrow> inode \<Rightarrow> bool" where
  "is_edit pr kv old new \<longleftrightarrow> in_text new = upsert_text (fst kv) (snd kv) (in_text old)
     \<and> in_mode new = take_bit 9 (in_mode old)
     \<and> (pr_may_chown pr \<longrightarrow> in_uid new = in_uid old \<and> in_gid new = in_gid old)"

text \<open>The disk of an edit under way: only the temporary name has changed, and its file belongs to no other name.\<close>

definition staged :: "process \<Rightarrow> string \<Rightarrow> disk \<Rightarrow> disk \<Rightarrow> nat \<Rightarrow> inode \<Rightarrow> bool" where
  "staged pr path db d i x \<longleftrightarrow> (\<forall>p. p \<noteq> tmp_path pr path \<longrightarrow> dk_names db p \<noteq> Some i)
     \<and> dk_names d = (dk_names db)(tmp_path pr path \<mapsto> i) \<and> dk_inodes d = (dk_inodes db)(i := x)
     \<and> i < dk_fresh d \<and> dk_fresh db \<le> dk_fresh d"

definition landed :: "process \<Rightarrow> string \<Rightarrow> disk \<Rightarrow> disk \<Rightarrow> nat \<Rightarrow> inode \<Rightarrow> bool" where
  "landed pr path db d i x \<longleftrightarrow> (\<forall>p. p \<noteq> tmp_path pr path \<longrightarrow> dk_names db p \<noteq> Some i)
     \<and> dk_names d = (dk_names db)(path \<mapsto> i, tmp_path pr path := None) \<and> dk_inodes d = (dk_inodes db)(i := x)
     \<and> i < dk_fresh d \<and> dk_fresh db \<le> dk_fresh d"

fun stage_ok :: "process \<Rightarrow> string \<Rightarrow> string \<times> string \<Rightarrow> inode \<Rightarrow> disk \<Rightarrow> disk \<Rightarrow> stage \<Rightarrow> bool" where
  "stage_ok pr path kv old db d Stat \<longleftrightarrow> d = db"
| "stage_ok pr path kv old db d (Read st) \<longleftrightarrow> d = db \<and> st = old"
| "stage_ok pr path kv old db d (Open st text) \<longleftrightarrow> d = db \<and> st = old \<and> text = upsert_text (fst kv) (snd kv) (in_text old)"
| "stage_ok pr path kv old db d (Write st text i) \<longleftrightarrow> st = old \<and> text = upsert_text (fst kv) (snd kv) (in_text old)
     \<and> (\<exists>x. in_text x = [] \<and> staged pr path db d i x)"
| "stage_ok pr path kv old db d (Chmod st) \<longleftrightarrow> st = old
     \<and> (\<exists>i x. in_text x = upsert_text (fst kv) (snd kv) (in_text old) \<and> staged pr path db d i x)"
| "stage_ok pr path kv old db d (Chown st) \<longleftrightarrow> st = old
     \<and> (\<exists>i x. in_text x = upsert_text (fst kv) (snd kv) (in_text old) \<and> in_mode x = take_bit 9 (in_mode old)
            \<and> staged pr path db d i x)"
| "stage_ok pr path kv old db d Replace \<longleftrightarrow> (\<exists>i x. is_edit pr kv old x \<and> staged pr path db d i x)"
| "stage_ok pr path kv old db d Done \<longleftrightarrow> (\<exists>i x. is_edit pr kv old x \<and> landed pr path db d i x)"
| "stage_ok pr path kv old db d (Failed e) \<longleftrightarrow> False"

definition editing :: "process \<Rightarrow> string \<Rightarrow> string \<times> string \<Rightarrow> disk \<Rightarrow> disk \<times> stage \<Rightarrow> bool" where
  "editing pr path kv db ds \<longleftrightarrow> disk_ok db \<and> (\<exists>old. view db path = Some old \<and> stage_ok pr path kv old db (fst ds) (snd ds))"

lemma staged_file: "staged pr path db d i x \<Longrightarrow> dk_names d (tmp_path pr path) = Some i \<and> dk_inodes d i = x"
  by (simp add: staged_def)

lemma staged_set: "staged pr path db d i x \<Longrightarrow> staged pr path db (set_inode i y d) i y"
  by (simp add: staged_def set_inode_def)

lemma staged_open:
  assumes "disk_ok db" and "dk_names db (tmp_path pr path) = Some i" and "in_text y = []"
  shows "\<exists>x. in_text x = [] \<and> staged pr path db (set_inode i y db) i x"
  using assms by (intro exI [of _ y]) (auto simp: staged_def set_inode_def disk_ok_def)

lemma staged_create:
  assumes "disk_ok db" and "in_text y = []"
  shows "\<exists>x. in_text x = [] \<and> staged pr path db
    (set_inode (dk_fresh db) y (link (tmp_path pr path) (Some (dk_fresh db)) (db\<lparr>dk_fresh := Suc (dk_fresh db)\<rparr>))) (dk_fresh db) x"
  using assms by (intro exI [of _ y]) (auto simp: staged_def set_inode_def link_def disk_ok_def)

lemma landed_replace:
  "staged pr path db d i x \<Longrightarrow> landed pr path db (link (tmp_path pr path) None (link path (Some i) d)) i x"
  by (auto simp: staged_def landed_def link_def fun_eq_iff)

lemma stage_step:
  assumes "disk_ok db" and "view db path = Some old" and "stage_ok pr path kv old db d sg"
    and "edit_step pr path kv (d, sg) = (d', sg')"
  shows "stage_ok pr path kv old db d' sg'"
proof (cases sg)
  case (Open st c)
  with assms show ?thesis
    by (cases "dk_names db (tmp_path pr path)") (auto simp: Let_def intro!: staged_open staged_create)
next
  case (Write st c i)
  with assms(3) obtain x where x: "in_text x = []" "staged pr path db d i x" and s: "st = old" "c = upsert_text (fst kv) (snd kv) (in_text old)"
    by auto
  from staged_set [OF x(2), of "x\<lparr>in_text := c\<rparr>"] x assms(4) s Write show ?thesis
    by (auto simp: Let_def staged_file [OF x(2)] intro!: exI [of _ i] exI [of _ "x\<lparr>in_text := c\<rparr>"])
next
  case (Chmod st)
  with assms(3) obtain i x where x: "in_text x = upsert_text (fst kv) (snd kv) (in_text old)" "staged pr path db d i x" "st = old" by auto
  from staged_set [OF x(2), of "x\<lparr>in_mode := take_bit 9 (in_mode st)\<rparr>"] x assms(4) Chmod show ?thesis
    by (auto simp: staged_file [OF x(2)] intro!: exI [of _ i] exI [of _ "x\<lparr>in_mode := take_bit 9 (in_mode st)\<rparr>"])
next
  case (Chown st)
  with assms(3) obtain i x where x: "in_text x = upsert_text (fst kv) (snd kv) (in_text old)" "in_mode x = take_bit 9 (in_mode old)"
    "staged pr path db d i x" "st = old" by auto
  let ?y = "if pr_may_chown pr then x\<lparr>in_uid := in_uid st, in_gid := in_gid st\<rparr> else x"
  from staged_set [OF x(3), of ?y] x assms(4) Chown show ?thesis
    by (auto simp: staged_file [OF x(3)] is_edit_def split: if_splits intro!: exI [of _ i] exI [of _ ?y])
next
  case Replace
  with assms(3) obtain i x where x: "is_edit pr kv old x" "staged pr path db d i x" by auto
  from landed_replace [OF x(2)] x assms(4) Replace show ?thesis by (auto simp: staged_file [OF x(2)])
qed (use assms in auto)

lemma editing_step:
  "editing pr path kv db ds \<Longrightarrow> editing pr path kv db (edit_step pr path kv ds)"
  unfolding editing_def by (cases ds; cases "edit_step pr path kv ds") (auto intro: stage_step)

lemma editing_start: "disk_ok db \<Longrightarrow> view db path = Some old \<Longrightarrow> editing pr path kv db (db, Stat)"
  by (simp add: editing_def)

lemma editing_run: "editing pr path kv db ds \<Longrightarrow> editing pr path kv db ((edit_step pr path kv ^^ n) ds)"
  by (induction n) (auto intro: editing_step)

text \<open>What the rest of the system sees of an edit under way: the old file or, at the end, the new one.\<close>

definition edit_outcome :: "process \<Rightarrow> string \<Rightarrow> string \<times> string \<Rightarrow> disk \<Rightarrow> disk \<Rightarrow> bool \<Rightarrow> bool" where
  "edit_outcome pr path kv db d done \<longleftrightarrow> disk_ok d
     \<and> (\<forall>p. p \<noteq> path \<and> p \<noteq> tmp_path pr path \<longrightarrow> view d p = view db p)
     \<and> (if done then view d (tmp_path pr path) = None \<and> (\<exists>old new. view db path = Some old \<and> view d path = Some new \<and> is_edit pr kv old new)
        else view d path = view db path)"

lemma outcome_of_editing:
  assumes "editing pr path kv db (d, sg)"
  shows "edit_outcome pr path kv db d (sg = Done)"
proof -
  from assms obtain old where db: "disk_ok db" "view db path = Some old" and ok: "stage_ok pr path kv old db d sg"
    by (auto simp: editing_def)
  have st: "edit_outcome pr path kv db d False" if "staged pr path db d i x" for i x
    using that db(1) unfolding edit_outcome_def staged_def disk_ok_def view_def
    by (auto simp: map_option_case split: option.split if_splits dest: less_le_trans)
  have ld: "edit_outcome pr path kv db d True" if "landed pr path db d i x" "is_edit pr kv old x" for i x
    using that db unfolding edit_outcome_def landed_def disk_ok_def view_def
    by (auto simp: map_option_case split: option.split if_splits dest: less_le_trans)
  have id: "edit_outcome pr path kv db db False" using db by (simp add: edit_outcome_def)
  show ?thesis using ok st ld id by (cases sg) auto
qed

fun calls_made :: "stage \<Rightarrow> nat" where
  "calls_made Stat = 0"
| "calls_made (Read _) = 1"
| "calls_made (Open _ _) = 2"
| "calls_made (Write _ _ _) = 3"
| "calls_made (Chmod _) = 4"
| "calls_made (Chown _) = 5"
| "calls_made Replace = 6"
| "calls_made Done = 7"
| "calls_made (Failed _) = 0"

lemma calls_made_Done: "calls_made sg = 7 \<longleftrightarrow> sg = Done"
  by (cases sg) simp_all

lemma calls_made_step:
  assumes "editing pr path kv db ds"
  shows "calls_made (snd (edit_step pr path kv ds)) = min 7 (Suc (calls_made (snd ds)))"
proof -
  from assms obtain old where db: "view db path = Some old" and ok: "stage_ok pr path kv old db (fst ds) (snd ds)"
    by (auto simp: editing_def)
  show ?thesis using ok db
    by (cases ds; cases "snd ds") (auto simp: Let_def staged_file split: option.split)
qed

lemma calls_made_run:
  "editing pr path kv db (db, Stat) \<Longrightarrow> calls_made (snd ((edit_step pr path kv ^^ n) (db, Stat))) = min 7 n"
  by (induction n) (simp_all add: calls_made_step [OF editing_run])

text \<open>C22. An edit that is cut off by a crash leaves no half-written file: with no other editor at work, after any number of its
  system calls \<open>cluster.env\<close> is the old file, untouched, and after the seventh it is the edited text with the
  mode and (for a daemon that may change owners) the owner of the old file; other files never change. A
  temporary file left by an earlier crash does no harm, since the disk that a crash leaves is again one on
  which this holds.\<close>

theorem edit_survives_crash:
  assumes "disk_ok d" and "view d path = Some old"
  shows "case (edit_step pr path kv ^^ n) (d, Stat) of (d', sg) \<Rightarrow>
     disk_ok d' \<and> (\<forall>p. p \<noteq> path \<and> p \<noteq> tmp_path pr path \<longrightarrow> view d' p = view d p)
     \<and> (if n < 7 then view d' path = Some old
        else sg = Done \<and> view d' (tmp_path pr path) = None
          \<and> (\<exists>new. view d' path = Some new \<and> in_text new = upsert_text (fst kv) (snd kv) (in_text old)
               \<and> in_mode new = take_bit 9 (in_mode old)
               \<and> (pr_may_chown pr \<longrightarrow> in_uid new = in_uid old \<and> in_gid new = in_gid old)))"
proof -
  obtain d' sg where r: "(edit_step pr path kv ^^ n) (d, Stat) = (d', sg)" by force
  have e: "editing pr path kv d (d, Stat)" using assms by (rule editing_start)
  have "sg = Done \<longleftrightarrow> \<not> n < 7" using calls_made_run [OF e, of n] calls_made_Done [of sg] r by (auto simp: min_def split: if_splits)
  moreover have "edit_outcome pr path kv d d' (sg = Done)"
    using editing_run [OF e, of n] unfolding r by (rule outcome_of_editing)
  ultimately show ?thesis
    using assms(2) unfolding r by (auto simp: edit_outcome_def is_edit_def)
qed

text \<open>The daemon as root in its container, and a \<open>cluster.env\<close> of the operator.\<close>

definition root_daemon :: process where
  "root_daemon = \<lparr>pr_pid = 1, pr_uid = 0, pr_gid = 0, pr_create_mode = 420, pr_may_chown = True\<rparr>"

definition one_file :: "string \<Rightarrow> disk" where
  "one_file c = \<lparr>dk_names = [''/repo/cluster.env'' \<mapsto> 0], dk_inodes = (\<lambda>_. \<lparr>in_text = c, in_mode = 384, in_uid = 1000, in_gid = 1000\<rparr>),
     dk_fresh = 1\<rparr>"

lemma one_file_ok: "disk_ok (one_file c)" "view (one_file c) ''/repo/cluster.env'' = Some \<lparr>in_text = c, in_mode = 384, in_uid = 1000, in_gid = 1000\<rparr>"
  by (simp_all add: disk_ok_def one_file_def view_def)

theorem edit_survives_crash_witness:
  "\<exists>d'. (edit_step root_daemon ''/repo/cluster.env'' (''PULSAR_HOST'', ''node-2'') ^^ 7) (one_file sample_env, Stat) = (d', Done)
     \<and> map_option in_uid (view d' ''/repo/cluster.env'') = Some 1000
     \<and> map_option in_text (view d' ''/repo/cluster.env'') = Some (upsert_text ''PULSAR_HOST'' ''node-2'' sample_env)"
  using edit_survives_crash [OF one_file_ok [of sample_env], where pr = root_daemon and kv = "(''PULSAR_HOST'', ''node-2'')" and n = 7]
  by (auto simp: root_daemon_def)

section \<open>Several editors\<close>

text \<open>Who edits \<open>cluster.env\<close>, what each one writes, and whether it holds the handlers' lock meanwhile.\<close>

datatype editor =
    Topology_event "(string \<times> string) list"
  | Recreate_minio_self "(string \<times> string) list"
  | Sync_pulsar_host string
  | Rotate_self string

fun edits_of :: "editor \<Rightarrow> (string \<times> string) list" where
  "edits_of (Topology_event ordered) = [(''PEER_IPS'', join_with '','' (map snd ordered)), (''PEER_NAMES'', join_with '','' (map fst ordered))]"
| "edits_of (Recreate_minio_self ordered) = [(''PEER_IPS'', join_with '','' (map snd ordered)), (''PEER_NAMES'', join_with '','' (map fst ordered))]"
| "edits_of (Sync_pulsar_host host) = [(''PULSAR_HOST'', host)]"
| "edits_of (Rotate_self token) = [(''CLUSTER_TOKEN'', token)]"

fun takes_lock :: "editor \<Rightarrow> bool" where
  "takes_lock (Topology_event _) = True"
| "takes_lock (Recreate_minio_self _) = True"
| "takes_lock (Sync_pulsar_host _) = False"
| "takes_lock (Rotate_self _) = False"

text \<open>A task waits, works on the first of its remaining edits, or has ended with or without an exception.\<close>

datatype status = Waiting | Running "(string \<times> string) list" stage | Ended "exn option"

record shop =
  sh_disk :: disk
  sh_lock :: "nat option"
  sh_tasks :: "(editor \<times> status) list"

definition set_task :: "nat \<Rightarrow> status \<Rightarrow> shop \<Rightarrow> shop" where
  "set_task i st s = s\<lparr>sh_tasks := (sh_tasks s)[i := (fst (sh_tasks s ! i), st)]\<rparr>"

definition leave :: "nat \<Rightarrow> exn option \<Rightarrow> shop \<Rightarrow> shop" where
  "leave i e s = (set_task i (Ended e) s)\<lparr>sh_lock := (if takes_lock (fst (sh_tasks s ! i)) then None else sh_lock s)\<rparr>"

text \<open>Task \<open>i\<close> makes its next step; a step it cannot make, because the lock is taken or it has ended, changes nothing.\<close>

definition move :: "process \<Rightarrow> string \<Rightarrow> nat \<Rightarrow> shop \<Rightarrow> shop" where
  "move pr path i s =
     (if length (sh_tasks s) \<le> i then s
      else case sh_tasks s ! i of
        (ed, Waiting) \<Rightarrow>
          (if takes_lock ed \<and> sh_lock s \<noteq> None then s
           else (set_task i (Running (edits_of ed) Stat) s)\<lparr>sh_lock := (if takes_lock ed then Some i else sh_lock s)\<rparr>)
      | (ed, Running [] sg) \<Rightarrow> leave i None s
      | (ed, Running (kv # todo) Done) \<Rightarrow> set_task i (Running todo Stat) s
      | (ed, Running (kv # todo) (Failed e)) \<Rightarrow> leave i (Some e) s
      | (ed, Running (kv # todo) sg) \<Rightarrow>
          (case edit_step pr path kv (sh_disk s, sg) of (d, sg') \<Rightarrow> (set_task i (Running (kv # todo) sg') s)\<lparr>sh_disk := d\<rparr>)
      | (ed, Ended e) \<Rightarrow> s)"

definition run_shop :: "process \<Rightarrow> string \<Rightarrow> nat list \<Rightarrow> shop \<Rightarrow> shop" where
  "run_shop pr path schedule s = fold (move pr path) schedule s"

definition open_shop :: "disk \<Rightarrow> editor list \<Rightarrow> shop" where
  "open_shop d eds = \<lparr>sh_disk = d, sh_lock = None, sh_tasks = map (\<lambda>ed. (ed, Waiting)) eds\<rparr>"

section \<open>Editors under the lock\<close>

definition effects :: "(string \<times> string) list \<Rightarrow> string \<Rightarrow> string" where
  "effects kvs t = foldl (\<lambda>t kv. upsert_text (fst kv) (snd kv) t) t kvs"

definition settled :: "string \<Rightarrow> string \<Rightarrow> disk \<Rightarrow> bool" where
  "settled path t d \<longleftrightarrow> disk_ok d \<and> (\<exists>x. view d path = Some x \<and> in_text x = t)"

definition all_edits :: "editor list \<Rightarrow> nat list \<Rightarrow> (string \<times> string) list" where
  "all_edits eds order = concat (map (\<lambda>i. edits_of (eds ! i)) order)"

text \<open>The holder of the lock has done some of its edits and is at one of the others, with nobody else at work.\<close>

definition at_work :: "process \<Rightarrow> string \<Rightarrow> string \<Rightarrow> (string \<times> string) list \<Rightarrow> (string \<times> string) list \<Rightarrow> disk \<Rightarrow> status \<Rightarrow> bool" where
  "at_work pr path t before edits d st \<longleftrightarrow> (\<exists>finished todo sg. st = Running todo sg \<and> edits = finished @ todo
     \<and> (case todo of [] \<Rightarrow> settled path (effects (before @ finished) t) d
        | kv # _ \<Rightarrow> \<exists>db. settled path (effects (before @ finished) t) db \<and> editing pr path kv db (d, sg)))"

definition serial :: "process \<Rightarrow> string \<Rightarrow> string \<Rightarrow> editor list \<Rightarrow> nat list \<Rightarrow> shop \<Rightarrow> bool" where
  "serial pr path t eds order s \<longleftrightarrow>
     map fst (sh_tasks s) = eds \<and> distinct order
     \<and> set order = {i. i < length eds \<and> snd (sh_tasks s ! i) = Ended None}
     \<and> (\<forall>i < length eds. i \<in> set order \<or> sh_lock s = Some i \<or> snd (sh_tasks s ! i) = Waiting)
     \<and> (case sh_lock s of
          None \<Rightarrow> settled path (effects (all_edits eds order) t) (sh_disk s)
        | Some h \<Rightarrow> h < length eds \<and> at_work pr path t (all_edits eds order) (edits_of (eds ! h)) (sh_disk s) (snd (sh_tasks s ! h)))"

lemma effects_snoc: "effects (kvs @ [kv]) t = upsert_text (fst kv) (snd kv) (effects kvs t)"
  by (simp add: effects_def)

lemma settled_next:
  assumes "settled path (effects kvs t) db" and "editing pr path kv db (d, Done)"
  shows "settled path (effects (kvs @ [kv]) t) d"
  using assms(1) outcome_of_editing [OF assms(2)]
  by (auto simp: settled_def edit_outcome_def is_edit_def effects_snoc)

lemma begin_work:
  assumes "settled path (effects before t) d"
  shows "at_work pr path t before edits d (Running edits Stat)"
  unfolding at_work_def using assms
  by (intro exI [of _ "[]"] exI [of _ edits] exI [of _ Stat]) (auto simp: settled_def editing_start split: list.split)

text \<open>A move of the holder: it goes on working, or it leaves and its edits are complete.\<close>

lemma work_goes_on:
  assumes "at_work pr path t before edits d (Running todo sg)"
  shows "case todo of
      [] \<Rightarrow> settled path (effects (before @ edits) t) d
    | kv # rest \<Rightarrow> (\<forall>e. sg \<noteq> Failed e)
        \<and> (sg = Done \<longrightarrow> at_work pr path t before edits d (Running rest Stat))
        \<and> (case edit_step pr path kv (d, sg) of (d', sg') \<Rightarrow> at_work pr path t before edits d' (Running todo sg'))"
proof (cases todo)
  case Nil
  with assms show ?thesis by (auto simp: at_work_def)
next
  case (Cons kv rest)
  from assms obtain finished db where e: "edits = finished @ todo"
    and db: "settled path (effects (before @ finished) t) db" "editing pr path kv db (d, sg)"
    by (auto simp: at_work_def Cons)
  have "at_work pr path t before edits d (Running rest Stat)" if "sg = Done"
  proof -
    have s: "settled path (effects (before @ finished @ [kv]) t) d"
      using settled_next [OF db(1)] db(2) that by simp
    then show ?thesis unfolding at_work_def e Cons
      by (intro exI [of _ "finished @ [kv]"] exI [of _ rest] exI [of _ Stat]) (auto simp: settled_def editing_start split: list.split)
  qed
  moreover have "at_work pr path t before edits (fst ds) (Running todo (snd ds))" if "ds = edit_step pr path kv (d, sg)" for ds
    unfolding at_work_def using e db(1) editing_step [OF db(2)] that
    by (intro exI [of _ finished] exI [of _ todo] exI [of _ "snd ds"]) (auto simp: Cons)
  moreover have "sg \<noteq> Failed e" for e using db(2) by (auto simp: editing_def)
  ultimately show ?thesis by (auto simp: Cons split: prod.split)
qed

lemma serial_length: "serial pr path t eds order s \<Longrightarrow> length (sh_tasks s) = length eds"
  by (auto simp: serial_def)

lemma serial_editor: "serial pr path t eds order s \<Longrightarrow> i < length eds \<Longrightarrow> sh_tasks s ! i = (ed, st) \<Longrightarrow> eds ! i = ed"
  using serial_length by (fastforce simp: serial_def)

lemma at_work_running: "at_work pr path t before edits d st \<Longrightarrow> \<exists>todo sg. st = Running todo sg"
  by (auto simp: at_work_def)

lemma map_fst_update: "map fst xs = ys \<Longrightarrow> map fst (xs[i := (ys ! i, y)]) = ys"
  by (auto simp: map_update)

text \<open>Task \<open>i\<close> takes the lock, or goes on while it holds it; and it ends.\<close>

lemma serial_holds:
  assumes "serial pr path t eds order s" and "i < length eds" and "i \<notin> set order"
    and "sh_lock s = None \<or> sh_lock s = Some i"
    and "at_work pr path t (all_edits eds order) (edits_of (eds ! i)) d st"
  shows "serial pr path t eds order \<lparr>sh_disk = d, sh_lock = Some i, sh_tasks = (sh_tasks s)[i := (eds ! i, st)]\<rparr>"
proof -
  note len = serial_length [OF assms(1)]
  from at_work_running [OF assms(5)] obtain todo sg where st: "st = Running todo sg" by blast
  have f: "map fst (sh_tasks s) = eds" and o': "distinct order" "set order = {j. j < length eds \<and> snd (sh_tasks s ! j) = Ended None}"
    and oth: "\<And>j. j < length eds \<Longrightarrow> j \<in> set order \<or> sh_lock s = Some j \<or> snd (sh_tasks s ! j) = Waiting"
    using assms(1) by (auto simp: serial_def)
  have "map fst ((sh_tasks s)[i := (eds ! i, st)]) = eds" using f by (rule map_fst_update)
  moreover have "set order = {j. j < length eds \<and> snd ((sh_tasks s)[i := (eds ! i, st)] ! j) = Ended None}"
    using o'(2) assms(2,3) len by (auto simp: nth_list_update st)
  moreover have "\<forall>j < length eds. j \<in> set order \<or> Some i = Some j \<or> snd ((sh_tasks s)[i := (eds ! i, st)] ! j) = Waiting"
  proof (intro allI impI)
    fix j assume "j < length eds"
    then show "j \<in> set order \<or> Some i = Some j \<or> snd ((sh_tasks s)[i := (eds ! i, st)] ! j) = Waiting"
      using oth [of j] assms(4) by (cases "j = i") auto
  qed
  ultimately show ?thesis using o'(1) assms(2,5) len by (simp add: serial_def)
qed

lemma serial_ends:
  assumes "serial pr path t eds order s" and "sh_lock s = Some i"
    and "settled path (effects (all_edits eds (order @ [i])) t) (sh_disk s)"
  shows "serial pr path t eds (order @ [i]) \<lparr>sh_disk = sh_disk s, sh_lock = None, sh_tasks = (sh_tasks s)[i := (eds ! i, Ended None)]\<rparr>"
proof -
  note len = serial_length [OF assms(1)]
  have f: "map fst (sh_tasks s) = eds" and o': "distinct order" "set order = {j. j < length eds \<and> snd (sh_tasks s ! j) = Ended None}"
    and oth: "\<And>j. j < length eds \<Longrightarrow> j \<in> set order \<or> sh_lock s = Some j \<or> snd (sh_tasks s ! j) = Waiting"
    using assms(1) by (auto simp: serial_def)
  have i: "i < length eds" and "at_work pr path t (all_edits eds order) (edits_of (eds ! i)) (sh_disk s) (snd (sh_tasks s ! i))"
    using assms(1,2) by (simp_all add: serial_def)
  then have w: "\<exists>todo sg. snd (sh_tasks s ! i) = Running todo sg" by (blast dest: at_work_running)
  have "map fst ((sh_tasks s)[i := (eds ! i, Ended None)]) = eds" using f by (rule map_fst_update)
  moreover have "i \<notin> set order" unfolding o'(2) using w by force
  moreover have "set (order @ [i]) = {j. j < length eds \<and> snd ((sh_tasks s)[i := (eds ! i, Ended None)] ! j) = Ended None}"
    using o'(2) i len by (auto simp: nth_list_update)
  moreover have "\<forall>j < length eds. j \<in> set (order @ [i]) \<or> snd ((sh_tasks s)[i := (eds ! i, Ended None)] ! j) = Waiting"
  proof (intro allI impI)
    fix j assume "j < length eds"
    then show "j \<in> set (order @ [i]) \<or> snd ((sh_tasks s)[i := (eds ! i, Ended None)] ! j) = Waiting"
      using oth [of j] assms(2) by (cases "j = i") auto
  qed
  ultimately show ?thesis using o'(1) assms(3) len by (simp add: serial_def)
qed

lemma serial_move:
  assumes "serial pr path t eds order s" and "\<forall>ed \<in> set eds. takes_lock ed"
  shows "\<exists>order'. serial pr path t eds order' (move pr path i s)"
proof (cases "move pr path i s = s")
  case True
  with assms(1) show ?thesis by auto
next
  case moved: False
  note len = serial_length [OF assms(1)]
  from moved have i: "i < length eds" by (rule contrapos_np) (simp add: move_def len)
  obtain ed st where t: "sh_tasks s ! i = (ed, st)" by force
  have ed: "eds ! i = ed" by (rule serial_editor [OF assms(1) i t])
  have lk: "takes_lock ed" using assms(2) i ed by (metis nth_mem)
  have no: "i \<notin> set order" if "st \<noteq> Ended None" using assms(1) t that by (auto simp: serial_def)
  show ?thesis
  proof (cases st)
    case Waiting
    then have free: "sh_lock s = None" using moved t lk i len by (cases "sh_lock s") (simp_all add: move_def)
    then have "settled path (effects (all_edits eds order) t) (sh_disk s)" using assms(1) by (simp add: serial_def)
    from serial_holds [OF assms(1) i no _ begin_work [OF this]] free Waiting
    have "serial pr path t eds order \<lparr>sh_disk = sh_disk s, sh_lock = Some i,
      sh_tasks = (sh_tasks s)[i := (eds ! i, Running (edits_of (eds ! i)) Stat)]\<rparr>" by simp
    moreover have "move pr path i s = \<lparr>sh_disk = sh_disk s, sh_lock = Some i,
      sh_tasks = (sh_tasks s)[i := (eds ! i, Running (edits_of (eds ! i)) Stat)]\<rparr>"
      using t Waiting free lk i len ed by (cases s) (simp add: move_def set_task_def)
    ultimately show ?thesis by auto
  next
    case (Ended e)
    then show ?thesis using moved t by (simp add: move_def)
  next
    case (Running todo sg)
    then have held: "sh_lock s = Some i" using assms(1) t i no by (auto simp: serial_def)
    have w: "at_work pr path t (all_edits eds order) (edits_of ed) (sh_disk s) (Running todo sg)"
      using assms(1) t held Running ed by (simp add: serial_def)
    note g = work_goes_on [OF w]
    have goes: ?thesis
      if "at_work pr path t (all_edits eds order) (edits_of (eds ! i)) d st'"
        and "move pr path i s = \<lparr>sh_disk = d, sh_lock = Some i, sh_tasks = (sh_tasks s)[i := (eds ! i, st')]\<rparr>" for d st'
      using serial_holds [OF assms(1) i no _ that(1)] that(2) held Running by auto
    show ?thesis
    proof (cases todo)
      case Nil
      then have "settled path (effects (all_edits eds (order @ [i])) t) (sh_disk s)" using g ed by (simp add: all_edits_def)
      from serial_ends [OF assms(1) held this]
      have "serial pr path t eds (order @ [i]) \<lparr>sh_disk = sh_disk s, sh_lock = None, sh_tasks = (sh_tasks s)[i := (eds ! i, Ended None)]\<rparr>" .
      moreover have "move pr path i s = \<lparr>sh_disk = sh_disk s, sh_lock = None, sh_tasks = (sh_tasks s)[i := (eds ! i, Ended None)]\<rparr>"
        using t Running Nil i len ed lk by (cases s) (simp add: move_def leave_def set_task_def)
      ultimately show ?thesis by auto
    next
      case (Cons kv rest)
      show ?thesis
      proof (cases "sg = Done")
        case True
        then show ?thesis using g Cons ed t Running i len held
          by (intro goes [of "sh_disk s" "Running rest Stat"]) (cases s; simp add: move_def set_task_def)+
      next
        case False
        obtain d sg' where e: "edit_step pr path kv (sh_disk s, sg) = (d, sg')" by force
        have "\<forall>x. sg \<noteq> Failed x" using g Cons by auto
        then have "move pr path i s = \<lparr>sh_disk = d, sh_lock = Some i, sh_tasks = (sh_tasks s)[i := (eds ! i, Running todo sg')]\<rparr>"
          using t Running Cons i len False e held ed by (cases s; cases sg) (simp_all add: move_def set_task_def)
        then show ?thesis using g Cons e ed by (intro goes [of d "Running todo sg'"]) simp_all
      qed
    qed
  qed
qed

lemma serial_run:
  assumes "serial pr path t eds order s" and "\<forall>ed \<in> set eds. takes_lock ed"
  shows "\<exists>order'. serial pr path t eds order' (run_shop pr path schedule s)"
  using assms(1)
proof (induction schedule arbitrary: s order)
  case (Cons i schedule)
  from serial_move [OF Cons.prems assms(2), of i] Cons.IH show ?case by (auto simp: run_shop_def)
qed (auto simp: run_shop_def)

lemma serial_open:
  "settled path t d \<Longrightarrow> serial pr path t eds [] (open_shop d eds)"
  by (auto simp: serial_def open_shop_def all_edits_def effects_def comp_def)


text \<open>Under the lock some editor can always go on until all have ended.\<close>

lemma serial_progress:
  assumes "serial pr path t eds order s"
  shows "set order = {..<length eds} \<or> (\<exists>i < length eds. move pr path i s \<noteq> s)"
proof (cases "sh_lock s")
  case None
  note len = serial_length [OF assms]
  have "set order \<subseteq> {..<length eds}" using assms by (auto simp: serial_def)
  then consider "set order = {..<length eds}" | i where "i < length eds" "i \<notin> set order" by blast
  then show ?thesis
  proof cases
    case (2 i)
    then have "snd (sh_tasks s ! i) = Waiting" using assms None by (auto simp: serial_def)
    then obtain ed where t: "sh_tasks s ! i = (ed, Waiting)" by (metis prod.collapse)
    then have "snd (sh_tasks (move pr path i s) ! i) \<noteq> Waiting" using 2(1) len None by (simp add: move_def set_task_def)
    with t have "move pr path i s \<noteq> s" by auto
    with 2(1) show ?thesis by blast
  qed simp
next
  case (Some h)
  note len = serial_length [OF assms]
  have h: "h < length eds" and w: "at_work pr path t (all_edits eds order) (edits_of (eds ! h)) (sh_disk s) (snd (sh_tasks s ! h))"
    using assms Some by (simp_all add: serial_def)
  from w obtain ed todo sg where t: "sh_tasks s ! h = (ed, Running todo sg)"
    by (metis at_work_running prod.collapse)
  have "snd (sh_tasks (move pr path h s) ! h) \<noteq> Running todo sg"
  proof (cases todo)
    case Nil
    then show ?thesis using t h len by (simp add: move_def leave_def set_task_def)
  next
    case (Cons kv rest)
    from w obtain db where e: "editing pr path kv db (sh_disk s, sg)" by (auto simp: t at_work_def Cons)
    from calls_made_step [OF e] calls_made_Done [of sg]
    have "sg \<noteq> Done \<Longrightarrow> snd (edit_step pr path kv (sh_disk s, sg)) \<noteq> sg" by (cases sg) auto
    moreover have "sg \<noteq> Failed x" for x using e by (auto simp: editing_def)
    ultimately show ?thesis using t h len Cons
      by (cases "sg = Done"; cases sg) (auto simp: move_def set_task_def split: prod.split)
  qed
  with t have "move pr path h s \<noteq> s" by auto
  with h show ?thesis by blast
qed

text \<open>The text that readers find at any time.\<close>

lemma serial_text:
  assumes "serial pr path t eds order s"
  shows "\<exists>x partial. view (sh_disk s) path = Some x \<and> in_text x = effects (all_edits eds order @ partial) t
    \<and> (case sh_lock s of None \<Rightarrow> partial = [] | Some h \<Rightarrow> h \<notin> set order \<and> prefix partial (edits_of (eds ! h)))"
proof (cases "sh_lock s")
  case None
  then show ?thesis using assms by (auto simp: serial_def settled_def intro!: exI [of _ "[]"])
next
  case (Some h)
  have w: "at_work pr path t (all_edits eds order) (edits_of (eds ! h)) (sh_disk s) (snd (sh_tasks s ! h))"
    and no: "h \<notin> set order" using assms Some by (auto simp: serial_def dest: at_work_running)
  from w obtain finished todo sg where e: "edits_of (eds ! h) = finished @ todo"
    and d: "case todo of [] \<Rightarrow> settled path (effects (all_edits eds order @ finished) t) (sh_disk s)
        | kv # _ \<Rightarrow> \<exists>db. settled path (effects (all_edits eds order @ finished) t) db \<and> editing pr path kv db (sh_disk s, sg)"
    unfolding at_work_def by blast
  have "\<exists>x partial. view (sh_disk s) path = Some x \<and> in_text x = effects (all_edits eds order @ partial) t \<and> prefix partial (edits_of (eds ! h))"
  proof (cases todo)
    case Nil
    then show ?thesis using d e by (auto simp: settled_def)
  next
    case (Cons kv rest)
    then obtain db where db: "settled path (effects (all_edits eds order @ finished) t) db" "editing pr path kv db (sh_disk s, sg)"
      using d by auto
    show ?thesis
    proof (cases "sg = Done")
      case True
      from settled_next [OF db(1)] db(2) True have "settled path (effects (all_edits eds order @ finished @ [kv]) t) (sh_disk s)" by simp
      then show ?thesis using e Cons unfolding settled_def by (metis append.assoc append_Cons append_Nil prefixI)
    next
      case False
      then have "settled path (effects (all_edits eds order @ finished) t) (sh_disk s)"
        using outcome_of_editing [OF db(2)] db(1) by (auto simp: edit_outcome_def settled_def)
      moreover have "prefix finished (edits_of (eds ! h))" using e by simp
      ultimately show ?thesis unfolding settled_def by blast
    qed
  qed
  then show ?thesis using Some no by auto
qed

section \<open>Properties of several editors\<close>

text \<open>C21. Under the handlers' lock nothing is lost: whatever editors that take the lock run in one daemon, and in whatever order their
  steps come, none of them fails, and at any time \<open>cluster.env\<close> holds the effect of the complete edits of those
  that have ended, one after the other, followed by some first edits of the one that holds the lock; and until
  all have ended one of them can go on.\<close>

theorem locked_edits_serialize:
  assumes "disk_ok d" and "view d path = Some old" and "\<forall>ed \<in> set eds. takes_lock ed"
    and "s = run_shop pr path schedule (open_shop d eds)"
  shows "\<exists>order. distinct order \<and> set order = {i. i < length eds \<and> snd (sh_tasks s ! i) = Ended None}
    \<and> (\<forall>i < length eds. \<forall>e. snd (sh_tasks s ! i) \<noteq> Ended (Some e))
    \<and> (\<exists>x partial. view (sh_disk s) path = Some x
         \<and> in_text x = foldl (\<lambda>t kv. upsert_text (fst kv) (snd kv) t) (in_text old)
                          (concat (map (\<lambda>i. edits_of (eds ! i)) order) @ partial)
         \<and> (case sh_lock s of None \<Rightarrow> partial = [] | Some h \<Rightarrow> h \<notin> set order \<and> prefix partial (edits_of (eds ! h))))
    \<and> (set order = {..<length eds} \<or> (\<exists>i < length eds. move pr path i s \<noteq> s))"
proof -
  have "settled path (in_text old) d" using assms(1,2) by (simp add: settled_def)
  from serial_run [OF serial_open [OF this] assms(3)] obtain order where o': "serial pr path (in_text old) eds order s"
    unfolding assms(4) by blast
  have "snd (sh_tasks s ! i) \<noteq> Ended (Some e)" if "i < length eds" for i e
    using o' that by (auto simp: serial_def dest!: at_work_running)
  moreover have "distinct order" "set order = {i. i < length eds \<and> snd (sh_tasks s ! i) = Ended None}" using o' by (auto simp: serial_def)
  ultimately show ?thesis using serial_text [OF o'] serial_progress [OF o'] unfolding effects_def all_edits_def by blast
qed

definition grown :: "(string \<times> string) list" where
  "grown = [(''node-1'', ''10.0.0.1''), (''node-2'', ''10.0.0.2'')]"

definition two_editors :: "editor list" where
  "two_editors = [Topology_event grown, Recreate_minio_self grown]"

definition busy_shop :: shop where
  "busy_shop = run_shop root_daemon ''/repo/cluster.env'' [1, 0, 1, 1, 0] (open_shop (one_file sample_env) two_editors)"

theorem locked_edits_serialize_witness:
  "\<exists>order x partial. distinct order \<and> view (sh_disk busy_shop) ''/repo/cluster.env'' = Some x
     \<and> in_text x = foldl (\<lambda>t kv. upsert_text (fst kv) (snd kv) t) sample_env
         (concat (map (\<lambda>i. edits_of (two_editors ! i)) order) @ partial)"
proof -
  have l: "\<forall>ed \<in> set two_editors. takes_lock ed" by (simp add: two_editors_def)
  have t: "in_text \<lparr>in_text = sample_env, in_mode = 384, in_uid = 1000, in_gid = 1000\<rparr> = sample_env" by simp
  show ?thesis
    using locked_edits_serialize [OF one_file_ok [of sample_env] l busy_shop_def] unfolding t by blast
qed

text \<open>A topology event and a change of the Pulsar host: three orders of their steps.\<close>

definition clash_orders :: "nat list list" where
  "clash_orders = [[1, 1, 1] @ replicate 18 0 @ replicate 7 1, replicate 7 1 @ replicate 5 0 @ replicate 3 1 @ [0, 0],
     replicate 7 1 @ replicate 4 0 @ [1]]"

definition clash :: "nat \<Rightarrow> shop" where
  "clash n = run_shop root_daemon ''/repo/cluster.env'' (clash_orders ! n)
     (open_shop (one_file sample_env) [Topology_event grown, Sync_pulsar_host ''node-2''])"

text \<open>How the tasks have ended, the Pulsar host and the peer list a reader finds, and whether the file is empty.\<close>

definition clash_report :: "nat \<Rightarrow> status list \<times> (string option \<times> string option \<times> bool) option" where
  "clash_report n = (let s = clash n in (map snd (sh_tasks s),
     map_option (\<lambda>x. (text_value ''PULSAR_HOST'' (in_text x), text_value ''PEER_IPS'' (in_text x), in_text x = []))
       (view (sh_disk s) ''/repo/cluster.env'')))"

text \<open>Editors without the lock destroy each other's work. A topology event (two peers after a join) and a change of the Pulsar
  host run at the same time: there are orders of their steps in which both report success and the peer list
  is lost, in which the topology handler dies on the vanished temporary file and the change of the host,
  which reports success, is not in the file, and in which \<open>cluster.env\<close> is empty for a while.\<close>

theorem unlocked_edits_clash:
  "clash_report 0 = ([Ended None, Ended None], Some (Some ''node-2'', None, False))
   \<and> clash_report 1 = ([Ended (Some FileNotFoundError), Ended None], Some (Some ''node-1'', Some ''10.0.0.1,10.0.0.2'', False))
   \<and> snd (clash_report 2) = Some (None, None, True)"
  by (intro conjI; code_simp)

end
