(* ===== verification/Topology.thy ===== *)
theory Topology
  imports Sim_World
begin

text \<open>
  \<open>src/daemon/topology.py\<close>: the peer entries under \<open>/cluster/topology/peers/\<close>, the watcher's
  in-memory mirror of them, the classification of watch events and the notification of handlers.
  The mirror is the dictionary \<open>peers\<close> from node name to entry. A handler is an arbitrary
  computation that is told the mirror, the kind of the change and the old and new entry.
\<close>

definition TOPOLOGY_PREFIX :: string where
  "TOPOLOGY_PREFIX = ''/cluster/topology/peers/''"

datatype change = ADDED | UPDATED | REMOVED

type_synonym peers = "obj dict"
type_synonym 'w handler = "peers \<Rightarrow> change \<Rightarrow> obj option \<Rightarrow> obj option \<Rightarrow> ('w, unit) io"

abbreviation ip_of :: "obj \<Rightarrow> string option" where
  "ip_of info \<equiv> get_str info ''ip''"

section \<open>Reading the prefix\<close>

definition peer_count :: "peers \<Rightarrow> nat" where
  "peer_count ps = length ps"

definition peer_ips :: "peers \<Rightarrow> string list" where
  "peer_ips ps = map (\<lambda>p. or_empty (ip_of (snd p))) (filter (\<lambda>p. truthy (ip_of (snd p))) ps)"

text \<open>One entry of a prefix scan; entries that are not JSON are dropped.\<close>

definition decode_entry :: "string \<times> etcd_value \<Rightarrow> peers \<Rightarrow> peers" where
  "decode_entry kv out =
     (let name = removeprefix (fst kv) TOPOLOGY_PREFIX in
      case json_loads (snd kv) of Some d \<Rightarrow> dict_set name d out | None \<Rightarrow> out)"

definition decode_peers :: "etcd_value dict \<Rightarrow> peers \<Rightarrow> peers" where
  "decode_peers raw out = foldl (\<lambda>o' kv. decode_entry kv o') out raw"

definition authoritative_peers :: "'w sys \<Rightarrow> ('w, peers) io" where
  "authoritative_peers sys =
     bnd (get_prefix sys TOPOLOGY_PREFIX) (\<lambda>raw. ret (decode_peers raw []))"

definition seed :: "'w sys \<Rightarrow> peers \<Rightarrow> ('w, peers) io" where
  "seed sys ps = bnd (get_prefix sys TOPOLOGY_PREFIX) (\<lambda>existing. ret (decode_peers existing ps))"

section \<open>Applying watch events\<close>

text \<open>The mirror after one event and the notification it causes, if any.\<close>

definition mirror_event ::
  "event \<Rightarrow> peers \<Rightarrow> peers \<times> (change \<times> obj option \<times> obj option) option" where
  "mirror_event ev ps =
     (if \<not> startswith (ev_key ev) TOPOLOGY_PREFIX then (ps, None)
      else
        (let name = removeprefix (ev_key ev) TOPOLOGY_PREFIX in
         if ev_type ev = DELETE then
           (dict_pop name ps, Some (REMOVED, dict_get ps name, None))
         else
           (case (case ev_value ev of None \<Rightarrow> Some [] | Some v \<Rightarrow> json_loads v) of
              None \<Rightarrow> (ps, None)
            | Some new \<Rightarrow>
                (let old = dict_get ps name in
                 (dict_set name new ps,
                  Some (if old = None then ADDED else UPDATED, old, Some new))))))"

text \<open>\<open>_notify\<close>: a handler's exception is logged and the next handler runs.\<close>

fun notify :: "'w handler list \<Rightarrow> peers \<Rightarrow> change \<Rightarrow> obj option \<Rightarrow> obj option \<Rightarrow> ('w, unit) io" where
  "notify [] ps kind old new = ret ()"
| "notify (h # hs) ps kind old new =
     bnd (try_except (h ps kind old new) (\<lambda>_. ret ())) (\<lambda>_. notify hs ps kind old new)"

definition apply_event :: "'w handler list \<Rightarrow> event \<Rightarrow> peers \<Rightarrow> ('w, peers) io" where
  "apply_event hs ev ps =
     (case mirror_event ev ps of
        (ps', None) \<Rightarrow> ret ps'
      | (ps', Some (kind, old, new)) \<Rightarrow> bnd (notify hs ps' kind old new) (\<lambda>_. ret ps'))"

text \<open>\<open>run\<close>: seed the mirror, then apply the events of the watch stream until \<open>stop()\<close>; here the
  stream is the finite sequence of events seen before the stop.\<close>

definition run_watcher :: "'w sys \<Rightarrow> 'w handler list \<Rightarrow> event list \<Rightarrow> peers \<Rightarrow> ('w, peers) io" where
  "run_watcher sys hs evs ps = bnd (seed sys ps) (fold_io (apply_event hs) evs)"

section \<open>What the mirror shows\<close>

text \<open>The topology a store holds: the well-formed entries by node name.\<close>

definition topo_view :: "(string \<rightharpoonup> etcd_value) \<Rightarrow> string \<Rightarrow> obj option" where
  "topo_view m name = Option.bind (m (TOPOLOGY_PREFIX @ name)) json_loads"

lemma TOPOLOGY_PREFIX_ok [simp]: "TOPOLOGY_PREFIX \<noteq> []" "ord_chr (last TOPOLOGY_PREFIX) < 255"
  by (simp_all add: TOPOLOGY_PREFIX_def ord_chr_def)

lemma decode_peers_Cons:
  "decode_peers (kv # raw) out = decode_peers raw (decode_entry kv out)"
  by (simp add: decode_peers_def)

lemma dict_ok_decode: "dict_ok out \<Longrightarrow> dict_ok (decode_peers raw out)"
  by (induction raw arbitrary: out)
    (auto simp: decode_peers_def decode_entry_def Let_def split: option.split)

lemma dict_get_decode:
  assumes "distinct (keys raw)" and "\<forall>k \<in> set (keys raw). startswith k TOPOLOGY_PREFIX"
  shows "dict_get (decode_peers raw out) name =
    (case dict_get raw (TOPOLOGY_PREFIX @ name) of
       Some (Json d) \<Rightarrow> Some d | _ \<Rightarrow> dict_get out name)"
  using assms
proof (induction raw arbitrary: out)
  case Nil
  then show ?case by (simp add: decode_peers_def)
next
  case (Cons kv raw)
  obtain r v where kv: "kv = (TOPOLOGY_PREFIX @ r, v)"
    using Cons.prems(2) by (cases kv) (auto simp: keys_def elim: startswithE)
  have new: "dict_get raw (TOPOLOGY_PREFIX @ r) = None"
    using Cons.prems(1) kv dict_get_keys [of raw "TOPOLOGY_PREFIX @ r"] by (auto simp: keys_def)
  have "dict_get (decode_peers (kv # raw) out) name =
      (case dict_get raw (TOPOLOGY_PREFIX @ name) of
         Some (Json d) \<Rightarrow> Some d | _ \<Rightarrow> dict_get (decode_entry kv out) name)"
    unfolding decode_peers_Cons using Cons.IH Cons.prems by (simp add: keys_def)
  also have "\<dots> = (case dict_get (kv # raw) (TOPOLOGY_PREFIX @ name) of
         Some (Json d) \<Rightarrow> Some d | _ \<Rightarrow> dict_get out name)"
    using new kv
    by (cases v; cases "name = r")
      (auto simp: decode_entry_def split: option.split etcd_value.split)
  finally show ?case .
qed

text \<open>A committed write as the watch reports it, and its effect on the store.\<close>

definition store_event :: "event \<Rightarrow> (string \<rightharpoonup> etcd_value) \<Rightarrow> (string \<rightharpoonup> etcd_value)" where
  "store_event ev m = m(ev_key ev := (if ev_type ev = DELETE then None else ev_value ev))"

definition wf_event :: "event \<Rightarrow> bool" where
  "wf_event ev \<longleftrightarrow> ev_type ev = DELETE \<or> (\<exists>d. ev_value ev = Some (Json d))"

definition mirrors :: "peers \<Rightarrow> (string \<rightharpoonup> etcd_value) \<Rightarrow> bool" where
  "mirrors ps m \<longleftrightarrow> (\<forall>name. dict_get ps name = topo_view m name)"

lemma mirror_event_mirrors:
  assumes "wf_event ev" and "mirrors ps m"
  shows "mirrors (fst (mirror_event ev ps)) (store_event ev m)"
proof (cases "startswith (ev_key ev) TOPOLOGY_PREFIX")
  case True
  then obtain n where "ev_key ev = TOPOLOGY_PREFIX @ n" by (rule startswithE)
  then show ?thesis
    using assms by (auto simp: mirrors_def mirror_event_def store_event_def wf_event_def
        topo_view_def Let_def)
next
  case False
  then have "TOPOLOGY_PREFIX @ n \<noteq> ev_key ev" for n by (metis startswith_append)
  then show ?thesis
    using assms False by (auto simp: mirrors_def mirror_event_def store_event_def topo_view_def)
qed

lemma wp_notify:
  "wp (notify hs ps kind old new) (\<lambda>_ _. True) (\<lambda>e _. \<not> is_Exception e) s"
proof (induction hs arbitrary: s)
  case Nil
  then show ?case by (simp add: wp_simps)
next
  case (Cons h hs)
  have "wp (h ps kind old new) (\<lambda>_ _. True) (\<lambda>_ _. True) s" for s
    by (simp add: wp_def split: prod.split sum.split)
  then show ?case using Cons by (auto simp: wp_simps intro: wp_mono)
qed

lemma wp_apply_event:
  "wp (apply_event hs ev ps) (\<lambda>ps' _. ps' = fst (mirror_event ev ps)) (\<lambda>e _. \<not> is_Exception e) s"
  by (auto simp: apply_event_def wp_simps split: prod.split option.split
      intro: wp_mono [OF wp_notify])

lemma wp_events:
  assumes "\<forall>ev \<in> set evs. wf_event ev" and "mirrors ps m"
  shows "wp (fold_io (apply_event hs) evs ps)
    (\<lambda>ps' _. mirrors ps' (foldl (\<lambda>m ev. store_event ev m) m evs)) (\<lambda>e _. \<not> is_Exception e) s"
  using assms
proof (induction evs arbitrary: ps m s)
  case Nil
  then show ?case by (simp add: wp_simps)
next
  case (Cons ev evs)
  have "mirrors (fst (mirror_event ev ps)) (store_event ev m)"
    using Cons.prems by (intro mirror_event_mirrors) auto
  then show ?case
    using Cons.IH Cons.prems(1) by (auto simp: wp_bnd intro!: wp_mono [OF wp_apply_event])
qed

context kv_store
begin

lemma seed_spec:
  assumes "prefix_free leased TOPOLOGY_PREFIX"
  shows "wp (seed sys ps)
    (\<lambda>d t. kv (st_world t) = kv (st_world s) \<and> (dict_ok ps \<longrightarrow> dict_ok d)
       \<and> (\<forall>name. dict_get d name = (case topo_view (kv (st_world s)) name of
                                       Some o' \<Rightarrow> Some o' | None \<Rightarrow> dict_get ps name)))
    (\<lambda>e t. is_Exception e \<and> kv (st_world t) = kv (st_world s)) s"
  unfolding seed_def wp_bnd
proof (rule wp_mono [OF get_prefix_spec [OF TOPOLOGY_PREFIX_ok assms]], goal_cases)
  case (1 raw t)
  then have pre: "\<forall>k \<in> set (keys raw). startswith k TOPOLOGY_PREFIX"
    using dict_get_keys [of raw] by (metis option.distinct(1))
  have "dict_get (decode_peers raw ps) name = (case topo_view (kv (st_world s)) name of
      Some o' \<Rightarrow> Some o' | None \<Rightarrow> dict_get ps name)" for name
    using dict_get_decode [OF _ pre, of ps name] 1
    by (auto simp: dict_ok_def topo_view_def split: option.split etcd_value.split)
  then show ?case using 1 by (auto simp: wp_simps intro: dict_ok_decode)
qed auto

lemma authoritative_spec:
  assumes "prefix_free leased TOPOLOGY_PREFIX"
  shows "wp (authoritative_peers sys)
    (\<lambda>d t. dict_ok d \<and> kv (st_world t) = kv (st_world s) \<and> mirrors d (kv (st_world s)))
    (\<lambda>e t. is_Exception e \<and> kv (st_world t) = kv (st_world s)) s"
proof -
  have eq: "authoritative_peers sys = seed sys []" by (simp add: authoritative_peers_def seed_def)
  have "wp (seed sys []) (\<lambda>d t. dict_ok d \<and> kv (st_world t) = kv (st_world s)
      \<and> mirrors d (kv (st_world s))) (\<lambda>e t. is_Exception e \<and> kv (st_world t) = kv (st_world s)) s"
    by (rule wp_mono [OF seed_spec [OF assms]]) (auto simp: mirrors_def split: option.splits)
  then show ?thesis by (simp add: eq)
qed

end


lemma notify_states:
  assumes "\<And>h e s t. h \<in> set hs \<Longrightarrow> h ps kind old new s = (Inl e, t) \<Longrightarrow> is_Exception e"
  shows "notify hs ps kind old new s = (Inr (), foldl (\<lambda>s h. snd (h ps kind old new s)) s hs)"
  using assms
proof (induction hs arbitrary: s)
  case Nil
  then show ?case by (simp add: ret_def)
next
  case (Cons h hs)
  have "notify hs ps kind old new (snd (h ps kind old new s))
      = (Inr (), foldl (\<lambda>s h. snd (h ps kind old new s)) (snd (h ps kind old new s)) hs)"
    using Cons.IH Cons.prems by (metis list.set_intros(2))
  then show ?case
    using Cons.prems [of h s]
    by (cases "h ps kind old new s") (auto simp: bnd_def try_except_def ret_def split: sum.split)
qed

section \<open>Properties\<close>

text \<open>A worker's read of the topology is authoritative: \<open>authoritative_peers\<close>, run against an etcd
  that behaves as documented, returns exactly the entries of the store under the topology prefix that
  are JSON objects, by node name, each name once, and changes nothing.\<close>

theorem authoritative_peers_exact:
  assumes "etcd_gateway sys leased kv"
    and "prefix_free leased TOPOLOGY_PREFIX"
    and "authoritative_peers sys s = (Inr ps, t)"
  shows "dict_ok ps \<and> kv (st_world t) = kv (st_world s)
    \<and> (\<forall>name. dict_get ps name = topo_view (kv (st_world s)) name)"
  using wp_D_ok [OF kv_store.authoritative_spec [OF etcd_gateway.client [OF assms(1)] assms(2)] assms(3)] by (simp add: mirrors_def)

theorem authoritative_peers_exact_witness:
  "\<exists>ps t. authoritative_peers mem_sys (start (two_nodes\<lparr>w_faults := [Drop, Busy]\<rparr>)) = (Inr ps, t)
     \<and> dict_get ps ''node-2'' = Some (node_entry ''10.0.0.2'') \<and> dict_get ps ''node-3'' = None"
proof -
  let ?s = "start (two_nodes\<lparr>w_faults := [Drop, Busy]\<rparr>)"
  have "fst (authoritative_peers mem_sys ?s)
      = Inr [(''node-1'', node_entry ''10.0.0.1''), (''node-2'', node_entry ''10.0.0.2'')]" by code_simp
  then obtain ps t where e: "authoritative_peers mem_sys ?s = (Inr ps, t)" by (metis result_of)
  have f: "prefix_free lease_keys TOPOLOGY_PREFIX" by code_simp
  have m: "dict_get ps name = topo_view (map_of (w_kv (st_world ?s))) name" for name
    using authoritative_peers_exact [OF mem.etcd_gateway_axioms f e] by blast
  have "dict_get ps ''node-2'' = Some (node_entry ''10.0.0.2'')" "dict_get ps ''node-3'' = None"
    unfolding m by code_simp+
  then show ?thesis using e by blast
qed

text \<open>The watcher's mirror follows etcd: after the seed and any sequence of committed, well-formed
  writes and deletes reported by the watch, whatever the registered handlers do, the mirror shows the
  topology of the store with those writes applied.\<close>

theorem watcher_mirror_converges:
  assumes "etcd_gateway sys leased kv"
    and "prefix_free leased TOPOLOGY_PREFIX"
    and "\<forall>ev \<in> set evs. wf_event ev"
    and "run_watcher sys hs evs [] s = (Inr ps, t)"
  shows "mirrors ps (foldl (\<lambda>m ev. store_event ev m) (kv (st_world s)) evs)"
proof -
  have "wp (run_watcher sys hs evs [])
      (\<lambda>ps' _. mirrors ps' (foldl (\<lambda>m ev. store_event ev m) (kv (st_world s)) evs)) (\<lambda>_ _. True) s"
    unfolding run_watcher_def wp_bnd
  proof (rule wp_mono [OF kv_store.seed_spec [OF etcd_gateway.client [OF assms(1)] assms(2)]], goal_cases)
    case (1 d t)
    then have m: "mirrors d (kv (st_world s))" by (simp add: mirrors_def split: option.splits)
    show ?case by (rule wp_mono [OF wp_events [OF assms(3) m]]) auto
  qed auto
  from wp_D_ok [OF this assms(4)] show ?thesis .
qed

definition sample_events :: "event list" where
  "sample_events =
     [\<lparr>ev_type = PUT, ev_key = TOPOLOGY_PREFIX @ ''node-3'', ev_value = Some (Json (node_entry ''10.0.0.3'')), ev_rev = 7\<rparr>,
      \<lparr>ev_type = DELETE, ev_key = TOPOLOGY_PREFIX @ ''node-1'', ev_value = None, ev_rev = 8\<rparr>]"

definition sample_handlers :: "world handler list" where
  "sample_handlers = [\<lambda>ps kind old new. raise (RuntimeError ''render failed''), \<lambda>ps kind old new. emit ''rendered'']"

theorem watcher_mirror_converges_witness:
  "\<exists>ps t. run_watcher mem_sys sample_handlers sample_events [] (start two_nodes) = (Inr ps, t)
     \<and> dict_get ps ''node-1'' = None \<and> dict_get ps ''node-3'' = Some (node_entry ''10.0.0.3'')"
proof -
  let ?m = "foldl (\<lambda>m ev. store_event ev m) (map_of (w_kv (st_world (start two_nodes)))) sample_events"
  have "fst (run_watcher mem_sys sample_handlers sample_events [] (start two_nodes))
      = Inr [(''node-2'', node_entry ''10.0.0.2''), (''node-3'', node_entry ''10.0.0.3'')]" by code_simp
  then obtain ps t where e: "run_watcher mem_sys sample_handlers sample_events [] (start two_nodes) = (Inr ps, t)"
    by (metis result_of)
  have f: "prefix_free lease_keys TOPOLOGY_PREFIX" by code_simp
  have w: "\<forall>ev \<in> set sample_events. wf_event ev" by (simp add: sample_events_def wf_event_def)
  have m: "dict_get ps name = topo_view ?m name" for name
    using watcher_mirror_converges [OF mem.etcd_gateway_axioms f w e] unfolding mirrors_def by blast
  have "dict_get ps ''node-1'' = None" "dict_get ps ''node-3'' = Some (node_entry ''10.0.0.3'')"
    unfolding m by code_simp+
  then show ?thesis using e by blast
qed

text \<open>Handlers are isolated from each other: whichever of them raise, every registered handler runs,
  in registration order and on the state its predecessor left, and the notification itself returns.\<close>

theorem notify_runs_all:
  assumes "\<And>h e s t. h \<in> set hs \<Longrightarrow> h ps kind old new s = (Inl e, t) \<Longrightarrow> is_Exception e"
  shows "notify hs ps kind old new s = (Inr (), foldl (\<lambda>s h. snd (h ps kind old new s)) s hs)"
  using assms by (rule notify_states)

theorem notify_runs_all_witness:
  "\<exists>t. notify sample_handlers [] ADDED None None (start world0) = (Inr (), t) \<and> st_trace t = [A_emit ''rendered'']"
proof -
  have "is_Exception e" if "h \<in> set sample_handlers" "h [] ADDED None None s = (Inl e, t)" for h e s t
    using that by (auto simp: sample_handlers_def raise_def emit_def call_def)
  from notify_runs_all [of sample_handlers, OF this]
  show ?thesis by (auto simp: sample_handlers_def raise_def emit_def call_def start_def)
qed

end
