(* ===== verification/Jobs.thy ===== *)
theory Jobs
  imports Sim_World
begin

text \<open>
  \<open>src/daemon/jobs.py\<close>: long-running operations with their state in etcd. A job is a record, stored
  as a JSON object under \<open>/cluster/jobs/<id>\<close>. The operations of \<open>JobsManager\<close> are computations over
  the etcd client. \<open>_execute\<close> runs a worker and, concurrently, a flusher that re-stores the job every
  two seconds; the interleaving of the two tasks is an explicit list of ticks.

  The ellipsis of the truncation mark is outside the modelled code points and is written as the one
  character \<open>0x85\<close>, the dash of the stuck-job message as \<open>-\<close>.
\<close>

section \<open>Jobs and their JSON form\<close>

definition JOBS_PREFIX :: string where
  "JOBS_PREFIX = ''/cluster/jobs/''"

definition LOG_TAIL_LINES :: nat where
  "LOG_TAIL_LINES = 200"

definition LOG_LINE_CAP_CHARS :: nat where
  "LOG_LINE_CAP_CHARS = 4000"

record job =
  j_id :: string
  j_type :: string
  j_params :: obj
  j_state :: string
  j_progress :: rat
  j_started_at :: time
  j_finished_at :: "time option"
  j_error :: "string option"
  j_owner :: string
  j_logs :: "string list"
  j_last_heartbeat :: "time option"

fun json_opt :: "('a \<Rightarrow> json) \<Rightarrow> 'a option \<Rightarrow> json" where
  "json_opt f None = JNull"
| "json_opt f (Some x) = f x"

definition to_json :: "job \<Rightarrow> obj" where
  "to_json j =
     [(''id'', JStr (j_id j)),
      (''type'', JStr (j_type j)),
      (''params'', JObj (j_params j)),
      (''state'', JStr (j_state j)),
      (''progress'', JNum (j_progress j)),
      (''started_at'', JNum (j_started_at j)),
      (''finished_at'', json_opt JNum (j_finished_at j)),
      (''error'', json_opt JStr (j_error j)),
      (''owner'', JStr (j_owner j)),
      (''logs'', JArr (map JStr (j_logs j))),
      (''last_heartbeat'', json_opt JNum (j_last_heartbeat j))]"

text \<open>The value of a field at its declared type; \<open>None\<close> when the value has another type.\<close>

fun as_str :: "json option \<Rightarrow> string option" where
  "as_str (Some (JStr s)) = Some s"
| "as_str _ = None"

fun as_num :: "json option \<Rightarrow> rat option" where
  "as_num (Some (JNum r)) = Some r"
| "as_num _ = None"

fun as_obj :: "json option \<Rightarrow> obj option" where
  "as_obj (Some (JObj d)) = Some d"
| "as_obj _ = None"

fun as_opt :: "(json option \<Rightarrow> 'a option) \<Rightarrow> json option \<Rightarrow> 'a option option" where
  "as_opt f (Some JNull) = Some None"
| "as_opt f v = map_option Some (f v)"

fun as_strs :: "json option \<Rightarrow> string list option" where
  "as_strs None = Some []"
| "as_strs (Some (JArr js)) = those (map (\<lambda>j. as_str (Some j)) js)"
| "as_strs _ = None"

definition required_fields :: "string list" where
  "required_fields = [''id'', ''type'', ''params'', ''state'', ''progress'', ''started_at'',
     ''finished_at'', ''error'', ''owner'']"

text \<open>\<open>from_json\<close>: \<open>cls(**d)\<close> raises \<open>TypeError\<close> for a missing or an unexpected key; \<open>logs\<close> has a
  default and a missing \<open>last_heartbeat\<close> is filled in first. Entries are written by \<open>to_json\<close> only; one
  whose keys fit but whose values have other types than declared also counts as a \<open>TypeError\<close>.\<close>

definition from_json :: "obj \<Rightarrow> exn + job" where
  "from_json d0 =
     (let d = (if ''last_heartbeat'' \<in> set (keys d0) then d0 else d0 @ [(''last_heartbeat'', JNull)]) in
      if \<not> list_all (\<lambda>k. k \<in> set (required_fields @ [''logs'', ''last_heartbeat''])) (keys d) then
        Inl (TypeError ''unexpected keyword argument'')
      else if \<not> list_all (\<lambda>k. k \<in> set (keys d)) required_fields then
        Inl (TypeError ''missing required argument'')
      else
        (case (as_str (dict_get d ''id''), as_str (dict_get d ''type''), as_obj (dict_get d ''params''),
               as_str (dict_get d ''state''), as_num (dict_get d ''progress''),
               as_num (dict_get d ''started_at''), as_opt as_num (dict_get d ''finished_at''),
               as_opt as_str (dict_get d ''error''), as_str (dict_get d ''owner''),
               as_strs (dict_get d ''logs''), as_opt as_num (dict_get d ''last_heartbeat'')) of
           (Some i, Some ty, Some ps, Some st, Some pr, Some sa, Some fa, Some er, Some ow, Some lg, Some hb)
             \<Rightarrow> Inr \<lparr>j_id = i, j_type = ty, j_params = ps, j_state = st, j_progress = pr,
                     j_started_at = sa, j_finished_at = fa, j_error = er, j_owner = ow, j_logs = lg,
                     j_last_heartbeat = hb\<rparr>
         | _ \<Rightarrow> Inl (TypeError ''field type'')))"

section \<open>Worker registry\<close>

definition register_handler :: "string \<Rightarrow> 'h \<Rightarrow> 'h dict \<Rightarrow> 'h dict" where
  "register_handler job_type fn hs = dict_set job_type fn hs"

definition known_types :: "'h dict \<Rightarrow> string list" where
  "known_types hs = sort (keys hs)"

section \<open>The jobs manager\<close>

definition job_key :: "string \<Rightarrow> string" where
  "job_key jid = JOBS_PREFIX @ jid"

text \<open>\<open>create\<close>: the new job and the ids of the running tasks after it.\<close>

definition create_job ::
  "'w sys \<Rightarrow> 'h dict \<Rightarrow> bool \<Rightarrow> string \<Rightarrow> string list \<Rightarrow> string \<Rightarrow> obj \<Rightarrow> ('w, job \<times> string list) io" where
  "create_job sys hs is_leader node running job_type params =
     (if job_type \<notin> set (keys hs) then raise (ValueError ''unknown job type'')
      else if \<not> is_leader then raise (PermissionError ''only the leader may create jobs'')
      else
        bnd (uuid4 sys) (\<lambda>jid.
        bnd (now sys) (\<lambda>t.
          let job = \<lparr>j_id = jid, j_type = job_type, j_params = params, j_state = ''pending'',
                     j_progress = 0, j_started_at = t, j_finished_at = None, j_error = None,
                     j_owner = node, j_logs = [], j_last_heartbeat = None\<rparr>
          in bnd (etcd_put sys (job_key jid) (Json (to_json job)) None) (\<lambda>_.
             ret (job, jid # running)))))"

definition parse_entry :: "string option \<Rightarrow> string \<times> etcd_value \<Rightarrow> job list" where
  "parse_entry flt kv =
     (let jid = removeprefix (fst kv) JOBS_PREFIX in
      if CHR ''/'' \<in> set jid then []
      else (case json_loads (snd kv) of
              None \<Rightarrow> []
            | Some d \<Rightarrow>
                (case from_json d of
                   Inl e \<Rightarrow> []
                 | Inr j \<Rightarrow> if flt \<noteq> None \<and> Some (j_state j) \<noteq> flt then [] else [j])))"

definition list_jobs :: "'w sys \<Rightarrow> string option \<Rightarrow> ('w, job list) io" where
  "list_jobs sys flt =
     bnd (get_prefix sys JOBS_PREFIX) (\<lambda>all_keys.
       ret (sort_key (\<lambda>j. - j_started_at j) (concat (map (parse_entry flt) all_keys))))"

definition get_job :: "'w sys \<Rightarrow> string \<Rightarrow> ('w, job option) io" where
  "get_job sys jid =
     bnd (etcd_get sys (job_key jid)) (\<lambda>v.
       ret (case Option.bind v json_loads of
              None \<Rightarrow> None
            | Some d \<Rightarrow> (case from_json d of Inl e \<Rightarrow> None | Inr j \<Rightarrow> Some j)))"

text \<open>\<open>cancel\<close>: whether a task for the job was still running here, and so was asked to stop.\<close>

definition cancel_job :: "string list \<Rightarrow> (string \<Rightarrow> bool) \<Rightarrow> string \<Rightarrow> bool" where
  "cancel_job running finished jid \<longleftrightarrow> jid \<in> set running \<and> \<not> finished jid"

definition terminal :: "string \<Rightarrow> bool" where
  "terminal st \<longleftrightarrow> st \<in> {''done'', ''failed'', ''cancelled''}"

definition expired :: "time \<Rightarrow> job \<Rightarrow> bool" where
  "expired cutoff j \<longleftrightarrow> terminal (j_state j) \<and> (case j_finished_at j of None \<Rightarrow> False | Some f \<Rightarrow> f < cutoff)"

definition prune_one :: "'w sys \<Rightarrow> time \<Rightarrow> job \<Rightarrow> nat \<Rightarrow> ('w, nat) io" where
  "prune_one sys cutoff j deleted =
     (if \<not> expired cutoff j then ret deleted
      else try_except (bnd (etcd_delete sys (job_key (j_id j))) (\<lambda>_. ret (deleted + 1)))
             (\<lambda>_. ret deleted))"

definition prune_old :: "'w sys \<Rightarrow> int \<Rightarrow> ('w, nat) io" where
  "prune_old sys retention_s =
     bnd (now sys) (\<lambda>t.
     bnd (list_jobs sys None) (\<lambda>js.
       fold_io (prune_one sys (t - of_int retention_s)) js 0))"

definition stale :: "time \<Rightarrow> job \<Rightarrow> bool" where
  "stale cutoff j \<longleftrightarrow> j_state j = ''running''
     \<and> (case j_last_heartbeat j of None \<Rightarrow> True | Some h \<Rightarrow> h < cutoff)"

definition stuck_error :: "string \<Rightarrow> int \<Rightarrow> string" where
  "stuck_error age timeout_s =
     ''owner died (heartbeat age='' @ age @ ''; timeout='' @ str_of_int timeout_s
       @ ''s) - job presumed stuck after daemon loss''"

definition mark_stuck :: "'w sys \<Rightarrow> int \<Rightarrow> time \<Rightarrow> job \<Rightarrow> nat \<Rightarrow> ('w, nat) io" where
  "mark_stuck sys timeout_s cutoff j marked =
     (if \<not> stale cutoff j then ret marked
      else
        bnd (case j_last_heartbeat j of
               None \<Rightarrow> ret ''never''
             | Some h \<Rightarrow> bnd (now sys) (\<lambda>t. ret (str_of_int (int_of_float (t - h)) @ ''s''))) (\<lambda>age.
        bnd (now sys) (\<lambda>t.
          let j' = j\<lparr>j_state := ''failed'', j_finished_at := Some t,
                     j_error := Some (stuck_error age timeout_s)\<rparr>
          in try_except (bnd (etcd_put sys (job_key (j_id j)) (Json (to_json j')) None) (\<lambda>_. ret (marked + 1)))
               (\<lambda>_. ret marked))))"

definition prune_stuck_running :: "'w sys \<Rightarrow> int \<Rightarrow> ('w, nat) io" where
  "prune_stuck_running sys timeout_s =
     bnd (now sys) (\<lambda>t.
     bnd (list_jobs sys None) (\<lambda>js.
       fold_io (mark_stuck sys timeout_s (t - of_int timeout_s)) js 0))"

section \<open>Execution\<close>

definition log_writer :: "string \<Rightarrow> job \<Rightarrow> job" where
  "log_writer line j =
     (let text = rstrip_by (\<lambda>c. c = CHR 0x0A) line;
          text = (if LOG_LINE_CAP_CHARS < length text
                  then take LOG_LINE_CAP_CHARS text @ CHR 0x85 # ''[truncated]'' else text);
          logs = j_logs j @ [text]
      in j\<lparr>j_logs := (if LOG_TAIL_LINES < length logs
                      then drop (length logs - LOG_TAIL_LINES) logs else logs)\<rparr>)"

definition progress_setter :: "rat \<Rightarrow> job \<Rightarrow> job" where
  "progress_setter p j = j\<lparr>j_progress := max 0 (min 1 p)\<rparr>"

text \<open>What happens between the start of the worker and its end, in the order it happens: the worker
  logs, reports progress or acts on the outside; the flusher wakes up.\<close>

datatype 'w tick = T_log string | T_progress rat | T_work "'w \<Rightarrow> 'w" | T_flush

datatype outcome = Returned | Was_cancelled | Raised exn

definition exn_text :: "exn \<Rightarrow> string" where
  "exn_text e =
     (case e of
        ValueError m \<Rightarrow> ''ValueError: '' @ m
      | PermissionError m \<Rightarrow> ''PermissionError: '' @ m
      | RuntimeError m \<Rightarrow> ''RuntimeError: '' @ m
      | TypeError m \<Rightarrow> ''TypeError: '' @ m
      | KeyError m \<Rightarrow> ''KeyError: '' @ m
      | AttributeError m \<Rightarrow> ''AttributeError: '' @ m
      | JoinError m \<Rightarrow> ''JoinError: '' @ m
      | HTTPStatusError n \<Rightarrow> ''HTTPStatusError: '' @ str_of_nat n
      | HTTPException n m \<Rightarrow> ''HTTPException: '' @ str_of_nat n @ '': '' @ m
      | JSONDecodeError \<Rightarrow> ''JSONDecodeError: ''
      | FileNotFoundError \<Rightarrow> ''FileNotFoundError: ''
      | CancelledError \<Rightarrow> ''CancelledError: ''
      | Diverges \<Rightarrow> [])"

fun exec_tick :: "'w sys \<Rightarrow> 'w tick \<Rightarrow> job \<Rightarrow> ('w, job) io" where
  "exec_tick sys (T_log l) j = ret (log_writer l j)"
| "exec_tick sys (T_progress p) j = ret (progress_setter p j)"
| "exec_tick sys (T_work f) j = (\<lambda>s. (Inr j, s\<lparr>st_world := f (st_world s)\<rparr>))"
| "exec_tick sys T_flush j =
     bnd (now sys) (\<lambda>t.
       let j' = j\<lparr>j_last_heartbeat := Some t\<rparr>
       in try_except (bnd (etcd_put sys (job_key (j_id j)) (Json (to_json j')) None) (\<lambda>_. ret j'))
            (\<lambda>_. ret j'))"

fun set_outcome :: "outcome \<Rightarrow> job \<Rightarrow> job" where
  "set_outcome Returned j = j\<lparr>j_state := ''done'', j_progress := 1\<rparr>"
| "set_outcome Was_cancelled j = j\<lparr>j_state := ''cancelled''\<rparr>"
| "set_outcome (Raised e) j = j\<lparr>j_state := ''failed'', j_error := Some (exn_text e)\<rparr>"

text \<open>\<open>_execute\<close>: the job as left in memory, and whether \<open>CancelledError\<close> is re-raised. The first
  \<open>put\<close> stands outside the \<open>try\<close> of the source; the final one is in its \<open>finally\<close>.\<close>

definition execute :: "'w sys \<Rightarrow> 'w tick list \<Rightarrow> outcome \<Rightarrow> job \<Rightarrow> ('w, job \<times> bool) io" where
  "execute sys ticks out j0 =
     bnd (now sys) (\<lambda>t.
       let j1 = j0\<lparr>j_state := ''running'', j_last_heartbeat := Some t\<rparr> in
       bnd (etcd_put sys (job_key (j_id j1)) (Json (to_json j1)) None) (\<lambda>_.
       bnd (fold_io (exec_tick sys) ticks j1) (\<lambda>j2.
       bnd (now sys) (\<lambda>t'.
         let j3 = (set_outcome out j2)\<lparr>j_finished_at := Some t'\<rparr> in
         bnd (try_except (etcd_put sys (job_key (j_id j3)) (Json (to_json j3)) None) (\<lambda>_. ret ())) (\<lambda>_.
           ret (j3, out = Was_cancelled))))))"

section \<open>The stored jobs\<close>

text \<open>The job a store holds under an id, as \<open>get\<close> and \<open>list_jobs\<close> read it.\<close>

definition job_view :: "(string \<rightharpoonup> etcd_value) \<Rightarrow> string \<Rightarrow> job option" where
  "job_view m jid =
     (case m (job_key jid) of
        Some (Json d) \<Rightarrow> (case from_json d of Inr j \<Rightarrow> Some j | Inl e \<Rightarrow> None)
      | _ \<Rightarrow> None)"

text \<open>Every stored job carries the id of its key.\<close>

definition jobs_wf :: "(string \<rightharpoonup> etcd_value) \<Rightarrow> bool" where
  "jobs_wf m \<longleftrightarrow> (\<forall>jid j. job_view m jid = Some j \<longrightarrow> j_id j = jid)"

text \<open>The jobs a listing shows: sub-keys of a job are skipped.\<close>

definition listed :: "(string \<rightharpoonup> etcd_value) \<Rightarrow> job \<Rightarrow> bool" where
  "listed m j \<longleftrightarrow> (\<exists>jid. CHR ''/'' \<notin> set jid \<and> job_view m jid = Some j)"

lemma JOBS_PREFIX_ok [simp]: "JOBS_PREFIX \<noteq> []" "ord_chr (last JOBS_PREFIX) < 255"
  by (simp_all add: JOBS_PREFIX_def ord_chr_def)

lemma job_key_simps [simp]: "job_key a = job_key b \<longleftrightarrow> a = b" "startswith (job_key a) JOBS_PREFIX"
  "removeprefix (job_key a) JOBS_PREFIX = a"
  by (simp_all add: job_key_def)

lemma job_key_plain: "prefix_free L JOBS_PREFIX \<Longrightarrow> job_key a \<notin> L"
  by (auto simp: prefix_free_def)

lemma those_JStr [simp]: "those (map (\<lambda>x. Some x) ls) = Some ls"
  by (induction ls) auto

lemma as_opt_json_opt [simp]:
  "as_opt as_num (Some (json_opt JNum v)) = Some v" "as_opt as_str (Some (json_opt JStr e)) = Some e"
  by (cases v; simp) (cases e; simp)

lemma from_to_json [simp]: "from_json (to_json j) = Inr j"
  by (simp add: from_json_def to_json_def required_fields_def keys_def comp_def)

lemma job_view_Some:
  "job_view m jid = Some j \<longleftrightarrow> (\<exists>d. m (job_key jid) = Some (Json d) \<and> from_json d = Inr j)"
  by (auto simp: job_view_def split: option.splits etcd_value.splits sum.splits)

lemma job_view_upd [simp]:
  "job_view (m(job_key a \<mapsto> Json (to_json j))) b = (if b = a then Some j else job_view m b)"
  by (simp add: job_view_def)

lemma job_view_del [simp]: "job_view (m(job_key a := None)) b = (if b = a then None else job_view m b)"
  by (simp add: job_view_def)

lemma job_view_cong: "m (job_key a) = m' (job_key a) \<Longrightarrow> job_view m a = job_view m' a"
  by (simp add: job_view_def)

section \<open>Listing\<close>

lemma parse_entry_iff:
  "j \<in> set (parse_entry flt (job_key jid, v)) \<longleftrightarrow>
     CHR ''/'' \<notin> set jid \<and> (\<exists>d. v = Json d \<and> from_json d = Inr j)
     \<and> (flt = None \<or> flt = Some (j_state j))"
proof (cases v)
  case (Json d)
  then show ?thesis by (cases "from_json d"; cases flt) (auto simp: parse_entry_def)
qed (simp add: parse_entry_def)

lemma parse_entry_short: "parse_entry flt kv = [] \<or> (\<exists>j. parse_entry flt kv = [j])"
  by (auto simp: parse_entry_def Let_def split: option.splits sum.splits)

lemma distinct_parse:
  assumes "distinct (map fst raw)"
    and "\<And>kv j. kv \<in> set raw \<Longrightarrow> j \<in> set (parse_entry flt kv) \<Longrightarrow> fst kv = job_key (j_id j)"
  shows "distinct (map j_id (concat (map (parse_entry flt) raw)))"
  using assms
proof (induction raw)
  case Nil
  then show ?case by simp
next
  case (Cons kv raw)
  have "j_id j \<notin> j_id ` set (concat (map (parse_entry flt) raw))" if "j \<in> set (parse_entry flt kv)" for j
  proof
    assume "j_id j \<in> j_id ` set (concat (map (parse_entry flt) raw))"
    then obtain kv' j' where "kv' \<in> set raw" "j' \<in> set (parse_entry flt kv')" "j_id j' = j_id j" by auto
    then have "fst kv' = fst kv" using Cons.prems(2) [of kv j] Cons.prems(2) [of kv' j'] that by simp
    moreover have "fst kv' \<in> fst ` set raw" using \<open>kv' \<in> set raw\<close> by simp
    ultimately show False using Cons.prems(1) by simp
  qed
  then show ?case using Cons parse_entry_short [of flt kv] by auto
qed

context kv_store
begin

lemma list_jobs_wp:
  assumes L: "prefix_free leased JOBS_PREFIX"
  shows "wp (list_jobs sys flt)
    (\<lambda>js t. kv (st_world t) = kv (st_world s)
       \<and> sorted_wrt (\<lambda>a b. j_started_at a \<ge> j_started_at b) js
       \<and> (\<forall>j. j \<in> set js \<longleftrightarrow> listed (kv (st_world s)) j \<and> (flt = None \<or> flt = Some (j_state j)))
       \<and> (jobs_wf (kv (st_world s)) \<longrightarrow> distinct (map j_id js)))
    (\<lambda>e t. is_Exception e \<and> kv (st_world t) = kv (st_world s)) s"
  unfolding list_jobs_def wp_bnd
proof (rule wp_mono [OF get_prefix_spec [OF JOBS_PREFIX_ok L]], goal_cases)
  case (1 raw t)
  let ?m = "kv (st_world s)" and ?js = "concat (map (parse_entry flt) raw)"
  have ok: "dict_ok raw" and get: "dict_get raw k = (if startswith k JOBS_PREFIX then ?m k else None)" for k
    using 1 by auto
  have raw: "(k, v) \<in> set raw \<longleftrightarrow> (\<exists>jid. k = job_key jid \<and> ?m (job_key jid) = Some v)" for k v
    unfolding dict_get_Some_iff [OF ok, symmetric] get
    by (auto simp: job_key_def split: if_splits elim: startswithE)
  have mem: "j \<in> set ?js \<longleftrightarrow> listed ?m j \<and> (flt = None \<or> flt = Some (j_state j))" for j
  proof -
    have "j \<in> set ?js \<longleftrightarrow> (\<exists>jid v. ?m (job_key jid) = Some v \<and> j \<in> set (parse_entry flt (job_key jid, v)))"
      using raw by (auto; blast)
    then show ?thesis
      by (auto simp: parse_entry_iff listed_def job_view_Some)
  qed
  have "distinct (map j_id ?js)" if "jobs_wf ?m"
  proof (rule distinct_parse)
    show "distinct (map fst raw)" using ok by (simp add: dict_ok_def keys_def)
    fix e j assume a: "e \<in> set raw" "j \<in> set (parse_entry flt e)"
    then obtain jid v where "e = (job_key jid, v)" "?m (job_key jid) = Some v"
      using raw [of "fst e" "snd e"] by auto (metis prod.collapse)
    with a that show "fst e = job_key (j_id j)"
      by (auto simp: parse_entry_iff jobs_wf_def job_view_Some)
  qed
  moreover have "distinct (map j_id (sort_key (\<lambda>j. - j_started_at j) ?js)) = distinct (map j_id ?js)"
    by (simp add: distinct_map)
  moreover have "sorted_wrt (\<lambda>a b. j_started_at a \<ge> j_started_at b) (sort_key (\<lambda>j. - j_started_at j) ?js)"
    using sorted_sort_key [of "\<lambda>j. - j_started_at j" ?js] by (simp add: sorted_map)
  ultimately show ?case using 1 mem by (simp add: wp_simps)
qed auto

end

section \<open>Pruning\<close>

lemma expired_terminal: "expired c j \<Longrightarrow> terminal (j_state j) \<and> j_finished_at j \<noteq> None"
  by (auto simp: expired_def split: option.splits)

lemma expired_not_stale: "expired c j \<Longrightarrow> \<not> stale c' j"
  by (auto simp: expired_def terminal_def stale_def)

definition stuck_value :: "int \<Rightarrow> job \<Rightarrow> etcd_value option \<Rightarrow> bool" where
  "stuck_value timeout_s j v \<longleftrightarrow>
     (\<exists>f age. v = Some (Json (to_json (j\<lparr>j_state := ''failed'', j_finished_at := Some f,
                  j_error := Some (stuck_error age timeout_s)\<rparr>))))"

text \<open>
  Both sweeps go over the listed jobs and write, for the jobs \<open>P\<close> selects, a value \<open>R\<close> allows under
  the job's key, counting the writes that etcd confirms. The keys of all other jobs stay as they are.
\<close>

definition swept :: "bool \<Rightarrow> (job \<Rightarrow> bool) \<Rightarrow> (job \<Rightarrow> etcd_value option \<Rightarrow> bool) \<Rightarrow> job
    \<Rightarrow> nat \<Rightarrow> (string \<rightharpoonup> etcd_value) \<Rightarrow> nat \<Rightarrow> (string \<rightharpoonup> etcd_value) \<Rightarrow> bool" where
  "swept up P R j n m n' m' \<longleftrightarrow>
     (if P j then
        \<exists>v. R j v \<and> (n' = n + 1 \<and> m' = m(job_key (j_id j) := v)
           \<or> n' = n \<and> \<not> up \<and> (m' = m \<or> m' = m(job_key (j_id j) := v)))
      else n' = n \<and> m' = m)"

definition swept_all :: "bool \<Rightarrow> (job \<Rightarrow> bool) \<Rightarrow> (job \<Rightarrow> etcd_value option \<Rightarrow> bool) \<Rightarrow> job list
    \<Rightarrow> nat \<Rightarrow> (string \<rightharpoonup> etcd_value) \<Rightarrow> nat \<Rightarrow> (string \<rightharpoonup> etcd_value) \<Rightarrow> bool" where
  "swept_all up P R js n m n' m' \<longleftrightarrow>
     (\<exists>D \<subseteq> {j \<in> set js. P j}. n' = n + card D \<and> (up \<longrightarrow> D = {j \<in> set js. P j})
        \<and> (\<forall>j \<in> D. R j (m' (job_key (j_id j)))))
     \<and> (\<forall>j \<in> set js. P j \<longrightarrow> m' (job_key (j_id j)) = m (job_key (j_id j)) \<or> R j (m' (job_key (j_id j))))
     \<and> (\<forall>k. (\<forall>j \<in> set js. P j \<longrightarrow> k \<noteq> job_key (j_id j)) \<longrightarrow> m' k = m k)"

lemma swept_all_Cons:
  assumes step: "swept up P R j n m n1 m1" and rest: "swept_all up P R js n1 m1 n' m'"
    and new: "j_id j \<notin> j_id ` set js"
  shows "swept_all up P R (j # js) n m n' m'"
proof -
  let ?S = "{i \<in> set js. P i}"
  obtain D where D: "D \<subseteq> ?S" "n' = n1 + card D" "up \<longrightarrow> D = ?S"
    "\<forall>i \<in> D. R i (m' (job_key (j_id i)))" using rest by (auto simp: swept_all_def)
  have "\<forall>i \<in> set js. P i \<longrightarrow> job_key (j_id j) \<noteq> job_key (j_id i)" using new by auto
  then have keep: "m' (job_key (j_id j)) = m1 (job_key (j_id j))"
    using rest unfolding swept_all_def by blast
  have ne: "i \<in> set js \<Longrightarrow> j_id i \<noteq> j_id j" for i using new by (metis imageI)
  then have other: "i \<in> set js \<Longrightarrow> m1 (job_key (j_id i)) = m (job_key (j_id i))" for i
    using step by (auto simp: swept_def split: if_splits)
  have fin: "finite D" "j \<notin> D" using D(1) new by (auto intro: finite_subset)
  have frame: "m' k = m k" if "\<forall>i \<in> set (j # js). P i \<longrightarrow> k \<noteq> job_key (j_id i)" for k
    using that rest step by (auto simp: swept_all_def swept_def split: if_splits)
  have each: "m' (job_key (j_id i)) = m (job_key (j_id i)) \<or> R i (m' (job_key (j_id i)))"
    if "i \<in> set (j # js)" "P i" for i
    using that rest other step keep by (auto simp: swept_all_def swept_def)
  have "\<exists>D' \<subseteq> {i \<in> set (j # js). P i}. n' = n + card D' \<and> (up \<longrightarrow> D' = {i \<in> set (j # js). P i})
      \<and> (\<forall>i \<in> D'. R i (m' (job_key (j_id i))))"
  proof (cases "P j \<and> n1 = n + 1")
    case True
    then have "R j (m' (job_key (j_id j)))" using step keep by (auto simp: swept_def)
    then show ?thesis using True D fin by (intro exI [of _ "insert j D"]) auto
  next
    case False
    then have "n1 = n" "up \<longrightarrow> \<not> P j" using step by (auto simp: swept_def split: if_splits)
    then show ?thesis using D by (intro exI [of _ D]) auto
  qed
  with frame each show ?thesis unfolding swept_all_def by blast
qed

context kv_store
begin

lemma delete_wp:
  "k \<notin> leased \<Longrightarrow> wp (etcd_delete sys k)
     (\<lambda>_ t. kv (st_world t) = (kv (st_world s))(k := None))
     (\<lambda>e t. is_Exception e \<and> \<not> always_up sys \<and> (kv (st_world t) = kv (st_world s)
              \<or> kv (st_world t) = (kv (st_world s))(k := None))) s"
  by (cases "always_up sys") (auto intro: wp_mono [OF wp_conj [OF delete_spec delete_up]] wp_mono [OF delete_spec])

lemma put_wp:
  "k \<notin> leased \<Longrightarrow> wp (etcd_put sys k v None)
     (\<lambda>_ t. kv (st_world t) = (kv (st_world s))(k \<mapsto> v))
     (\<lambda>e t. is_Exception e \<and> \<not> always_up sys \<and> (kv (st_world t) = kv (st_world s)
              \<or> kv (st_world t) = (kv (st_world s))(k \<mapsto> v))) s"
  by (cases "always_up sys") (auto intro: wp_mono [OF wp_conj [OF put_spec put_up]] wp_mono [OF put_spec])

lemma sweep_loop:
  assumes step: "\<And>j n s. wp (f j n)
      (\<lambda>n' t. swept (always_up sys) P R j n (kv (st_world s)) n' (kv (st_world t))) (\<lambda>_ _. False) s"
    and "distinct (map j_id js)"
  shows "wp (fold_io f js n)
    (\<lambda>n' t. swept_all (always_up sys) P R js n (kv (st_world s)) n' (kv (st_world t))) (\<lambda>_ _. False) s"
  using assms(2)
proof (induction js arbitrary: n s)
  case Nil
  then show ?case by (simp add: wp_simps swept_all_def)
next
  case (Cons j js)
  then have new: "j_id j \<notin> j_id ` set js" and d: "distinct (map j_id js)" by auto
  show ?case unfolding fold_io.simps wp_bnd
    by (rule wp_mono [OF step])
      (auto intro: wp_mono [OF Cons.IH [OF d]] swept_all_Cons [OF _ _ new])
qed

lemma prune_one_wp:
  assumes "prefix_free leased JOBS_PREFIX"
  shows "wp (prune_one sys cutoff j n)
    (\<lambda>n' t. swept (always_up sys) (expired cutoff) (\<lambda>_ v. v = None) j n (kv (st_world s)) n' (kv (st_world t)))
    (\<lambda>_ _. False) s"
proof (cases "expired cutoff j")
  case True
  then show ?thesis
    by (auto simp: prune_one_def wp_simps swept_def
        intro!: wp_mono [OF delete_wp [OF job_key_plain [OF assms]]])
qed (simp add: prune_one_def wp_simps swept_def)

lemma mark_stuck_wp:
  assumes "prefix_free leased JOBS_PREFIX"
  shows "wp (mark_stuck sys timeout_s cutoff j n)
    (\<lambda>n' t. swept (always_up sys) (stale cutoff) (stuck_value timeout_s) j n (kv (st_world s)) n' (kv (st_world t)))
    (\<lambda>_ _. False) s"
proof (cases "stale cutoff j")
  case True
  have put: "wp (try_except (bnd (etcd_put sys (job_key (j_id j)) v None) (\<lambda>_. ret (Suc n))) (\<lambda>_. ret n))
      (\<lambda>n' t'. swept (always_up sys) (stale cutoff) (stuck_value timeout_s) j n (kv (st_world s)) n' (kv (st_world t')))
      (\<lambda>_ _. False) t" if "kv (st_world t) = kv (st_world s)" "stuck_value timeout_s j (Some v)" for v t
    using that True
    by (auto simp: wp_simps swept_def intro!: wp_mono [OF put_wp [OF job_key_plain [OF assms]]])
  have err: "stuck_value timeout_s j (Some (Json (to_json (j\<lparr>j_state := ''failed'', j_finished_at := Some f,
      j_error := Some (stuck_error age timeout_s)\<rparr>))))" for f age
    by (auto simp: stuck_value_def)
  show ?thesis
    unfolding mark_stuck_def
    by (cases "j_last_heartbeat j")
      (simp_all add: True wp_bnd wp_ret wp_call now_def Let_def clock_spec put err)
qed (simp add: mark_stuck_def wp_simps swept_def)

end

section \<open>Execution\<close>

definition job_ok :: "job \<Rightarrow> bool" where
  "job_ok j \<longleftrightarrow> 0 \<le> j_progress j \<and> j_progress j \<le> 1 \<and> length (j_logs j) \<le> LOG_TAIL_LINES
     \<and> (\<forall>l \<in> set (j_logs j). length l \<le> LOG_LINE_CAP_CHARS + 12)"

text \<open>What a job keeps from its creation on.\<close>

definition same_job :: "job \<Rightarrow> job \<Rightarrow> bool" where
  "same_job j j' \<longleftrightarrow> j_id j' = j_id j \<and> j_type j' = j_type j \<and> j_params j' = j_params j
     \<and> j_started_at j' = j_started_at j \<and> j_owner j' = j_owner j"

lemma same_job_refl [simp]: "same_job j j"
  by (simp add: same_job_def)

lemma log_writer_ok: "job_ok j \<Longrightarrow> job_ok (log_writer l j)"
  by (auto simp: job_ok_def log_writer_def Let_def LOG_TAIL_LINES_def LOG_LINE_CAP_CHARS_def
      split: if_splits dest: in_set_dropD)

lemma progress_setter_ok: "job_ok j \<Longrightarrow> job_ok (progress_setter p j)"
  by (simp add: job_ok_def progress_setter_def)

lemma log_writer_same [simp]:
  "same_job j0 (log_writer l j) = same_job j0 j" "j_state (log_writer l j) = j_state j"
  "j_error (log_writer l j) = j_error j"
  by (simp_all add: log_writer_def same_job_def Let_def)

text \<open>The job while its worker runs: everything but logs, progress and heartbeat is fixed.\<close>

definition run_inv :: "job \<Rightarrow> job \<Rightarrow> bool" where
  "run_inv j0 j \<longleftrightarrow> same_job j0 j \<and> j_state j = ''running'' \<and> j_error j = j_error j0 \<and> (job_ok j0 \<longrightarrow> job_ok j)"

definition worker_quiet :: "('w \<Rightarrow> string \<rightharpoonup> etcd_value) \<Rightarrow> string \<Rightarrow> 'w tick list \<Rightarrow> bool" where
  "worker_quiet kv k ticks \<longleftrightarrow> (\<forall>f w. T_work f \<in> set ticks \<longrightarrow> kv (f w) k = kv w k)"

context kv_store
begin

text \<open>While the worker runs, the store holds some version of the running job.\<close>

lemma exec_tick_wp:
  assumes k: "job_key (j_id j0) \<notin> leased" and q: "worker_quiet kv (job_key (j_id j0)) [tk]"
    and j: "run_inv j0 j"
    and v: "\<exists>i. job_view (kv (st_world s)) (j_id j0) = Some i \<and> run_inv j0 i"
  shows "wp (exec_tick sys tk j)
    (\<lambda>j' t. run_inv j0 j' \<and> (\<exists>i. job_view (kv (st_world t)) (j_id j0) = Some i \<and> run_inv j0 i))
    (\<lambda>_ _. False) s"
proof (cases tk)
  case (T_log l)
  with j v show ?thesis by (auto simp: wp_simps run_inv_def intro: log_writer_ok)
next
  case (T_progress p)
  with j v show ?thesis
    by (auto simp: wp_simps run_inv_def same_job_def progress_setter_ok) (simp_all add: progress_setter_def)
next
  case (T_work f)
  with q have "kv (f (st_world s)) (job_key (j_id j0)) = kv (st_world s) (job_key (j_id j0))"
    by (simp add: worker_quiet_def)
  then have "job_view (kv (f (st_world s))) (j_id j0) = job_view (kv (st_world s)) (j_id j0)"
    by (rule job_view_cong)
  with T_work j v show ?thesis by (simp add: wp_def)
next
  case T_flush
  have id: "j_id j = j_id j0" using j by (simp add: run_inv_def same_job_def)
  have j': "run_inv j0 (j\<lparr>j_last_heartbeat := Some h\<rparr>)" for h
    using j by (simp add: run_inv_def same_job_def job_ok_def)
  show ?thesis unfolding T_flush exec_tick.simps wp_bnd now_def wp_call Let_def id
    using v j' by (auto simp: wp_simps clock_spec intro!: wp_mono [OF put_spec [OF k]])
qed

lemma exec_ticks_wp:
  assumes k: "job_key (j_id j0) \<notin> leased" and q: "worker_quiet kv (job_key (j_id j0)) ticks"
    and j: "run_inv j0 j"
    and v: "\<exists>i. job_view (kv (st_world s)) (j_id j0) = Some i \<and> run_inv j0 i"
  shows "wp (fold_io (exec_tick sys) ticks j)
    (\<lambda>j' t. run_inv j0 j' \<and> (\<exists>i. job_view (kv (st_world t)) (j_id j0) = Some i \<and> run_inv j0 i))
    (\<lambda>_ _. False) s"
  using q j v
proof (induction ticks arbitrary: j s)
  case Nil
  then show ?case by (simp add: wp_simps)
next
  case (Cons tk ticks)
  have q: "worker_quiet kv (job_key (j_id j0)) [tk]" "worker_quiet kv (job_key (j_id j0)) ticks"
    using Cons.prems(1) by (auto simp: worker_quiet_def)
  show ?case unfolding fold_io.simps wp_bnd
    by (rule wp_mono [OF exec_tick_wp [OF k q(1) Cons.prems(2,3)]]) (use Cons.IH q(2) in auto)
qed

end

text \<open>The job as \<open>_execute\<close> leaves it, whatever the worker did.\<close>

definition final_job :: "outcome \<Rightarrow> job \<Rightarrow> job \<Rightarrow> bool" where
  "final_job out j0 j \<longleftrightarrow> same_job j0 j \<and> j_finished_at j \<noteq> None \<and> (job_ok j0 \<longrightarrow> job_ok j)
     \<and> (case out of
          Returned \<Rightarrow> j_state j = ''done'' \<and> j_progress j = 1 \<and> j_error j = j_error j0
        | Was_cancelled \<Rightarrow> j_state j = ''cancelled'' \<and> j_error j = j_error j0
        | Raised e \<Rightarrow> j_state j = ''failed'' \<and> j_error j = Some (exn_text e))"

lemma final_job_run: "run_inv j0 j \<Longrightarrow> final_job out j0 ((set_outcome out j)\<lparr>j_finished_at := Some f\<rparr>)"
  by (cases out) (auto simp: final_job_def run_inv_def same_job_def job_ok_def)

lemma final_job_terminal: "final_job out j0 j \<Longrightarrow> terminal (j_state j) \<and> j_id j = j_id j0"
  by (auto simp: final_job_def terminal_def same_job_def split: outcome.splits)

context kv_store
begin

lemma execute_wp:
  assumes k: "job_key (j_id j0) \<notin> leased" and q: "worker_quiet kv (job_key (j_id j0)) ticks"
  shows "wp (execute sys ticks out j0)
    (\<lambda>r t. final_job out j0 (fst r) \<and> snd r = (out = Was_cancelled)
       \<and> (job_view (kv (st_world t)) (j_id j0) = Some (fst r)
          \<or> \<not> always_up sys \<and> (\<exists>i. job_view (kv (st_world t)) (j_id j0) = Some i \<and> run_inv j0 i)))
    (\<lambda>e t. is_Exception e \<and> \<not> always_up sys
       \<and> (job_view (kv (st_world t)) (j_id j0) = job_view (kv (st_world s)) (j_id j0)
          \<or> (\<exists>i. job_view (kv (st_world t)) (j_id j0) = Some i \<and> run_inv j0 i))) s"
proof -
  have j1: "run_inv j0 (j0\<lparr>j_state := ''running'', j_last_heartbeat := Some h\<rparr>)" for h
    by (simp add: run_inv_def same_job_def job_ok_def)
  have last: "wp (bnd (try_except (etcd_put sys (job_key (j_id j3)) (Json (to_json j3)) None) (\<lambda>_. ret ()))
         (\<lambda>_. ret (j3, out = Was_cancelled)))
      (\<lambda>r t. final_job out j0 (fst r) \<and> snd r = (out = Was_cancelled)
         \<and> (job_view (kv (st_world t)) (j_id j0) = Some (fst r)
            \<or> \<not> always_up sys \<and> (\<exists>i. job_view (kv (st_world t)) (j_id j0) = Some i \<and> run_inv j0 i)))
      E t'"
    if "final_job out j0 j3" "\<exists>i. job_view (kv (st_world t')) (j_id j0) = Some i \<and> run_inv j0 i" for j3 t' E
  proof -
    have id: "j_id j3 = j_id j0" using that(1) by (simp add: final_job_def same_job_def)
    show ?thesis unfolding wp_simps id
      by (rule wp_mono [OF put_wp [OF k]]) (use that in \<open>auto simp: wp_simps\<close>)
  qed
  have id1: "j_id (j0\<lparr>j_state := st, j_last_heartbeat := h\<rparr>) = j_id j0" for st h by simp
  show ?thesis
    unfolding execute_def wp_bnd now_def wp_call Let_def id1
  proof (rule wp_mono [OF put_wp [OF k]], goal_cases)
    case (1 u t)
    then have v: "\<exists>i. job_view (kv (st_world t)) (j_id j0) = Some i \<and> run_inv j0 i"
      using j1 by (auto simp: clock_spec)
    show ?case
    proof (rule wp_mono [OF exec_ticks_wp [OF k q j1 v]], goal_cases)
      case (1 j2 t2)
      then show ?case by (intro last [unfolded wp_bnd] final_job_run) (auto simp: clock_spec)
    qed auto
  next
    case (2 e t)
    then show ?case using j1 by (auto simp: clock_spec)
  qed
qed

end

context kv_store
begin

lemma prune_old_wp:
  assumes L: "prefix_free leased JOBS_PREFIX" and wf: "jobs_wf (kv (st_world s))"
  shows "wp (prune_old sys retention_s)
    (\<lambda>n t. \<exists>js. set js = {j. listed (kv (st_world s)) j}
       \<and> swept_all (always_up sys) (expired (fst (sys_time sys (st_world s)) - of_int retention_s))
           (\<lambda>_ v. v = None) js 0 (kv (st_world s)) n (kv (st_world t)))
    (\<lambda>e t. is_Exception e \<and> kv (st_world t) = kv (st_world s)) s"
  unfolding prune_old_def wp_bnd now_def wp_call
  by (rule wp_mono [OF list_jobs_wp [OF L]])
    (use wf in \<open>auto simp: clock_spec intro!: wp_mono [OF sweep_loop [OF prune_one_wp [OF L]]]\<close>)

lemma prune_stuck_wp:
  assumes L: "prefix_free leased JOBS_PREFIX" and wf: "jobs_wf (kv (st_world s))"
  shows "wp (prune_stuck_running sys timeout_s)
    (\<lambda>n t. \<exists>js. set js = {j. listed (kv (st_world s)) j}
       \<and> swept_all (always_up sys) (stale (fst (sys_time sys (st_world s)) - of_int timeout_s))
           (stuck_value timeout_s) js 0 (kv (st_world s)) n (kv (st_world t)))
    (\<lambda>e t. is_Exception e \<and> kv (st_world t) = kv (st_world s)) s"
  unfolding prune_stuck_running_def wp_bnd now_def wp_call
  by (rule wp_mono [OF list_jobs_wp [OF L]])
    (use wf in \<open>auto simp: clock_spec intro!: wp_mono [OF sweep_loop [OF mark_stuck_wp [OF L]]]\<close>)

end

section \<open>Properties\<close>

text \<open>A job survives its storage: \<open>from_json\<close> reads back the job \<open>to_json\<close> wrote; an entry of a
  daemon that did not know heartbeats is read with none; an entry with a key that is no field of the
  dataclass is refused.\<close>

theorem job_json_roundtrip:
  "from_json (to_json j) = Inr j
   \<and> from_json (dict_pop ''last_heartbeat'' (to_json j)) = Inr (j\<lparr>j_last_heartbeat := None\<rparr>)
   \<and> from_json (to_json j @ [(''retries'', v)]) = Inl (TypeError ''unexpected keyword argument'')"
proof (intro conjI)
  have "dict_pop ''last_heartbeat'' (to_json j) = take 10 (to_json j)"
    by (simp add: dict_pop_def to_json_def)
  then show "from_json (dict_pop ''last_heartbeat'' (to_json j)) = Inr (j\<lparr>j_last_heartbeat := None\<rparr>)"
    by (simp add: from_json_def to_json_def required_fields_def keys_def comp_def)
  show "from_json (to_json j @ [(''retries'', v)]) = Inl (TypeError ''unexpected keyword argument'')"
    by (simp add: from_json_def to_json_def required_fields_def keys_def)
qed simp

text \<open>A store with a finished, a running and a malformed job.\<close>

definition sample_job :: "string \<Rightarrow> string \<Rightarrow> time \<Rightarrow> job" where
  "sample_job jid st t = \<lparr>j_id = jid, j_type = ''rotate-token'', j_params = [], j_state = st, j_progress = 0,
     j_started_at = t, j_finished_at = (if terminal st then Some (t + 1) else None), j_error = None,
     j_owner = ''node-1'', j_logs = [], j_last_heartbeat = Some t\<rparr>"

definition job_world :: world where
  "job_world = world0\<lparr>w_clock := 100, w_kv :=
     [(job_key ''a'', Json (to_json (sample_job ''a'' ''done'' 10))),
      (job_key ''b'', Json (to_json (sample_job ''b'' ''running'' 20))),
      (job_key ''c'', Text ''junk'')]\<rparr>"

lemma job_world_view:
  "job_view (map_of (w_kv (st_world (start job_world)))) jid =
     (if jid = ''a'' then Some (sample_job ''a'' ''done'' 10)
      else if jid = ''b'' then Some (sample_job ''b'' ''running'' 20) else None)"
  by (simp add: job_view_def start_def job_world_def)

lemma listed_two:
  assumes "\<And>jid. job_view m jid = (if jid = a then Some A else if jid = b then Some B else None)"
    and "CHR ''/'' \<notin> set a" "CHR ''/'' \<notin> set b" "b \<noteq> a"
  shows "listed m j \<longleftrightarrow> j = A \<or> j = B"
proof -
  have "job_view m a = Some A" "job_view m b = Some B" using assms by auto
  then show ?thesis using assms unfolding listed_def
    by (metis option.distinct(1) option.inject)
qed

lemma filter_two:
  assumes "\<forall>j. j \<in> S \<longleftrightarrow> (j = A \<or> j = B) \<and> (Some st = None \<or> Some st = Some (j_state j))"
    and "j_state A \<noteq> st" "j_state B = st"
  shows "S = {B}"
  using assms by auto

lemma job_world_listed:
  "listed (map_of (w_kv (st_world (start job_world)))) j \<longleftrightarrow>
     j = sample_job ''a'' ''done'' 10 \<or> j = sample_job ''b'' ''running'' 20"
  by (rule listed_two [OF job_world_view]) simp_all

lemma job_world_wf: "jobs_wf (map_of (w_kv (st_world (start job_world))))"
  by (auto simp: jobs_wf_def job_world_view sample_job_def split: if_splits)

lemma lease_keys_jobs: "prefix_free lease_keys JOBS_PREFIX"
  by code_simp

text \<open>A listing is complete and ordered: against an etcd that behaves as documented, \<open>list_jobs\<close>
  returns exactly the stored entries that parse as jobs (entries with a \<open>/\<close> after the prefix are
  skipped), restricted to the requested state, newest first, and changes nothing.\<close>

theorem list_jobs_exact:
  assumes "etcd_gateway sys leased kv" and "prefix_free leased JOBS_PREFIX"
    and "list_jobs sys flt s = (Inr js, t)"
  shows "sorted_wrt (\<lambda>a b. j_started_at a \<ge> j_started_at b) js
    \<and> (\<forall>j. j \<in> set js \<longleftrightarrow> listed (kv (st_world s)) j \<and> (flt = None \<or> flt = Some (j_state j)))
    \<and> kv (st_world t) = kv (st_world s)"
  using wp_D_ok [OF kv_store.list_jobs_wp [OF etcd_gateway.client [OF assms(1)] assms(2)] assms(3)] by blast

theorem list_jobs_exact_witness:
  "\<exists>js t. list_jobs mem_sys (Some ''running'') (start job_world) = (Inr js, t)
     \<and> set js = {sample_job ''b'' ''running'' 20}"
proof -
  have "fst (list_jobs mem_sys (Some ''running'') (start job_world)) = Inr [sample_job ''b'' ''running'' 20]"
    by code_simp
  then obtain js t where e: "list_jobs mem_sys (Some ''running'') (start job_world) = (Inr js, t)"
    by (metis result_of)
  have "set js = {sample_job ''b'' ''running'' 20}"
    by (rule filter_two [where A = "sample_job ''a'' ''done'' 10"])
      (use list_jobs_exact [OF mem.etcd_gateway_axioms lease_keys_jobs e] in
        \<open>unfold job_world_listed, simp_all add: sample_job_def\<close>)
  with e show ?thesis by blast
qed

text \<open>C16. \<open>prune_old\<close> is safe and exact: it removes the entries of listed jobs that are done, failed or
  cancelled and finished before the cutoff, and touches no other key of the store (running and pending
  jobs included); it returns the number of confirmed deletes; when etcd answers, every such job is gone.\<close>

theorem prune_old_exact:
  assumes "etcd_gateway sys leased kv" and "prefix_free leased JOBS_PREFIX"
    and "jobs_wf (kv (st_world s))"
    and "prune_old sys retention_s s = (Inr n, t)"
  defines "old \<equiv> {j. listed (kv (st_world s)) j
                     \<and> expired (fst (sys_time sys (st_world s)) - of_int retention_s) j}"
  shows "(\<forall>k. k \<notin> (job_key \<circ> j_id) ` old \<longrightarrow> kv (st_world t) k = kv (st_world s) k)
    \<and> (\<exists>D \<subseteq> old. n = card D \<and> (\<forall>j \<in> D. kv (st_world t) (job_key (j_id j)) = None))
    \<and> (always_up sys \<longrightarrow> n = card old \<and> (\<forall>j \<in> old. kv (st_world t) (job_key (j_id j)) = None))"
proof -
  from wp_D_ok [OF kv_store.prune_old_wp [OF etcd_gateway.client [OF assms(1)] assms(2,3)] assms(4)]
  obtain js where js: "set js = {j. listed (kv (st_world s)) j}"
    and sw: "swept_all (always_up sys) (expired (fst (sys_time sys (st_world s)) - of_int retention_s))
      (\<lambda>_ v. v = None) js 0 (kv (st_world s)) n (kv (st_world t))" by blast
  have "{j \<in> set js. expired (fst (sys_time sys (st_world s)) - of_int retention_s) j} = old"
    by (auto simp: js old_def)
  with sw show ?thesis unfolding swept_all_def by (auto simp: js old_def)
qed

theorem prune_old_exact_witness:
  "\<exists>t. prune_old calm_sys 60 (start job_world) = (Inr 1, t)
     \<and> map_of (w_kv (st_world t)) (job_key ''a'') = None
     \<and> map_of (w_kv (st_world t)) (job_key ''b'') = Some (Json (to_json (sample_job ''b'' ''running'' 20)))"
proof -
  let ?s = "start job_world" and ?old = "{j. listed (map_of (w_kv (st_world (start job_world)))) j
    \<and> expired (fst (sys_time calm_sys (st_world (start job_world))) - of_int 60) j}"
  have "fst (prune_old calm_sys 60 ?s) = Inr 1" by code_simp
  then obtain t where e: "prune_old calm_sys 60 ?s = (Inr 1, t)" by (metis result_of)
  have old: "?old = {sample_job ''a'' ''done'' 10}"
    unfolding job_world_listed
    by (auto simp: sample_job_def expired_def terminal_def start_def job_world_def)
  note r = prune_old_exact [OF calm.etcd_gateway_axioms lease_keys_jobs job_world_wf e, unfolded old]
  have "map_of (w_kv (st_world t)) (job_key ''a'') = None"
    using r calm_up by (simp add: sample_job_def)
  moreover have "map_of (w_kv (st_world t)) (job_key ''b'') = map_of (w_kv (st_world ?s)) (job_key ''b'')"
    using r by (simp add: sample_job_def)
  moreover have "map_of (w_kv (st_world ?s)) (job_key ''b'') = Some (Json (to_json (sample_job ''b'' ''running'' 20)))"
    by (simp add: start_def job_world_def)
  ultimately show ?thesis using e by auto
qed



text \<open>C2. A job always comes to its end: whatever the worker logs, reports and does (short of writing the
  job's own key) and however the flusher interleaves with it, when etcd answers, \<open>_execute\<close> returns with
  the state that belongs to the worker's outcome, a finish time, progress and log tail within their
  bounds and the identity of the job kept, and etcd holds exactly that job.\<close>

theorem execute_completes:
  assumes "etcd_gateway sys leased kv" and "job_key (j_id j0) \<notin> leased"
    and "worker_quiet kv (job_key (j_id j0)) ticks" and "always_up sys" and "job_ok j0"
  shows "\<exists>j t. execute sys ticks out j0 s = (Inr (j, out = Was_cancelled), t)
    \<and> final_job out j0 j \<and> job_ok j \<and> job_view (kv (st_world t)) (j_id j0) = Some j"
proof -
  have "wp (execute sys ticks out j0)
      (\<lambda>r t. final_job out j0 (fst r) \<and> snd r = (out = Was_cancelled)
         \<and> job_view (kv (st_world t)) (j_id j0) = Some (fst r)) (\<lambda>_ _. False) s"
    by (rule wp_mono [OF kv_store.execute_wp [OF etcd_gateway.client [OF assms(1)] assms(2,3)]])
      (use assms(4) in auto)
  then obtain j t where "execute sys ticks out j0 s = (Inr (j, out = Was_cancelled), t)"
    "final_job out j0 j" "job_view (kv (st_world t)) (j_id j0) = Some j"
    by (auto simp: wp_def split: prod.splits sum.splits)
  then show ?thesis using assms(5) by (auto simp: final_job_def)
qed

definition sample_ticks :: "world tick list" where
  "sample_ticks = [T_log ''step 1'', T_progress (1/2), T_flush, T_work (\<lambda>w. w\<lparr>w_clock := w_clock w + 5\<rparr>), T_flush]"

theorem execute_completes_witness:
  "\<exists>j t. execute calm_sys sample_ticks (Raised (ValueError ''bad ip'')) (sample_job ''b'' ''pending'' 20)
        (start job_world) = (Inr (j, False), t)
     \<and> j_state j = ''failed'' \<and> j_error j = Some ''ValueError: bad ip''
     \<and> job_view (map_of (w_kv (st_world t))) ''b'' = Some j"
proof -
  let ?j = "sample_job ''b'' ''pending'' 20"
  have id: "j_id ?j = ''b''" by (simp add: sample_job_def)
  have k: "job_key (j_id ?j) \<notin> lease_keys" by (rule job_key_plain [OF lease_keys_jobs])
  have q: "worker_quiet (\<lambda>w. map_of (w_kv w)) (job_key (j_id ?j)) sample_ticks"
    by (simp add: worker_quiet_def sample_ticks_def)
  have ok: "job_ok ?j" by (simp add: job_ok_def sample_job_def)
  from execute_completes [OF calm.etcd_gateway_axioms k q calm_up ok,
      of "Raised (ValueError ''bad ip'')" "start job_world"]
  show ?thesis by (auto simp: id final_job_def exn_text_def)
qed



text \<open>Job creation is guarded, and quiet when refused: an unknown type or a daemon that is not the
  leader raises before any call to the outside; otherwise, if \<open>create\<close> returns, etcd holds the new job
  in state pending under its id and no other key has changed, and the job is registered as running.\<close>

theorem create_job_guarded:
  assumes "etcd_gateway sys leased kv" and "prefix_free leased JOBS_PREFIX"
    and "create_job sys hs is_leader node running job_type params s = (r, t)"
  shows "(job_type \<notin> set (keys hs) \<longrightarrow> (\<exists>m. r = Inl (ValueError m)) \<and> t = s)
    \<and> (job_type \<in> set (keys hs) \<and> \<not> is_leader \<longrightarrow> (\<exists>m. r = Inl (PermissionError m)) \<and> t = s)
    \<and> (\<forall>j ids. r = Inr (j, ids) \<longrightarrow> is_leader \<and> ids = j_id j # running
         \<and> j_state j = ''pending'' \<and> j_type j = job_type \<and> j_params j = params \<and> j_owner j = node
         \<and> job_ok j \<and> kv (st_world t) = (kv (st_world s))(job_key (j_id j) \<mapsto> Json (to_json j)))"
proof (cases "job_type \<in> set (keys hs) \<and> is_leader")
  case True
  note put = kv_store.put_spec [OF etcd_gateway.client [OF assms(1)] job_key_plain [OF assms(2)]]
  note quiet = kv_store.clock_spec [OF etcd_gateway.client [OF assms(1)]]
  have "wp (create_job sys hs is_leader node running job_type params)
      (\<lambda>x t. case x of (j, ids) \<Rightarrow> ids = j_id j # running
         \<and> j_state j = ''pending'' \<and> j_type j = job_type \<and> j_params j = params \<and> j_owner j = node
         \<and> job_ok j \<and> kv (st_world t) = (kv (st_world s))(job_key (j_id j) \<mapsto> Json (to_json j)))
      (\<lambda>_ _. True) s"
    using True unfolding create_job_def Let_def
    by (simp add: wp_bnd wp_call uuid4_def now_def)
      (rule wp_mono [OF put], auto simp: wp_ret quiet job_ok_def)
  from wp_D_ok [OF this] show ?thesis using True assms(3) by auto
next
  case False
  then have "job_type \<notin> set (keys hs) \<and> r = Inl (ValueError ''unknown job type'') \<and> t = s
      \<or> job_type \<in> set (keys hs) \<and> \<not> is_leader
        \<and> r = Inl (PermissionError ''only the leader may create jobs'') \<and> t = s"
    using assms(3) by (cases "job_type \<in> set (keys hs)") (simp_all add: create_job_def raise_def)
  then show ?thesis by auto
qed

theorem create_job_guarded_witness:
  "(\<exists>t. create_job mem_sys [(''rotate-token'', ())] True ''node-1'' [] ''rotate-token'' [] (start world0)
       = (Inr (sample_job ''job-0'' ''pending'' 0\<lparr>j_last_heartbeat := None\<rparr>, [''job-0'']), t)
     \<and> map_of (w_kv (st_world t)) (job_key ''job-0'')
       = Some (Json (to_json (sample_job ''job-0'' ''pending'' 0\<lparr>j_last_heartbeat := None\<rparr>))))"
proof -
  let ?j = "sample_job ''job-0'' ''pending'' 0\<lparr>j_last_heartbeat := None\<rparr>"
    and ?m = "create_job mem_sys [(''rotate-token'', ())] True ''node-1'' [] ''rotate-token'' [] (start world0)"
  have "fst ?m = Inr (?j, [''job-0''])" by code_simp
  then have e: "?m = (Inr (?j, [''job-0'']), snd ?m)" by (rule result_of)
  have "j_id ?j = ''job-0''" by (simp add: sample_job_def)
  with create_job_guarded [OF mem.etcd_gateway_axioms lease_keys_jobs e] e show ?thesis by auto
qed

end
