(* ===== verification/Leader.thy ===== *)
theory Leader
  imports Config Sim_World
begin

text \<open>
  \<open>src/daemon/leader.py\<close>: leader election by an etcd lease and an atomic create.

  The first part is the code of \<open>LeaderElector\<close> on one daemon, as computations over the etcd client;
  the readings of the stop event and the events of the watch, which come from other tasks and from
  etcd, are arguments. A \<open>while\<close> or \<open>async for\<close> that outlasts them is \<open>Diverges\<close>: still running.
  An attribute set before an exception keeps its value, so \<open>_cycle\<close> returns the elector together with
  the exception.

  The second part runs the electors of all peers against one etcd, as a step relation whose steps are
  the stretches of that code between two \<open>await\<close>s, with lease expiry, lost replies, crashes and the
  clock as further steps.
\<close>

section \<open>One elector\<close>

definition LEADER_KEY :: string where
  "LEADER_KEY = ''/cluster/leader''"

record elector =
  el_is_leader :: bool
  el_lease_id :: "int option"
  el_term_started_at :: "time option"
  el_stop :: bool
  el_skip_race_until :: time

definition new_elector :: elector where
  "new_elector = \<lparr>el_is_leader = False, el_lease_id = None, el_term_started_at = None, el_stop = False,
     el_skip_race_until = 0\<rparr>"

text \<open>The outcome of a computation as a value, so that the code after a \<open>try\<close> can go on.\<close>

definition reify :: "('w, 'a) io \<Rightarrow> ('w, exn + 'a) io" where
  "reify m = (\<lambda>s. (Inr (fst (m s)), snd (m s)))"

definition stop_elector :: "'w sys \<Rightarrow> elector \<Rightarrow> ('w, elector) io" where
  "stop_elector sys e =
     (let e1 = e\<lparr>el_stop := True\<rparr> in
      case el_lease_id e1 of
        None \<Rightarrow> ret e1
      | Some l \<Rightarrow> bnd (try_except (lease_revoke sys l) (\<lambda>_. ret ())) (\<lambda>_. ret e1))"

definition step_down :: "'w sys \<Rightarrow> time \<Rightarrow> elector \<Rightarrow> ('w, bool \<times> elector) io" where
  "step_down sys cooldown_s e =
     (case (el_is_leader e, el_lease_id e) of
        (True, Some old_lease) \<Rightarrow>
          try_except
            (bnd (lease_revoke sys old_lease) (\<lambda>_.
             bnd (now sys) (\<lambda>t. ret (True, e\<lparr>el_skip_race_until := t + cooldown_s\<rparr>))))
            (\<lambda>_. ret (False, e))
      | _ \<Rightarrow> ret (False, e))"

text \<open>\<open>_hold_leadership\<close>: \<open>stops\<close> are the readings of the stop event, one per round.\<close>

fun hold_leadership :: "'w sys \<Rightarrow> daemon_config \<Rightarrow> int \<Rightarrow> bool list \<Rightarrow> ('w, unit) io" where
  "hold_leadership sys cfg l [] = raise Diverges"
| "hold_leadership sys cfg l (True # stops) = ret ()"
| "hold_leadership sys cfg l (False # stops) =
     bnd (sleep sys (of_int (keepalive_interval_s cfg))) (\<lambda>_.
     bnd (try_except (bnd (lease_keepalive sys l) (\<lambda>ttl. ret (0 < ttl))) (\<lambda>_. ret False)) (\<lambda>alive.
       if alive then hold_leadership sys cfg l stops else ret ()))"

fun await_leader_change :: "event list \<Rightarrow> ('w, unit) io" where
  "await_leader_change [] = raise Diverges"
| "await_leader_change (ev # evs) =
     (if ev_key ev \<noteq> LEADER_KEY then await_leader_change evs
      else if ev_type ev = DELETE then ret ()
      else await_leader_change evs)"

definition leader_value :: "daemon_config \<Rightarrow> time \<Rightarrow> int \<Rightarrow> etcd_value" where
  "leader_value cfg t l =
     Json [(''node_name'', JStr (node_name cfg)), (''ip'', JStr (local_ip cfg)), (''since'', JNum t),
           (''lease_id'', JNum (of_int l)), (''ttl_s'', JNum (of_int (lease_ttl_s cfg)))]"

text \<open>The winner's branch: hold the lease, then reset in the \<open>finally\<close>.\<close>

definition lead :: "'w sys \<Rightarrow> daemon_config \<Rightarrow> bool list \<Rightarrow> int \<Rightarrow> elector \<Rightarrow> ('w, (exn + unit) \<times> elector) io" where
  "lead sys cfg stops l e =
     bnd (now sys) (\<lambda>t.
       let e' = e\<lparr>el_is_leader := True, el_term_started_at := Some t\<rparr> in
       bnd (reify (hold_leadership sys cfg l stops)) (\<lambda>r.
         ret (r, if r = Inl Diverges then e'
                 else e'\<lparr>el_is_leader := False, el_term_started_at := None\<rparr>)))"

definition follow :: "'w sys \<Rightarrow> event list \<Rightarrow> elector \<Rightarrow> ('w, (exn + unit) \<times> elector) io" where
  "follow sys evs e =
     (let e' = e\<lparr>el_is_leader := False\<rparr> in
      bnd (reify (bnd (etcd_get sys LEADER_KEY) (\<lambda>_. await_leader_change evs))) (\<lambda>r. ret (r, e')))"

definition cycle :: "'w sys \<Rightarrow> daemon_config \<Rightarrow> bool list \<Rightarrow> event list \<Rightarrow> elector
    \<Rightarrow> ('w, (exn + unit) \<times> elector) io" where
  "cycle sys cfg stops evs e =
     bnd (now sys) (\<lambda>t0.
       if t0 < el_skip_race_until e then
         bnd (reify (await_leader_change evs)) (\<lambda>r. ret (r, e\<lparr>el_is_leader := False\<rparr>))
       else
         bnd (reify (lease_grant sys (lease_ttl_s cfg))) (\<lambda>g.
           case g of
             Inl x \<Rightarrow> ret (Inl x, e)
           | Inr l \<Rightarrow>
               (let e1 = e\<lparr>el_lease_id := Some l\<rparr> in
                bnd (now sys) (\<lambda>t1.
                bnd (reify (put_if_absent sys LEADER_KEY (leader_value cfg t1 l) (Some l))) (\<lambda>won.
                  case won of
                    Inl x \<Rightarrow> ret (Inl x, e1)
                  | Inr True \<Rightarrow> lead sys cfg stops l e1
                  | Inr False \<Rightarrow> follow sys evs e1)))))"

definition next_backoff :: "time \<Rightarrow> time" where
  "next_backoff b = min (b * 2) 30"

text \<open>\<open>run\<close>, for the rounds that start before the stop event is set, each with its stop readings and
  watch events.\<close>

fun run_elector :: "'w sys \<Rightarrow> daemon_config \<Rightarrow> (bool list \<times> event list) list \<Rightarrow> time \<Rightarrow> elector
    \<Rightarrow> ('w, elector) io" where
  "run_elector sys cfg [] backoff e = ret e"
| "run_elector sys cfg ((stops, evs) # rounds) backoff e =
     bnd (cycle sys cfg stops evs e) (\<lambda>(r, e').
       case r of
         Inr _ \<Rightarrow> run_elector sys cfg rounds 1 e'
       | Inl x \<Rightarrow>
           if is_Exception x then
             bnd (sleep sys backoff) (\<lambda>_. run_elector sys cfg rounds (next_backoff backoff) e')
           else raise x)"

section \<open>Facts about one elector\<close>

lemma wp_reify [wp_simps]: "wp (reify m) Q E s = wp m (\<lambda>x. Q (Inr x)) (\<lambda>e. Q (Inl e)) s"
  by (simp add: wp_def reify_def split: prod.splits sum.splits)

lemmas wp_retI = wp_ret [THEN iffD2]

lemma next_backoff_iter: "(next_backoff ^^ n) 1 = min (2 ^ n) 30"
proof (induction n)
  case (Suc n)
  have "(1::rat) \<le> 2 ^ n" by simp
  then show ?case using Suc by (auto simp: next_backoff_def min_def)
qed simp

lemma await_wp:
  "wp (await_leader_change evs)
     (\<lambda>_ t. t = s \<and> (\<exists>ev \<in> set evs. ev_key ev = LEADER_KEY \<and> ev_type ev = DELETE))
     (\<lambda>x t. t = s \<and> x = Diverges \<and> (\<forall>ev \<in> set evs. ev_key ev = LEADER_KEY \<longrightarrow> ev_type ev \<noteq> DELETE)) s"
  by (induction evs) (auto simp: wp_simps intro: wp_mono)

lemma lead_wp:
  "wp (lead sys cfg stops l e)
     (\<lambda>r t. fst r \<noteq> Inl Diverges \<longrightarrow> \<not> el_is_leader (snd r) \<and> el_term_started_at (snd r) = None)
     (\<lambda>_ _. False) s"
  unfolding lead_def Let_def
  by (simp add: wp_bnd wp_call now_def wp_reify) (rule wp_all; simp add: wp_ret)

lemma follow_wp: "wp (follow sys evs e) (\<lambda>r t. \<not> el_is_leader (snd r)
    \<and> el_term_started_at (snd r) = el_term_started_at e) (\<lambda>_ _. False) s"
  unfolding follow_def Let_def
  by (simp add: wp_bnd wp_reify) (rule wp_retI, simp | rule wp_all)+

lemma cycle_wp:
  assumes "\<not> el_is_leader e" "el_term_started_at e = None"
  shows "wp (cycle sys cfg stops evs e)
    (\<lambda>r t. fst r \<noteq> Inl Diverges \<longrightarrow> \<not> el_is_leader (snd r) \<and> el_term_started_at (snd r) = None)
    (\<lambda>_ _. False) s"
proof -
  have race: "wp (case won of Inl x \<Rightarrow> ret (Inl x, e1) | Inr True \<Rightarrow> lead sys cfg stops l e1
        | Inr False \<Rightarrow> follow sys evs e1)
      (\<lambda>r t. fst r \<noteq> Inl Diverges \<longrightarrow> \<not> el_is_leader (snd r) \<and> el_term_started_at (snd r) = None)
      (\<lambda>_ _. False) t" if "\<not> el_is_leader e1" "el_term_started_at e1 = None" for won l e1 t
    using that
    by (auto simp: wp_ret lead_wp split: sum.split bool.split intro: wp_mono [OF follow_wp])
  have claim: "wp (reify (put_if_absent sys LEADER_KEY v (Some l)))
      (\<lambda>won. wp (case won of Inl x \<Rightarrow> ret (Inl x, e1) | Inr True \<Rightarrow> lead sys cfg stops l e1
        | Inr False \<Rightarrow> follow sys evs e1)
      (\<lambda>r t. fst r \<noteq> Inl Diverges \<longrightarrow> \<not> el_is_leader (snd r) \<and> el_term_started_at (snd r) = None)
      (\<lambda>_ _. False)) (\<lambda>_ _. False) t" if "\<not> el_is_leader e1" "el_term_started_at e1 = None" for v l e1 t
    unfolding wp_reify by (rule wp_all; rule race [OF that])
  have grant: "wp (reify (lease_grant sys ttl)) Q (\<lambda>_ _. False) t" if "\<And>g t. Q g t" for ttl Q and t :: "'a st"
    unfolding wp_reify by (rule wp_all; rule that)
  show ?thesis
  proof (cases "fst (sys_time sys (st_world s)) < el_skip_race_until e")
    case True
    then show ?thesis unfolding cycle_def using assms
      by (simp add: wp_bnd wp_call now_def wp_reify) (rule wp_all; simp add: wp_ret)
  next
    case False
    then show ?thesis unfolding cycle_def Let_def using assms
      by (simp add: wp_bnd wp_call now_def)
        (rule grant, auto simp: wp_ret wp_bnd wp_call claim split: sum.split)
  qed
qed

section \<open>Properties of one elector\<close>

text \<open>C26. Leadership ends with the round: however \<open>_cycle\<close> ends (the lease lost, a stop, a follower's
  wake-up, an exception of any call), a daemon that entered it as a follower leaves it as a follower,
  with no term; and \<open>_cycle\<close> never loses the elector's state to an exception.\<close>

theorem cycle_ends_as_follower:
  assumes "\<not> el_is_leader e" and "el_term_started_at e = None"
  shows "\<exists>r e' t. cycle sys cfg stops evs e s = (Inr (r, e'), t)
    \<and> (r \<noteq> Inl Diverges \<longrightarrow> \<not> el_is_leader e' \<and> el_term_started_at e' = None)"
  using cycle_wp [OF assms, of sys cfg stops evs s]
  by (auto simp: wp_def split: prod.splits sum.splits)

definition sample_cfg :: daemon_config where
  "sample_cfg = default_config ''c'' ''node-1'' ''10.0.0.1'' ''secret'' ''http://10.0.0.1:2379''"

theorem cycle_ends_as_follower_witness:
  "\<exists>e' t. cycle mem_sys sample_cfg [False, False, True] [] new_elector (start world0) = (Inr (Inr (), e'), t)
     \<and> \<not> el_is_leader e' \<and> el_lease_id e' = Some 1"
proof -
  let ?c = "cycle mem_sys sample_cfg [False, False, True] [] new_elector (start world0)"
  have f: "fst ?c = Inr (Inr (), new_elector\<lparr>el_lease_id := Some 1\<rparr>)" by code_simp
  have "\<not> el_is_leader new_elector" "el_term_started_at new_elector = None" by code_simp+
  from cycle_ends_as_follower [OF this, of mem_sys sample_cfg "[False, False, True]" "[]" "start world0"]
  obtain r e' t where c: "?c = (Inr (r, e'), t)"
    and l: "r \<noteq> Inl Diverges \<longrightarrow> \<not> el_is_leader e' \<and> el_term_started_at e' = None" by blast
  from c f have re: "r = Inr ()" "e' = new_elector\<lparr>el_lease_id := Some 1\<rparr>" by simp_all
  show ?thesis using c l unfolding re by (intro exI conjI) auto
qed

text \<open>A daemon that stepped down abstains: while its cooldown lasts, a round sends etcd nothing at
  all, neither a lease nor a claim, and ends only on a delete of the leader key.\<close>

theorem cooldown_abstains:
  assumes "fst (sys_time sys (st_world s)) < el_skip_race_until e"
    and "cycle sys cfg stops evs e s = (Inr (r, e'), t)"
  shows "st_trace t = st_trace s @ [A_time] \<and> e' = e\<lparr>el_is_leader := False\<rparr>
    \<and> (r = Inr () \<longleftrightarrow> (\<exists>ev \<in> set evs. ev_key ev = LEADER_KEY \<and> ev_type ev = DELETE))"
proof -
  let ?s = "s\<lparr>st_trace := st_trace s @ [A_time], st_world := snd (sys_time sys (st_world s))\<rparr>"
  have "wp (cycle sys cfg stops evs e)
      (\<lambda>x t. t = ?s \<and> snd x = e\<lparr>el_is_leader := False\<rparr>
        \<and> (fst x = Inr () \<longleftrightarrow> (\<exists>ev \<in> set evs. ev_key ev = LEADER_KEY \<and> ev_type ev = DELETE)))
      (\<lambda>_ _. False) s"
    unfolding cycle_def using assms(1)
    by (simp add: wp_bnd wp_call now_def wp_reify) (rule wp_mono [OF await_wp], auto simp: wp_ret)
  from wp_D_ok [OF this assms(2)] show ?thesis by simp
qed

theorem cooldown_abstains_witness:
  "\<exists>r e' t. cycle mem_sys sample_cfg [] [] (new_elector\<lparr>el_skip_race_until := 20\<rparr>) (start world0) = (Inr (r, e'), t)
     \<and> st_trace t = [A_time] \<and> r \<noteq> Inr ()"
proof -
  let ?e = "new_elector\<lparr>el_skip_race_until := 20\<rparr>"
  let ?c = "cycle mem_sys sample_cfg [] [] ?e (start world0)"
  have "fst ?c = Inr (Inl Diverges, ?e)" by code_simp
  then have c: "?c = (Inr (Inl Diverges, ?e), snd ?c)" by (rule result_of)
  have t: "fst (sys_time mem_sys (st_world (start world0))) < el_skip_race_until ?e" by code_simp
  have "st_trace (snd ?c) = st_trace (start world0) @ [A_time]"
    using cooldown_abstains [OF t c] by blast
  then have "st_trace (snd ?c) = [A_time]" by (simp add: start_def)
  then show ?thesis using c by (intro exI conjI) auto
qed

end
