(* ===== verification/Election.thy ===== *)
theory Election
  imports Leader
begin

text \<open>
  The electors of all peers against one etcd (\<open>src/daemon/leader.py\<close>, seen from above).

  Each daemon is at one of the points of \<open>_cycle\<close> where it waits: at the head of the loop of \<open>run\<close>,
  between the lease grant and the claim, holding the lease, between the lost claim and the start of
  the watch, and in the watch. A step is what happens at one of these points, or a lease that ends, a
  daemon that crashes and restarts, or time that passes. etcd holds the leader key with the lease it
  is attached to, and the leases that are alive; a lease may end at any moment, since nothing bounds the
  delay of a keepalive. A reply may be lost after its request took effect.

  A watch is opened without a start revision, so it reports only deletes that come after it.
\<close>

section \<open>States and steps\<close>

datatype pc = Head | Race | Hold | Lost | Watch | Halted

record daemon =
  d_pc :: pc
  d_is_leader :: bool
  d_lease :: "nat option"
  d_event :: bool
  d_skip_until :: time
  d_stop :: bool

record cluster =
  c_members :: "string set"
  c_key :: "(string \<times> nat) option"
  c_live :: "nat set"
  c_next :: nat
  c_now :: time
  c_daemon :: "string \<Rightarrow> daemon"

definition daemon0 :: daemon where
  "daemon0 = \<lparr>d_pc = Head, d_is_leader = False, d_lease = None, d_event = False, d_skip_until = 0, d_stop = False\<rparr>"

definition cluster0 :: "string set \<Rightarrow> cluster" where
  "cluster0 ns = \<lparr>c_members = ns, c_key = None, c_live = {}, c_next = 1, c_now = 1, c_daemon = (\<lambda>_. daemon0)\<rparr>"

definition set_daemon :: "string \<Rightarrow> (daemon \<Rightarrow> daemon) \<Rightarrow> cluster \<Rightarrow> cluster" where
  "set_daemon n f c = c\<lparr>c_daemon := (c_daemon c)(n := f (c_daemon c n))\<rparr>"

text \<open>The end of a lease, by expiry or revocation: the leader key goes with it, and every open watch
  sees the delete.\<close>

definition end_lease :: "nat \<Rightarrow> cluster \<Rightarrow> cluster" where
  "end_lease l c =
     (if (\<exists>n. c_key c = Some (n, l)) then
        c\<lparr>c_live := c_live c - {l}, c_key := None,
          c_daemon := (\<lambda>n. (c_daemon c n)\<lparr>d_event := d_event (c_daemon c n) \<or> d_pc (c_daemon c n) = Watch\<rparr>)\<rparr>
      else c\<lparr>c_live := c_live c - {l}\<rparr>)"

definition new_lease :: "cluster \<Rightarrow> cluster" where
  "new_lease c = c\<lparr>c_live := insert (c_next c) (c_live c), c_next := c_next c + 1\<rparr>"

datatype move =
    Cooldown string | Grant string | Grant_lost | Win string | Win_unseen string pc | Lose string
  | Race_error string | Follow string | Follow_error string | Notice string | Hold_end string
  | Expire nat | Step_down string time | Stop string | Halt string | Restart string | Tick time

inductive cstep :: "move \<Rightarrow> cluster \<Rightarrow> cluster \<Rightarrow> bool" where
  cooldown: "n \<in> c_members c \<Longrightarrow> d_pc (c_daemon c n) = Head \<Longrightarrow> \<not> d_stop (c_daemon c n)
     \<Longrightarrow> c_now c < d_skip_until (c_daemon c n)
     \<Longrightarrow> cstep (Cooldown n) c (set_daemon n (\<lambda>d. d\<lparr>d_is_leader := False, d_pc := Watch, d_event := False\<rparr>) c)"
| grant: "n \<in> c_members c \<Longrightarrow> d_pc (c_daemon c n) = Head \<Longrightarrow> \<not> d_stop (c_daemon c n)
     \<Longrightarrow> \<not> c_now c < d_skip_until (c_daemon c n)
     \<Longrightarrow> cstep (Grant n) c (set_daemon n (\<lambda>d. d\<lparr>d_lease := Some (c_next c), d_pc := Race\<rparr>) (new_lease c))"
| grant_lost: "cstep Grant_lost c (new_lease c)"
| win: "n \<in> c_members c \<Longrightarrow> d_pc (c_daemon c n) = Race \<Longrightarrow> d_lease (c_daemon c n) = Some l
     \<Longrightarrow> l \<in> c_live c \<Longrightarrow> c_key c = None
     \<Longrightarrow> cstep (Win n) c (set_daemon n (\<lambda>d. d\<lparr>d_is_leader := True, d_pc := Hold\<rparr>) (c\<lparr>c_key := Some (n, l)\<rparr>))"
| win_unseen: "n \<in> c_members c \<Longrightarrow> d_pc (c_daemon c n) = Race \<Longrightarrow> d_lease (c_daemon c n) = Some l
     \<Longrightarrow> l \<in> c_live c \<Longrightarrow> c_key c = None \<Longrightarrow> p \<in> {Lost, Head}
     \<Longrightarrow> cstep (Win_unseen n p) c (set_daemon n (\<lambda>d. d\<lparr>d_is_leader := False, d_pc := p\<rparr>) (c\<lparr>c_key := Some (n, l)\<rparr>))"
| lose: "n \<in> c_members c \<Longrightarrow> d_pc (c_daemon c n) = Race \<Longrightarrow> c_key c \<noteq> None
     \<Longrightarrow> cstep (Lose n) c (set_daemon n (\<lambda>d. d\<lparr>d_is_leader := False, d_pc := Lost\<rparr>) c)"
| race_error: "n \<in> c_members c \<Longrightarrow> d_pc (c_daemon c n) = Race
     \<Longrightarrow> cstep (Race_error n) c (set_daemon n (\<lambda>d. d\<lparr>d_pc := Head\<rparr>) c)"
| follow: "n \<in> c_members c \<Longrightarrow> d_pc (c_daemon c n) = Lost
     \<Longrightarrow> cstep (Follow n) c (set_daemon n (\<lambda>d. d\<lparr>d_pc := Watch, d_event := False\<rparr>) c)"
| follow_error: "n \<in> c_members c \<Longrightarrow> d_pc (c_daemon c n) = Lost
     \<Longrightarrow> cstep (Follow_error n) c (set_daemon n (\<lambda>d. d\<lparr>d_pc := Head\<rparr>) c)"
| notice: "n \<in> c_members c \<Longrightarrow> d_pc (c_daemon c n) = Watch \<Longrightarrow> d_event (c_daemon c n)
     \<Longrightarrow> cstep (Notice n) c (set_daemon n (\<lambda>d. d\<lparr>d_pc := Head, d_event := False\<rparr>) c)"
| hold_end: "n \<in> c_members c \<Longrightarrow> d_pc (c_daemon c n) = Hold
     \<Longrightarrow> cstep (Hold_end n) c (set_daemon n (\<lambda>d. d\<lparr>d_is_leader := False, d_pc := Head\<rparr>) c)"
| expire: "l \<in> c_live c \<Longrightarrow> cstep (Expire l) c (end_lease l c)"
| step_down: "n \<in> c_members c \<Longrightarrow> d_is_leader (c_daemon c n) \<Longrightarrow> d_lease (c_daemon c n) = Some l
     \<Longrightarrow> 0 \<le> t \<Longrightarrow> cstep (Step_down n t) c (set_daemon n (\<lambda>d. d\<lparr>d_skip_until := c_now c + t\<rparr>) (end_lease l c))"
| stop: "n \<in> c_members c
     \<Longrightarrow> cstep (Stop n) c (set_daemon n (\<lambda>d. d\<lparr>d_stop := True\<rparr>)
           (case d_lease (c_daemon c n) of None \<Rightarrow> c | Some l \<Rightarrow> end_lease l c))"
| halt: "n \<in> c_members c \<Longrightarrow> d_pc (c_daemon c n) = Head \<Longrightarrow> d_stop (c_daemon c n)
     \<Longrightarrow> cstep (Halt n) c (set_daemon n (\<lambda>d. d\<lparr>d_pc := Halted\<rparr>) c)"
| restart: "n \<in> c_members c \<Longrightarrow> cstep (Restart n) c (set_daemon n (\<lambda>_. daemon0) c)"
| tick: "0 < t \<Longrightarrow> cstep (Tick t) c (c\<lparr>c_now := c_now c + t\<rparr>)"

inductive reach :: "cluster \<Rightarrow> (move \<Rightarrow> bool) \<Rightarrow> cluster \<Rightarrow> bool" for c P where
  reach_refl: "reach c P c"
| reach_step: "reach c P c' \<Longrightarrow> P m \<Longrightarrow> cstep m c' c'' \<Longrightarrow> reach c P c''"

abbreviation any_move :: "move \<Rightarrow> bool" where "any_move \<equiv> (\<lambda>_. True)"

section \<open>Safety\<close>

definition election_inv :: "cluster \<Rightarrow> bool" where
  "election_inv c \<longleftrightarrow>
     (\<forall>n. d_is_leader (c_daemon c n) \<longrightarrow> d_pc (c_daemon c n) = Hold \<and> d_lease (c_daemon c n) \<noteq> None)
     \<and> (\<forall>n l. d_pc (c_daemon c n) = Hold \<longrightarrow> d_lease (c_daemon c n) = Some l \<longrightarrow> l \<in> c_live c
          \<longrightarrow> c_key c = Some (n, l))
     \<and> (\<forall>n l. d_lease (c_daemon c n) = Some l \<longrightarrow> l < c_next c)
     \<and> (\<forall>l \<in> c_live c. l < c_next c)
     \<and> (\<forall>n l. c_key c = Some (n, l) \<longrightarrow> l \<in> c_live c)"

lemma set_daemon_simps [simp]:
  "c_members (set_daemon n f c) = c_members c" "c_key (set_daemon n f c) = c_key c"
  "c_live (set_daemon n f c) = c_live c" "c_next (set_daemon n f c) = c_next c"
  "c_now (set_daemon n f c) = c_now c"
  "c_daemon (set_daemon n f c) m = (if m = n then f (c_daemon c n) else c_daemon c m)"
  by (simp_all add: set_daemon_def)

lemma end_lease_simps [simp]:
  "c_members (end_lease l c) = c_members c" "c_live (end_lease l c) = c_live c - {l}"
  "c_next (end_lease l c) = c_next c" "c_now (end_lease l c) = c_now c"
  "c_key (end_lease l c) = (if \<exists>n. c_key c = Some (n, l) then None else c_key c)"
  "d_pc (c_daemon (end_lease l c) n) = d_pc (c_daemon c n)"
  "d_is_leader (c_daemon (end_lease l c) n) = d_is_leader (c_daemon c n)"
  "d_lease (c_daemon (end_lease l c) n) = d_lease (c_daemon c n)"
  "d_skip_until (c_daemon (end_lease l c) n) = d_skip_until (c_daemon c n)"
  "d_stop (c_daemon (end_lease l c) n) = d_stop (c_daemon c n)"
  by (simp_all add: end_lease_def)

lemma new_lease_simps [simp]:
  "c_members (new_lease c) = c_members c" "c_live (new_lease c) = insert (c_next c) (c_live c)"
  "c_next (new_lease c) = c_next c + 1" "c_key (new_lease c) = c_key c"
  "c_daemon (new_lease c) = c_daemon c" "c_now (new_lease c) = c_now c"
  by (simp_all add: new_lease_def)

lemma election_invI:
  assumes "\<And>n. d_is_leader (c_daemon c n) \<Longrightarrow> d_pc (c_daemon c n) = Hold \<and> d_lease (c_daemon c n) \<noteq> None"
    and "\<And>n l. d_pc (c_daemon c n) = Hold \<Longrightarrow> d_lease (c_daemon c n) = Some l \<Longrightarrow> l \<in> c_live c
          \<Longrightarrow> c_key c = Some (n, l)"
    and "\<And>n l. d_lease (c_daemon c n) = Some l \<Longrightarrow> l < c_next c"
    and "\<And>l. l \<in> c_live c \<Longrightarrow> l < c_next c"
    and "\<And>n l. c_key c = Some (n, l) \<Longrightarrow> l \<in> c_live c"
  shows "election_inv c"
  using assms unfolding election_inv_def by blast

lemma election_invD:
  assumes "election_inv c"
  shows "d_is_leader (c_daemon c n) \<Longrightarrow> d_pc (c_daemon c n) = Hold"
    "d_is_leader (c_daemon c n) \<Longrightarrow> d_lease (c_daemon c n) \<noteq> None"
    "d_pc (c_daemon c n) = Hold \<Longrightarrow> d_lease (c_daemon c n) = Some l \<Longrightarrow> l \<in> c_live c
       \<Longrightarrow> c_key c = Some (n, l)"
    "d_lease (c_daemon c n) = Some l \<Longrightarrow> l < c_next c"
    "l \<in> c_live c \<Longrightarrow> l < c_next c"
    "c_key c = Some (n, l) \<Longrightarrow> l \<in> c_live c"
  using assms unfolding election_inv_def by blast+

lemma election_inv_end_lease:
  assumes "election_inv c"
  shows "election_inv (end_lease l c)"
proof (rule election_invI, goal_cases)
  case (1 n)
  then show ?case using election_invD(1,2) [OF assms, of n] by simp
next
  case (2 n i)
  then have "c_key c = Some (n, i)" "i \<noteq> l" using election_invD(3) [OF assms, of n i] by auto
  then show ?case by simp
next
  case (3 n i)
  then show ?case using election_invD(4) [OF assms, of n i] by simp
next
  case (4 i)
  then show ?case using election_invD(5) [OF assms, of i] by simp
next
  case (5 n i)
  then show ?case using election_invD(6) [OF assms, of n i] by (auto split: if_splits)
qed

lemma election_inv_set_daemon:
  assumes "election_inv c"
    and "d_is_leader (f (c_daemon c n)) \<Longrightarrow> d_is_leader (c_daemon c n) \<and> d_pc (f (c_daemon c n)) = d_pc (c_daemon c n)"
    and "d_pc (f (c_daemon c n)) = Hold \<Longrightarrow> d_pc (c_daemon c n) = Hold"
    and "d_lease (f (c_daemon c n)) = d_lease (c_daemon c n) \<or> d_lease (f (c_daemon c n)) = None \<and> \<not> d_is_leader (f (c_daemon c n))"
  shows "election_inv (set_daemon n f c)"
proof (rule election_invI, goal_cases)
  case (1 m)
  then show ?case using election_invD(1,2) [OF assms(1), of m] assms(2,4) by (auto split: if_splits)
next
  case (2 m i)
  then show ?case using election_invD(3) [OF assms(1), of m i] assms(3,4) by (auto split: if_splits)
next
  case (3 m i)
  then show ?case using election_invD(4) [OF assms(1), of m i] assms(4) by (auto split: if_splits)
next
  case (4 i)
  then show ?case using election_invD(5) [OF assms(1), of i] by simp
next
  case (5 m i)
  then show ?case using election_invD(6) [OF assms(1), of m i] by simp
qed

lemma election_inv_new_lease:
  assumes "election_inv c"
  shows "election_inv (new_lease c)"
proof (rule election_invI, goal_cases)
  case (1 n)
  then show ?case using election_invD(1,2) [OF assms, of n] by simp
next
  case (2 n i)
  then have "i \<in> c_live c" using election_invD(4) [OF assms, of n i] by auto
  with 2 show ?case using election_invD(3) [OF assms, of n i] by simp
next
  case (3 n i)
  then show ?case using election_invD(4) [OF assms, of n i] by simp
next
  case (4 i)
  then show ?case using election_invD(5) [OF assms, of i] by auto
next
  case (5 n i)
  then show ?case using election_invD(6) [OF assms, of n i] by simp
qed

text \<open>A claim that takes effect: the key was absent, so no holder has a live lease.\<close>

lemma election_inv_claim:
  assumes inv: "election_inv c" and "d_pc (c_daemon c n) = Race" and l: "d_lease (c_daemon c n) = Some l"
    "l \<in> c_live c" and key: "c_key c = None" and p: "b \<longrightarrow> p = Hold"
  shows "election_inv (set_daemon n (\<lambda>d. d\<lparr>d_is_leader := b, d_pc := p\<rparr>) (c\<lparr>c_key := Some (n, l)\<rparr>))"
proof (rule election_invI, goal_cases)
  case (1 m)
  then show ?case using election_invD(1,2) [OF inv, of m] l p by (auto split: if_splits)
next
  case (2 m i)
  then show ?case using election_invD(3) [OF inv, of m i] l key by (auto split: if_splits)
next
  case (3 m i)
  then show ?case using election_invD(4) [OF inv, of m i] by (simp split: if_splits)
next
  case (4 i)
  then show ?case using election_invD(5) [OF inv, of i] by simp
next
  case (5 m i)
  then show ?case using l by simp
qed

lemma cstep_inv:
  assumes "cstep m c c'" and "election_inv c"
  shows "election_inv c'"
  using assms
proof (induction rule: cstep.induct)
  case (grant n c)
  note inv = election_invD [OF election_inv_new_lease [OF grant(5)]]
  show ?case
  proof (rule election_invI, goal_cases)
    case (1 m)
    then show ?case using inv(1,2) [of m] grant(2) by (auto split: if_splits)
  next
    case (2 m i)
    then show ?case using inv(3) [of m i] by (auto split: if_splits)
  next
    case (3 m i)
    then show ?case using inv(4) [of m i] by (auto split: if_splits)
  next
    case (4 i)
    then show ?case using inv(5) [of i] by simp
  next
    case (5 m i)
    then show ?case using inv(6) [of m i] by simp
  qed
next
  case (grant_lost c)
  then show ?case by (rule election_inv_new_lease)
next
  case (win n c l)
  then show ?case by (intro election_inv_claim) auto
next
  case (win_unseen n c l p)
  then show ?case by (intro election_inv_claim) auto
next
  case (expire l c)
  then show ?case by (simp add: election_inv_end_lease)
next
  case (step_down n c l t)
  then show ?case by (intro election_inv_set_daemon election_inv_end_lease) auto
next
  case (stop n c)
  then show ?case
    by (intro election_inv_set_daemon) (auto split: option.split intro: election_inv_end_lease)
next
  case (restart n c)
  then show ?case by (intro election_inv_set_daemon) (auto simp: daemon0_def)
next
  case (tick t c)
  have "election_inv (c\<lparr>c_now := c_now c + t\<rparr>) = election_inv c" by (simp add: election_inv_def)
  with tick show ?case by blast
qed (rule election_inv_set_daemon, assumption, auto dest: election_invD(1))+

lemma reach_inv: "reach c P c' \<Longrightarrow> election_inv c \<Longrightarrow> election_inv c'"
  by (induction rule: reach.induct) (auto intro: cstep_inv)

lemma election_inv_cluster0: "election_inv (cluster0 ns)"
  by (simp add: election_inv_def cluster0_def daemon0_def)

section \<open>Stranded clusters\<close>

definition stranded :: "cluster \<Rightarrow> bool" where
  "stranded c \<longleftrightarrow> c_key c = None
     \<and> (\<forall>n \<in> c_members c. d_pc (c_daemon c n) = Watch \<and> \<not> d_event (c_daemon c n) \<and> \<not> d_is_leader (c_daemon c n))"

fun no_restart :: "move \<Rightarrow> bool" where
  "no_restart (Restart n) = False"
| "no_restart m = True"

lemma end_lease_no_key [simp]: "c_key c = None \<Longrightarrow> end_lease l c = c\<lparr>c_live := c_live c - {l}\<rparr>"
  by (simp add: end_lease_def)

lemma stranded_step: "cstep m c c' \<Longrightarrow> no_restart m \<Longrightarrow> stranded c \<Longrightarrow> stranded c'"
  by (induction rule: cstep.induct) (auto simp: stranded_def split: option.splits)

lemma stranded_reach: "reach c no_restart c' \<Longrightarrow> stranded c \<Longrightarrow> stranded c'"
  by (induction rule: reach.induct) (auto intro: stranded_step)

lemma cstep_members: "cstep m c c' \<Longrightarrow> c_members c' = c_members c"
  by (induction rule: cstep.induct) (auto split: option.splits)

lemma reach_members: "reach c P c' \<Longrightarrow> c_members c' = c_members c"
  by (induction rule: reach.induct) (auto dest: cstep_members)

lemma reach_then: "reach c P c' \<Longrightarrow> cstep m c' c'' \<Longrightarrow> P m \<Longrightarrow> reach c P c''"
  by (rule reach_step)

text \<open>The first daemon to come up grants itself a lease and wins.\<close>

definition granted :: "string \<Rightarrow> cluster \<Rightarrow> cluster" where
  "granted n c = set_daemon n (\<lambda>d. d\<lparr>d_lease := Some (c_next c), d_pc := Race\<rparr>) (new_lease c)"

definition elected :: "string \<Rightarrow> nat \<Rightarrow> cluster \<Rightarrow> cluster" where
  "elected n l c = set_daemon n (\<lambda>d. d\<lparr>d_is_leader := True, d_pc := Hold\<rparr>) (c\<lparr>c_key := Some (n, l)\<rparr>)"

lemma elect_steps:
  assumes "reach c0 any_move c" and "n \<in> c_members c" "d_pc (c_daemon c n) = Head" "\<not> d_stop (c_daemon c n)"
    "d_skip_until (c_daemon c n) \<le> c_now c" "c_key c = None"
  shows "reach c0 any_move (elected n (c_next c) (granted n c))"
proof -
  have g: "cstep (Grant n) c (granted n c)"
    unfolding granted_def using assms by (intro cstep.grant) auto
  have w: "cstep (Win n) (granted n c) (elected n (c_next c) (granted n c))"
    unfolding elected_def using assms by (intro cstep.win) (auto simp: granted_def)
  show ?thesis using reach_step [OF reach_step [OF assms(1) _ g] _ w] by simp
qed

section \<open>Properties\<close>

text \<open>C1. Mutual exclusion: in every state the daemons can reach, with crashes, lost replies, lease expiry
  and voluntary failover at any moment, two daemons that both regard themselves as leader and whose
  leases are alive are the same daemon, and the leader key names it with that lease.\<close>

theorem one_leader_with_live_lease:
  assumes "reach (cluster0 ns) any_move c"
    and "d_is_leader (c_daemon c n)" "d_lease (c_daemon c n) = Some l" "l \<in> c_live c"
    and "d_is_leader (c_daemon c m)" "d_lease (c_daemon c m) = Some k" "k \<in> c_live c"
  shows "m = n \<and> c_key c = Some (n, l)"
proof -
  have inv: "election_inv c" using assms(1) election_inv_cluster0 by (rule reach_inv)
  have "c_key c = Some (n, l)" "c_key c = Some (m, k)"
    using election_invD(3) [OF inv _ assms(3,4)] election_invD(3) [OF inv _ assms(6,7)]
      election_invD(1) [OF inv assms(2)] election_invD(1) [OF inv assms(5)] by auto
  then show ?thesis by simp
qed

definition two_up :: cluster where
  "two_up = cluster0 {''node-1'', ''node-2''}"

theorem one_leader_with_live_lease_witness:
  "c_key (elected ''node-1'' 1 (granted ''node-1'' two_up)) = Some (''node-1'', 1)"
proof -
  let ?c = "elected ''node-1'' 1 (granted ''node-1'' two_up)"
  have "reach two_up any_move (elected ''node-1'' (c_next two_up) (granted ''node-1'' two_up))"
    by (rule elect_steps [OF reach_refl]) (simp_all add: two_up_def cluster0_def daemon0_def)
  then have r: "reach (cluster0 {''node-1'', ''node-2''}) any_move ?c" by (simp add: two_up_def cluster0_def)
  have d: "d_is_leader (c_daemon ?c ''node-1'')" "d_lease (c_daemon ?c ''node-1'') = Some 1" "1 \<in> c_live ?c"
    by (simp_all add: elected_def granted_def two_up_def cluster0_def)
  show ?thesis using one_leader_with_live_lease [OF r d d] by blast
qed

text \<open>Without the lease, \<open>is_leader\<close> alone excludes nothing: the daemons reach a state in which two of
  them have \<open>is_leader\<close> set, because the first has not yet noticed that its lease ended. The checks in
  \<open>JobsManager.create\<close> and in the join handler look only at \<open>is_leader\<close>.\<close>

theorem two_daemons_believe_to_lead:
  "\<exists>c. reach (cluster0 {''node-1'', ''node-2''}) any_move c
     \<and> d_is_leader (c_daemon c ''node-1'') \<and> d_is_leader (c_daemon c ''node-2'')"
proof -
  let ?c1 = "elected ''node-1'' (c_next two_up) (granted ''node-1'' two_up)"
  let ?c2 = "end_lease 1 ?c1"
  let ?c3 = "elected ''node-2'' (c_next ?c2) (granted ''node-2'' ?c2)"
  have "reach two_up any_move ?c1"
    by (rule elect_steps [OF reach_refl]) (simp_all add: two_up_def cluster0_def daemon0_def)
  moreover have "cstep (Expire 1) ?c1 ?c2"
    by (rule cstep.expire) (simp add: elected_def granted_def two_up_def cluster0_def)
  ultimately have r2: "reach two_up any_move ?c2" by (rule reach_then) simp
  have "reach two_up any_move ?c3"
    by (rule elect_steps [OF r2])
      (simp_all add: elected_def granted_def two_up_def cluster0_def daemon0_def end_lease_def)
  moreover have "d_is_leader (c_daemon ?c3 ''node-1'')" "d_is_leader (c_daemon ?c3 ''node-2'')"
    by (simp_all add: elected_def granted_def two_up_def)
  ultimately show ?thesis unfolding two_up_def by blast
qed

text \<open>A voluntary failover can leave a cluster without a leader for good: after the leader of a
  one-daemon cluster has stepped down and found its lease gone, it waits, because of the cooldown, for a
  delete of the leader key that has already happened; from then on, until the daemon is restarted, no
  step of any kind, the passing of the cooldown included, gives the cluster a leader again.\<close>

theorem step_down_can_strand:
  "\<exists>c. reach (cluster0 {''node-1''}) no_restart c
     \<and> (\<forall>c'. reach c no_restart c' \<longrightarrow> c_key c' = None \<and> \<not> d_is_leader (c_daemon c' ''node-1''))"
proof -
  let ?c0 = "cluster0 {''node-1''}"
  let ?c1 = "granted ''node-1'' ?c0"
  let ?c2 = "elected ''node-1'' 1 ?c1"
  let ?c3 = "set_daemon ''node-1'' (\<lambda>d. d\<lparr>d_skip_until := c_now ?c2 + 20\<rparr>) (end_lease 1 ?c2)"
  let ?c4 = "set_daemon ''node-1'' (\<lambda>d. d\<lparr>d_is_leader := False, d_pc := Head\<rparr>) ?c3"
  let ?c5 = "set_daemon ''node-1'' (\<lambda>d. d\<lparr>d_is_leader := False, d_pc := Watch, d_event := False\<rparr>) ?c4"
  note defs = granted_def elected_def cluster0_def daemon0_def
  have "cstep (Grant ''node-1'') ?c0 ?c1"
    unfolding granted_def by (intro cstep.grant) (simp_all add: cluster0_def daemon0_def)
  with reach_refl have "reach ?c0 no_restart ?c1" by (rule reach_then) simp
  moreover have "cstep (Win ''node-1'') ?c1 ?c2"
    unfolding elected_def by (intro cstep.win) (simp_all add: defs)
  ultimately have "reach ?c0 no_restart ?c2" by (rule reach_then) simp
  moreover have "cstep (Step_down ''node-1'' 20) ?c2 ?c3"
    by (intro cstep.step_down) (simp_all add: defs)
  ultimately have "reach ?c0 no_restart ?c3" by (rule reach_then) simp
  moreover have "cstep (Hold_end ''node-1'') ?c3 ?c4"
    by (intro cstep.hold_end) (simp_all add: defs)
  ultimately have "reach ?c0 no_restart ?c4" by (rule reach_then) simp
  moreover have "cstep (Cooldown ''node-1'') ?c4 ?c5"
    by (intro cstep.cooldown) (simp_all add: defs end_lease_def)
  ultimately have r: "reach ?c0 no_restart ?c5" by (rule reach_then) simp
  have st: "stranded ?c5" by (simp add: stranded_def defs)
  have "c_key c' = None \<and> \<not> d_is_leader (c_daemon c' ''node-1'')" if "reach ?c5 no_restart c'" for c'
  proof -
    have "c_members c' = {''node-1''}" using reach_members [OF that] by (simp add: defs)
    then show ?thesis using stranded_reach [OF that st] unfolding stranded_def by blast
  qed
  with r show ?thesis by blast
qed

theorem step_down_can_strand_witness:
  "\<exists>c. reach (cluster0 {''node-1''}) no_restart c \<and> c_key c = None \<and> \<not> d_is_leader (c_daemon c ''node-1'')"
  using step_down_can_strand reach_refl by blast

end
