(* ===== verification/Joining.thy ===== *)
theory Joining
  imports Cluster_Env Config Topology
begin

text \<open>
  \<open>src/daemon/joining.py\<close>: the leader's handling of \<open>POST /join\<close>. The module's lock serialises the
  whole flow, so a join is one computation. The wait for a healthy etcd membership is a polling loop
  with a bound on its rounds; the bound that suffices for a timeout is proved under the law of the
  monotonic clock.
\<close>

section \<open>Helpers\<close>

definition PER_PEER_KEYS :: "string list" where
  "PER_PEER_KEYS = [''PEER_IPS'', ''PEER_NAMES'', ''NODE_NAME'', ''LOCAL_IP'', ''ETCD_INITIAL_CLUSTER_STATE'',
     ''HOST_REPO_ROOT'']"

record join_result =
  jr_node_name :: string
  jr_local_ip :: string
  jr_cluster_env :: string
  jr_leader_ip :: string

text \<open>The regular expression wants four groups of one to three digits; its \<open>$\<close> also accepts one
  trailing newline, and \<open>int\<close> ignores it.\<close>

definition is_valid_ipv4 :: "string \<Rightarrow> bool" where
  "is_valid_ipv4 ip =
     (let core = (if ip \<noteq> [] \<and> last ip = nl then butlast ip else ip);
          parts = split_on (CHR ''.'') core
      in length parts = 4
         \<and> list_all (\<lambda>p. 1 \<le> length p \<and> length p \<le> 3 \<and> list_all is_digit p) parts
         \<and> list_all (\<lambda>p. nat_of_digits p \<le> 255) parts)"

text \<open>\<open>re.match(r"^node-(\d+)$", name)\<close>.\<close>

definition node_suffix :: "string \<Rightarrow> nat option" where
  "node_suffix name =
     (if startswith name ''node-'' then map_option nat_of_digits (digits_eol (removeprefix name ''node-''))
      else None)"

definition used_suffixes :: "string list \<Rightarrow> nat list" where
  "used_suffixes names = concat (map (\<lambda>n. case node_suffix n of None \<Rightarrow> [] | Some k \<Rightarrow> [k]) names)"

function next_free :: "nat list \<Rightarrow> nat \<Rightarrow> nat" where
  "next_free used n = (if n \<in> set used then next_free used (n + 1) else n)"
  by pat_completeness auto

termination
proof (relation "measure (\<lambda>(used, n). card {k \<in> set used. n \<le> k})", goal_cases)
  case (2 used n)
  let ?A = "{k \<in> set used. n + 1 \<le> k}" and ?B = "{k \<in> set used. n \<le> k}"
  have "?A \<subseteq> ?B" "n \<in> ?B" "n \<notin> ?A" using 2 by auto
  then have "?A \<subset> ?B" by blast
  then have "card ?A < card ?B" by (intro psubset_card_mono) auto
  then show ?case by (simp only: in_measure split_conv)
qed simp

declare next_free.simps [simp del]

definition allocate_next_name :: "string list \<Rightarrow> string" where
  "allocate_next_name names = ''node-'' @ str_of_nat (next_free (used_suffixes names) 1)"

definition node_sort_key :: "string \<Rightarrow> nat \<times> string" where
  "node_sort_key name = (case node_suffix name of Some k \<Rightarrow> (k, name) | None \<Rightarrow> (10 ^ 9, name))"

fun combine_ips :: "(string \<times> obj) list \<Rightarrow> string dict \<Rightarrow> string dict" where
  "combine_ips [] out = out"
| "combine_ips ((name, info) # rest) out =
     combine_ips rest (if truthy (ip_of info) then dict_set name (or_empty (ip_of info)) out else out)"

definition ordered_peer_names_and_ips_after_join :: "peers \<Rightarrow> string \<Rightarrow> string \<Rightarrow> (string \<times> string) list" where
  "ordered_peer_names_and_ips_after_join existing new_name joiner_ip =
     (let combined = dict_set new_name joiner_ip (combine_ips existing [])
      in map (\<lambda>name. (name, or_empty (dict_get combined name))) (sort_key node_sort_key (keys combined)))"

definition ordered_peer_ips_after_join :: "peers \<Rightarrow> string \<Rightarrow> string \<Rightarrow> string list" where
  "ordered_peer_ips_after_join existing new_name joiner_ip =
     map snd (ordered_peer_names_and_ips_after_join existing new_name joiner_ip)"

text \<open>\<open>time.strftime('%Y-%m-%dT%H:%M:%SZ', time.gmtime())\<close>: the proleptic Gregorian calendar.\<close>

definition civil :: "int \<Rightarrow> int \<times> int \<times> int" where
  "civil days =
     (let z = days + 719468; era = z div 146097; doe = z mod 146097;
          yoe = (doe - doe div 1460 + doe div 36524 - doe div 146096) div 365;
          doy = doe - (365 * yoe + yoe div 4 - yoe div 100);
          mp = (5 * doy + 2) div 153;
          d = doy - (153 * mp + 2) div 5 + 1;
          m = (if mp < 10 then mp + 3 else mp - 9)
      in (yoe + era * 400 + (if m \<le> 2 then 1 else 0), m, d))"

definition pad2 :: "int \<Rightarrow> string" where
  "pad2 n = (if n < 10 then ''0'' @ str_of_int n else str_of_int n)"

definition utc_stamp :: "time \<Rightarrow> string" where
  "utc_stamp t =
     (let secs = \<lfloor>t\<rfloor>; sod = secs mod 86400 in
      case civil (secs div 86400) of
        (y, m, d) \<Rightarrow> str_of_int y @ ''-'' @ pad2 m @ ''-'' @ pad2 d @ ''T'' @ pad2 (sod div 3600) @ '':''
          @ pad2 (sod mod 3600 div 60) @ '':'' @ pad2 (sod mod 60) @ ''Z'')"

definition rule_line :: string where
  "rule_line = ''# ============================================================================='' "

definition joiner_env_lines ::
  "time \<Rightarrow> string dict \<Rightarrow> string \<Rightarrow> string \<Rightarrow> string list \<Rightarrow> string list \<Rightarrow> string list" where
  "joiner_env_lines t leader_env name ip ips names =
     [rule_line, ''# milvus-onprem cluster.env (joiner copy)'', ''# Issued by leader at '' @ utc_stamp t,
      rule_line, [], ''NODE_NAME='' @ name, ''LOCAL_IP='' @ ip, ''PEER_IPS='' @ join_with '','' ips,
      ''PEER_NAMES='' @ join_with '','' names, ''ETCD_INITIAL_CLUSTER_STATE=existing'', []]
     @ map (\<lambda>(k, v). k @ ''='' @ v) (filter (\<lambda>(k, v). k \<notin> set PER_PEER_KEYS) leader_env)"

definition build_joiner_cluster_env ::
  "'w sys \<Rightarrow> string dict \<Rightarrow> string \<Rightarrow> string \<Rightarrow> string list \<Rightarrow> string list \<Rightarrow> ('w, string) io" where
  "build_joiner_cluster_env sys leader_env name ip ips names =
     (if length names \<noteq> length ips then raise (JoinError ''PEER_NAMES and PEER_IPS length mismatch'')
      else if ip \<notin> set ips then raise (JoinError ''cluster.env omits the joiner's own IP'')
      else if name \<notin> set names then raise (JoinError ''cluster.env omits the joiner's own NODE_NAME'')
      else bnd (now sys) (\<lambda>t.
        ret (join_with [nl] (joiner_env_lines t leader_env name ip ips names @ [[]]))))"

section \<open>The join\<close>

text \<open>\<open>_wait_cluster_healthy\<close>; the clock is read once more in a round that finds unstarted members.\<close>

fun wait_healthy_loop :: "'w sys \<Rightarrow> nat \<Rightarrow> time \<Rightarrow> ('w, unit) io" where
  "wait_healthy_loop sys 0 deadline = raise Diverges"
| "wait_healthy_loop sys (Suc fuel) deadline =
     bnd (monotonic sys) (\<lambda>t.
       if \<not> t < deadline then raise (JoinError ''cluster did not become healthy'')
       else
         bnd (try_except
                (bnd (member_list sys) (\<lambda>members.
                   if filter (\<lambda>m. mem_name m = []) members = [] then ret True
                   else bnd (monotonic sys) (\<lambda>_. ret False)))
                (\<lambda>_. ret False)) (\<lambda>healthy.
         if healthy then ret ()
         else bnd (sleep sys 2) (\<lambda>_. wait_healthy_loop sys fuel deadline)))"

definition wait_cluster_healthy :: "'w sys \<Rightarrow> nat \<Rightarrow> int \<Rightarrow> ('w, unit) io" where
  "wait_cluster_healthy sys fuel timeout_s =
     bnd (monotonic sys) (\<lambda>t. wait_healthy_loop sys fuel (t + of_int timeout_s))"

definition peer_entry :: "string \<Rightarrow> string \<Rightarrow> string option \<Rightarrow> time \<Rightarrow> obj" where
  "peer_entry name ip hostname t =
     [(''name'', JStr name), (''ip'', JStr ip),
      (''hostname'', case hostname of None \<Rightarrow> JNull | Some h \<Rightarrow> JStr h),
      (''joined_at'', JNum t), (''role'', JStr ''peer'')]"

text \<open>The first entry, in the order of the scan, that already has the joiner's address.\<close>

fun registered_as :: "peers \<Rightarrow> string \<Rightarrow> string option" where
  "registered_as [] ip = None"
| "registered_as ((name, info) # rest) ip = (if ip_of info = Some ip then Some name else registered_as rest ip)"

definition issue_env :: "'w sys \<Rightarrow> daemon_config \<Rightarrow> peers \<Rightarrow> string \<Rightarrow> string \<Rightarrow> ('w, join_result) io" where
  "issue_env sys cfg existing name ip =
     (let pairs = ordered_peer_names_and_ips_after_join existing name ip in
      bnd (read_cluster_env sys) (\<lambda>env.
      bnd (build_joiner_cluster_env sys env name ip (map snd pairs) (map fst pairs)) (\<lambda>text.
        ret \<lparr>jr_node_name = name, jr_local_ip = ip, jr_cluster_env = text, jr_leader_ip = local_ip cfg\<rparr>)))"

definition member_add_or_rollback :: "'w sys \<Rightarrow> daemon_config \<Rightarrow> string \<Rightarrow> string \<Rightarrow> ('w, unit) io" where
  "member_add_or_rollback sys cfg name ip =
     try_except
       (bnd (member_add sys [''http://'' @ ip @ '':'' @ str_of_int (etcd_peer_port cfg)]) (\<lambda>_. ret ()))
       (\<lambda>e. bnd (try_except (etcd_delete sys (TOPOLOGY_PREFIX @ name)) (\<lambda>_. ret ())) (\<lambda>_.
             raise (JoinError ''etcd member-add failed'')))"

definition do_join :: "'w sys \<Rightarrow> nat \<Rightarrow> daemon_config \<Rightarrow> string \<Rightarrow> string option \<Rightarrow> ('w, join_result) io" where
  "do_join sys fuel cfg ip hostname =
     bnd (wait_cluster_healthy sys fuel 180) (\<lambda>_.
     bnd (get_prefix sys TOPOLOGY_PREFIX) (\<lambda>existing.
       let parsed = decode_peers existing [] in
       case registered_as parsed ip of
         Some name \<Rightarrow> issue_env sys cfg (filter (\<lambda>(k, v). k \<noteq> name) parsed) name ip
       | None \<Rightarrow>
           (let new_name = allocate_next_name (keys parsed) in
            bnd (now sys) (\<lambda>t.
            bnd (put_if_absent sys (TOPOLOGY_PREFIX @ new_name) (Json (peer_entry new_name ip hostname t)) None) (\<lambda>_.
            bnd (issue_env sys cfg parsed new_name ip) (\<lambda>res.
            bnd (member_add_or_rollback sys cfg new_name ip) (\<lambda>_.
              ret res)))))))"

definition handle_join :: "'w sys \<Rightarrow> nat \<Rightarrow> daemon_config \<Rightarrow> string \<Rightarrow> string option \<Rightarrow> ('w, join_result) io" where
  "handle_join sys fuel cfg ip hostname =
     (if \<not> is_valid_ipv4 ip then raise (JoinError ''invalid joiner IP'')
      else do_join sys fuel cfg ip hostname)"

section \<open>Name allocation\<close>

lemma next_free_spec:
  "next_free used n \<notin> set used \<and> n \<le> next_free used n \<and> (\<forall>k. n \<le> k \<longrightarrow> k < next_free used n \<longrightarrow> k \<in> set used)"
proof (induction used n rule: next_free.induct)
  case (1 used n)
  show ?case
  proof (cases "n \<in> set used")
    case True
    have eq: "next_free used n = next_free used (n + 1)" using True by (subst next_free.simps) simp
    have "k \<in> set used" if "n \<le> k" "k < next_free used (n + 1)" for k
      using 1 [OF True] True that by (cases "k = n") auto
    then show ?thesis using 1 [OF True] unfolding eq by auto
  next
    case False
    then show ?thesis by (subst (1 2 3) next_free.simps) simp
  qed
qed

lemma node_suffix_mk [simp]: "node_suffix (''node-'' @ str_of_nat k) = Some k"
  by (simp add: node_suffix_def startswith_append [of "''node-''", simplified append_Cons append_Nil]
      removeprefix_append [of "''node-''", simplified append_Cons append_Nil])

lemma set_used_suffixes: "k \<in> set (used_suffixes names) \<longleftrightarrow> (\<exists>n \<in> set names. node_suffix n = Some k)"
  unfolding used_suffixes_def by (induction names) (auto split: option.split)

lemma length_used_suffixes: "length (used_suffixes names) \<le> length names"
  by (induction names) (auto simp: used_suffixes_def split: option.splits)

lemma next_free_bound: "next_free used 1 \<le> length used + 1"
proof -
  have "{1..<next_free used 1} \<subseteq> set used" using next_free_spec [of used 1] by auto
  then have "card {1..<next_free used 1} \<le> card (set used)" by (intro card_mono) auto
  also have "\<dots> \<le> length used" by (rule card_length)
  finally show ?thesis by simp
qed

text \<open>A joiner gets a name of its own, and the smallest one: the allocated name is \<open>node-N\<close> with
  \<open>N\<close> at least 1, no existing name has suffix \<open>N\<close> (so none equals it), every smaller suffix is taken, and
  \<open>N\<close> is at most one more than the number of names.\<close>

theorem allocate_next_name_fresh_minimal:
  "\<exists>N \<ge> 1. allocate_next_name names = ''node-'' @ str_of_nat N
     \<and> allocate_next_name names \<notin> set names \<and> N \<le> length names + 1
     \<and> (\<forall>n \<in> set names. node_suffix n \<noteq> Some N)
     \<and> (\<forall>k. 1 \<le> k \<and> k < N \<longrightarrow> (\<exists>n \<in> set names. node_suffix n = Some k))"
proof -
  let ?N = "next_free (used_suffixes names) 1"
  have "allocate_next_name names = ''node-'' @ str_of_nat ?N" by (simp add: allocate_next_name_def)
  moreover have fresh: "\<forall>n \<in> set names. node_suffix n \<noteq> Some ?N"
    using next_free_spec [of "used_suffixes names" 1] set_used_suffixes [of ?N names] by auto
  moreover have "''node-'' @ str_of_nat ?N \<notin> set names" using fresh node_suffix_mk by blast
  moreover have "?N \<le> length names + 1"
    using next_free_bound [of "used_suffixes names"] length_used_suffixes [of names] by simp
  moreover have "\<forall>k. 1 \<le> k \<and> k < ?N \<longrightarrow> (\<exists>n \<in> set names. node_suffix n = Some k)" "1 \<le> ?N"
    using next_free_spec [of "used_suffixes names" 1] by (auto simp: set_used_suffixes)
  ultimately show ?thesis by metis
qed

theorem allocate_next_name_fresh_minimal_witness:
  "allocate_next_name [''node-1'', ''node-3'', ''spare''] \<notin> set [''node-1'', ''node-3'', ''spare'']
   \<and> allocate_next_name [''node-1'', ''node-3'', ''spare''] = ''node-2''"
proof -
  have "allocate_next_name [''node-1'', ''node-3'', ''spare''] = ''node-2''" by code_simp
  with allocate_next_name_fresh_minimal [of "[''node-1'', ''node-3'', ''spare'']"] show ?thesis by metis
qed

section \<open>Peer lists\<close>

lemma combine_ips_ok: "dict_ok out \<Longrightarrow> dict_ok (combine_ips ps out)"
  by (induction ps out rule: combine_ips.induct) (simp_all add: dict_ok_set)

lemma dict_get_combine:
  "distinct (map fst ps) \<Longrightarrow> dict_get (combine_ips ps out) n =
     (case dict_get ps n of
        Some info \<Rightarrow> if truthy (ip_of info) then ip_of info else dict_get out n
      | None \<Rightarrow> dict_get out n)"
proof (induction ps out rule: combine_ips.induct)
  case (2 name info rest out)
  have "name \<notin> set (map fst rest)" using 2(2) by simp
  then have "dict_get rest name = None"
    using dict_get_keys [of rest name] by (auto simp: keys_def)
  then show ?case using 2 by (auto simp: truthy_def or_empty_def split: option.splits)
qed simp

text \<open>The peer list issued to a joiner is complete and in order: every name occurs once, in the numeric
  order of the node suffixes, the joiner with its address among them, and besides it exactly the
  registered peers that have an address, each with that address.\<close>

theorem ordered_peers_complete:
  assumes "dict_ok existing"
  shows "distinct (map fst (ordered_peer_names_and_ips_after_join existing new_name ip))
    \<and> sorted (map (node_sort_key \<circ> fst) (ordered_peer_names_and_ips_after_join existing new_name ip))
    \<and> (\<forall>n v. (n, v) \<in> set (ordered_peer_names_and_ips_after_join existing new_name ip) \<longleftrightarrow>
         (if n = new_name then v = ip
          else \<exists>info. dict_get existing n = Some info \<and> ip_of info = Some v \<and> v \<noteq> []))"
proof (intro conjI)
  let ?c = "dict_set new_name ip (combine_ips existing [])"
  let ?ps = "ordered_peer_names_and_ips_after_join existing new_name ip"
  have ps: "?ps = map (\<lambda>n. (n, or_empty (dict_get ?c n))) (sort_key node_sort_key (keys ?c))"
    by (simp add: ordered_peer_names_and_ips_after_join_def Let_def)
  have ok: "dict_ok ?c" by (intro dict_ok_set combine_ips_ok) simp
  have fst: "map fst ?ps = sort_key node_sort_key (keys ?c)" by (simp add: ps comp_def)
  show "distinct (map fst ?ps)" using ok unfolding fst by (simp add: dict_ok_def)
  have "map (node_sort_key \<circ> fst) ?ps = map node_sort_key (map fst ?ps)" by simp
  also have "sorted \<dots>" unfolding fst by (rule sorted_sort_key)
  finally show "sorted (map (node_sort_key \<circ> fst) ?ps)" .
  have get: "dict_get ?c n = (if n = new_name then Some ip else
      case dict_get existing n of Some info \<Rightarrow> if truthy (ip_of info) then ip_of info else None | None \<Rightarrow> None)" for n
    using dict_get_combine [of existing "[]" n] assms by (simp add: dict_ok_def keys_def split: option.split)
  have "(n, v) \<in> set ?ps \<longleftrightarrow> dict_get ?c n = Some v" for n v
    using dict_get_keys [of ?c n] unfolding ps by (cases "dict_get ?c n") (auto simp: image_iff)
  then show "\<forall>n v. (n, v) \<in> set ?ps \<longleftrightarrow> (if n = new_name then v = ip
      else \<exists>info. dict_get existing n = Some info \<and> ip_of info = Some v \<and> v \<noteq> [])"
    unfolding get by (auto simp: truthy_def split: option.splits)
qed

theorem ordered_peers_complete_witness:
  "(''node-10'', ''10.0.0.10'') \<in> set (ordered_peer_names_and_ips_after_join
      [(''node-10'', node_entry ''10.0.0.10''), (''node-2'', node_entry ''10.0.0.2''), (''ghost'', [])]
      ''node-1'' ''10.0.0.1'')"
proof -
  let ?e = "[(''node-10'', node_entry ''10.0.0.10''), (''node-2'', node_entry ''10.0.0.2''), (''ghost'', [])]"
  have "dict_ok ?e" by code_simp
  moreover have "dict_get ?e ''node-10'' = Some (node_entry ''10.0.0.10'')"
    "ip_of (node_entry ''10.0.0.10'') = Some ''10.0.0.10''" by code_simp+
  ultimately show ?thesis using ordered_peers_complete [of ?e "''node-1''" "''10.0.0.1''"] by simp
qed

section \<open>Waiting for the membership\<close>

text \<open>The monotonic clock never goes back, and a sleep lasts at least as long as asked for.\<close>

locale monotonic_clock =
  fixes sys :: "'w sys" and clk :: "'w \<Rightarrow> time"
  assumes clock_read: "sys_monotonic sys w = (x, w') \<Longrightarrow> clk w \<le> x \<and> x \<le> clk w'"
    and clock_sleep: "0 \<le> d \<Longrightarrow> clk w + d \<le> clk (sys_sleep sys d w)"
    and clock_etcd: "clk w \<le> clk (snd (sys_etcd sys u rq w))"
    and clock_run: "clk w \<le> clk (snd (sys_run sys c w))"
    and clock_http: "clk w \<le> clk (snd (sys_http sys h w))"
begin

lemma post_loop_mono:
  "\<forall>d \<in> set ds. 0 \<le> d \<Longrightarrow> wp (post_loop sys rq ds) (\<lambda>_ t. clk (st_world s) \<le> clk (st_world t))
     (\<lambda>e t. is_Exception e \<and> clk (st_world s) \<le> clk (st_world t)) s"
proof (induction ds arbitrary: s)
  case Nil
  then show ?case by (simp add: wp_simps)
next
  case (Cons d ds)
  let ?w = "if d = 0 then st_world s else sys_sleep sys d (st_world s)"
  have w: "clk (st_world s) \<le> clk ?w" using clock_sleep [of d "st_world s"] Cons.prems by auto
  obtain r w' where c: "sys_etcd sys (url s) rq ?w = (r, w')" by fastforce
  have w': "clk (st_world s) \<le> clk w'" using clock_etcd [of ?w "url s" rq] w c by simp
  have IH: "wp (post_loop sys rq ds) (\<lambda>_ t. clk (st_world s) \<le> clk (st_world t))
     (\<lambda>e t. is_Exception e \<and> clk (st_world s) \<le> clk (st_world t)) s'" if "st_world s' = w'" for s'
    by (rule wp_mono [OF Cons.IH]) (use Cons.prems w' that in auto)
  show ?case using c w' IH
    by (cases "d = 0") (auto simp: wp_simps sleep_def split: http_reply.split option.split)
qed

lemma member_list_mono:
  "wp (member_list sys) (\<lambda>_ t. clk (st_world s) \<le> clk (st_world t))
     (\<lambda>e t. is_Exception e \<and> clk (st_world s) \<le> clk (st_world t)) s"
  unfolding member_list_def post_def wp_bnd
  by (rule wp_mono [OF post_loop_mono]) (auto simp: wp_ret retry_delays_def)

lemma read_mono: "clk w \<le> fst (sys_monotonic sys w) \<and> fst (sys_monotonic sys w) \<le> clk (snd (sys_monotonic sys w))"
  using clock_read [of w] by (cases "sys_monotonic sys w") auto

lemma wait_loop_ends:
  assumes "deadline \<le> clk (st_world s) + 2 * (of_nat fuel - 1)" and "0 < fuel"
  shows "wp (wait_healthy_loop sys fuel deadline) (\<lambda>_ _. True) (\<lambda>e _. \<exists>m. e = JoinError m) s"
  using assms
proof (induction fuel arbitrary: s)
  case 0
  then show ?case by simp
next
  case (Suc fuel)
  let ?t = "fst (sys_monotonic sys (st_world s))" and ?w = "snd (sys_monotonic sys (st_world s))"
  have t: "clk (st_world s) \<le> ?t" "?t \<le> clk ?w" using read_mono by auto
  show ?case
  proof (cases "?t < deadline")
    case False
    then show ?thesis by (simp add: wp_simps monotonic_def)
  next
    case True
    then have f: "0 < fuel" using Suc.prems(1) t by (cases fuel) auto
    have step: "wp (bnd (sleep sys 2) (\<lambda>_. wait_healthy_loop sys fuel deadline))
        (\<lambda>_ _. True) (\<lambda>e _. \<exists>m. e = JoinError m) s'" if "clk ?w \<le> clk (st_world s')" for s'
      unfolding wp_bnd sleep_def wp_call
      by (rule Suc.IH) (use clock_sleep [of 2 "st_world s'"] that t Suc.prems(1) f in \<open>auto simp: algebra_simps\<close>)
    have mid: "clk ?w \<le> clk (snd (sys_monotonic sys w))" if "clk ?w \<le> clk w" for w
      using read_mono [of w] that by linarith
    show ?thesis using True t
      by (simp add: wp_bnd wp_try_except monotonic_def wp_call)
        (rule wp_mono [OF member_list_mono],
          auto simp: wp_ret wp_bnd wp_call monotonic_def step [unfolded wp_bnd] mid)
  qed
qed

end

interpretation mem_clock: monotonic_clock mem_sys w_clock
proof (unfold_locales, goal_cases)
  case (3 w u rq)
  have "w_clock (snd (mem_serve rq w')) = w_clock w'" for w'
    by (cases rq) (auto simp: mem_bind_def split: option.split)
  then show ?case by (auto simp: mem_etcd_def Let_def split: list.split fault.split)
qed auto

text \<open>C19. The wait before a join ends: on a clock that does not go back, \<open>_wait_cluster_healthy\<close> with a
  timeout of \<open>T\<close> seconds takes at most \<open>T/2 + 1\<close> rounds, however etcd fails in between, and either finds
  every member started or raises the \<open>JoinError\<close> for the operator.\<close>

theorem wait_cluster_healthy_ends:
  assumes "monotonic_clock sys clk" and "0 \<le> timeout_s" and "timeout_s \<le> 2 * int fuel"
  shows "\<exists>r t. wait_cluster_healthy sys (Suc fuel) timeout_s s = (r, t) \<and> (r = Inr () \<or> (\<exists>m. r = Inl (JoinError m)))"
proof -
  let ?t = "fst (sys_monotonic sys (st_world s))"
  let ?s = "s\<lparr>st_trace := st_trace s @ [A_monotonic], st_world := snd (sys_monotonic sys (st_world s))\<rparr>"
  have "?t \<le> clk (st_world ?s)" using monotonic_clock.read_mono [OF assms(1), of "st_world s"] by simp
  moreover have "(of_int timeout_s :: rat) \<le> 2 * of_nat fuel"
    using assms(3) by (metis of_int_le_iff of_int_mult of_int_numeral of_int_of_nat_eq)
  ultimately have d: "?t + of_int timeout_s \<le> clk (st_world ?s) + 2 * (of_nat (Suc fuel) - 1)" by simp
  have "wp (wait_cluster_healthy sys (Suc fuel) timeout_s) (\<lambda>_ _. True) (\<lambda>e _. \<exists>m. e = JoinError m) s"
    unfolding wait_cluster_healthy_def wp_bnd monotonic_def wp_call
    by (rule monotonic_clock.wait_loop_ends [OF assms(1) d]) simp
  then show ?thesis by (auto simp: wp_def split: prod.splits sum.splits)
qed

theorem wait_cluster_healthy_ends_witness:
  "\<exists>r t. wait_cluster_healthy mem_sys 91 180 (start world0) = (r, t) \<and> (r = Inr () \<or> (\<exists>m. r = Inl (JoinError m)))"
  using wait_cluster_healthy_ends [OF mem_clock.monotonic_clock_axioms, of 180 90 "start world0"] by simp

section \<open>The joiner's settings file\<close>

lemma linesep_space: "is_linesep c \<Longrightarrow> is_space c"
  by (auto simp: is_linesep_def is_space_def Let_def)

lemma is_linesep_nl [simp]: "is_linesep nl"
  by (simp add: is_linesep_def ord_chr_def)

definition one_text_line :: "string \<Rightarrow> bool" where
  "one_text_line l \<longleftrightarrow> (\<forall>c \<in> set l. \<not> is_linesep c)"

lemma splitlines_line: "one_text_line l \<Longrightarrow> splitlines (l @ nl # r) = l # splitlines r"
  unfolding one_text_line_def by (induction l) auto

lemma splitlines_join:
  "\<forall>l \<in> set ls. one_text_line l \<Longrightarrow> splitlines (join_with [nl] (ls @ [[]])) = ls"
proof (induction ls)
  case (Cons l ls)
  have "join_with [nl] ((l # ls) @ [[]]) = l @ nl # join_with [nl] (ls @ [[]])"
    by (cases ls) simp_all
  then show ?case using Cons by (simp add: splitlines_line)
qed simp

lemma splitlines_lines: "l \<in> set (splitlines t) \<Longrightarrow> one_text_line l"
proof (induction t arbitrary: l)
  case (Cons c t)
  have "\<forall>l \<in> set (splitlines t). \<forall>c \<in> set l. \<not> is_linesep c"
    using Cons.IH by (auto simp: one_text_line_def)
  then show ?case
    using Cons.prems by (cases "splitlines t") (auto simp: one_text_line_def split: if_splits)
qed simp

text \<open>The keys a parsed line can have.\<close>

definition env_key :: "string \<Rightarrow> bool" where
  "env_key k \<longleftrightarrow> k \<noteq> [] \<and> \<not> is_space (hd k) \<and> \<not> is_space (last k) \<and> hd k \<noteq> CHR ''#'' \<and> CHR ''='' \<notin> set k
     \<and> one_text_line k"

lemma strip_ends:
  assumes "k \<noteq> []" "\<not> is_space (hd k)" "\<not> is_space (last k)"
  shows "strip k = k"
proof -
  have "dropWhile is_space k = k" using assms by (cases k) auto
  moreover have "dropWhile is_space (rev k) = rev k" using assms by (cases "rev k") (auto simp: hd_rev [symmetric])
  ultimately show ?thesis by (simp add: strip_def strip_by_def rstrip_by_def)
qed

lemma env_line_pair:
  assumes "env_key k"
  shows "env_line (k @ CHR ''='' # v) = Some (k, clean_value v)"
proof -
  obtain c k' where k: "k = c # k'" "\<not> is_space c" "c \<noteq> CHR ''#''" using assms by (cases k) (auto simp: env_key_def)
  then have l: "strip (k @ CHR ''='' # v) = k @ CHR ''='' # rstrip_by is_space v"
    using rstrip_by_stop [of is_space "CHR ''=''" k v] by (simp add: strip_def strip_by_def)
  have "strip k = k" using assms by (intro strip_ends) (auto simp: env_key_def)
  moreover have "CHR ''='' \<notin> set k" using assms by (simp add: env_key_def)
  moreover have "\<not> startswith (k @ t) ''#''" for t using k by (simp add: startswith_def)
  ultimately show ?thesis by (simp add: env_line_def l partition_at_append clean_value_def)
qed

lemma env_line_comment: "env_line (CHR ''#'' # r) = None"
proof -
  have "strip (CHR ''#'' # r) = CHR ''#'' # rstrip_by is_space r"
    using rstrip_by_stop [of is_space "CHR ''#''" "[]" r] by (simp add: strip_def strip_by_def)
  then show ?thesis by (simp add: env_line_def startswith_def)
qed

lemma env_line_empty [simp]: "env_line [] = None"
  by (simp add: env_line_def strip_def strip_by_def rstrip_by_def)

lemma set_rstrip: "set (rstrip_by p s) \<subseteq> set s"
  by (auto simp: rstrip_by_def dest: set_dropWhileD)

lemma set_strip_by: "set (strip_by p s) \<subseteq> set s"
  unfolding strip_by_def using set_rstrip [of p "dropWhile p s"] by (auto dest: set_dropWhileD)

lemma set_clean_value: "set (clean_value v) \<subseteq> set v"
  unfolding clean_value_def strip_char_def strip_def
  by (rule subset_trans [OF set_strip_by subset_trans [OF set_strip_by set_strip_by]])

lemma hd_strip: "strip s \<noteq> [] \<Longrightarrow> \<not> is_space (hd (strip s))"
proof -
  assume ne: "strip s \<noteq> []"
  have "strip s = dropWhile is_space (rstrip_by is_space s)"
    by (simp add: strip_def strip_by_def dropWhile_rstrip_by)
  with ne show ?thesis by (metis hd_dropWhile)
qed

lemma last_strip: "strip s \<noteq> [] \<Longrightarrow> \<not> is_space (last (strip s))"
  unfolding strip_def strip_by_def rstrip_by_def by (simp add: last_rev hd_dropWhile)

lemma strip_takes_hd:
  assumes "s \<noteq> []" "\<not> is_space (hd s)"
  shows "strip s \<noteq> [] \<and> hd (strip s) = hd s"
proof -
  obtain c s' where "s = c # s'" using assms by (cases s) auto
  then show ?thesis
    using assms rstrip_by_stop [of is_space c "[]" s'] by (simp add: strip_def strip_by_def)
qed

lemma env_line_parts:
  assumes "env_line line = Some (k, v)" "k \<noteq> []" "one_text_line line"
  shows "env_key k \<and> one_text_line v"
proof -
  let ?l = "strip line" and ?k = "takeWhile (\<lambda>x. x \<noteq> CHR ''='') (strip line)"
    and ?v = "drop 1 (dropWhile (\<lambda>x. x \<noteq> CHR ''='') (strip line))"
  have l: "?l \<noteq> []" "\<not> startswith ?l ''#''" and k: "k = strip ?k" and v: "v = clean_value ?v"
    using assms(1) by (auto simp: env_line_def Let_def partition_at_def split: if_splits)
  have sub: "set ?l \<subseteq> set line" unfolding strip_def by (rule set_strip_by)
  have kne: "?k \<noteq> []" using k assms(2) by (auto simp: strip_def strip_by_def rstrip_by_def)
  then have hd: "hd ?k = hd ?l" by (cases ?l) auto
  have h: "\<not> is_space (hd ?k)" "hd ?k \<noteq> CHR ''#''"
    using hd_strip [OF l(1)] l unfolding hd by (auto simp: startswith_def neq_Nil_conv)
  have "hd k = hd ?k" using strip_takes_hd [OF kne h(1)] k by simp
  moreover have ks: "set k \<subseteq> set ?k" unfolding k strip_def by (rule set_strip_by)
  moreover have "CHR ''='' \<notin> set ?k" by (auto dest: set_takeWhileD)
  moreover have "set ?k \<subseteq> set ?l" "set ?v \<subseteq> set ?l"
    by (auto dest: set_takeWhileD in_set_dropD set_dropWhileD)
  then have "set k \<subseteq> set line" "set v \<subseteq> set line"
    using ks sub set_clean_value [of ?v] unfolding v by blast+
  then have "one_text_line k" "one_text_line v" using assms(3) unfolding one_text_line_def by blast+
  moreover have "\<not> is_space (last k)" using last_strip [of ?k] assms(2) k by simp
  ultimately show ?thesis using h assms(2) unfolding env_key_def by auto
qed

lemma read_dict_inv:
  assumes "\<forall>l \<in> set ls. one_text_line l" "dict_ok out" "\<forall>(k, v) \<in> set out. env_key k \<and> one_text_line v"
  shows "dict_ok (read_dict ls out) \<and> (\<forall>(k, v) \<in> set (read_dict ls out). env_key k \<and> one_text_line v)"
  using assms
proof (induction ls out rule: read_dict.induct)
  case (2 line ls out)
  show ?case
  proof (cases "env_line line")
    case None
    then show ?thesis using 2 by simp
  next
    case (Some kv)
    obtain k v where kv: "kv = (k, v)" by (cases kv)
    let ?out = "if k \<noteq> [] then dict_set k v out else out"
    have ok: "dict_ok ?out" using 2(4) by (simp add: dict_ok_set)
    have entry: "env_key a \<and> one_text_line b" if ab: "(a, b) \<in> set ?out" for a b
    proof -
      have "dict_get ?out a = Some b" by (rule iffD2 [OF dict_get_Some_iff [OF ok] ab])
      then show "env_key a \<and> one_text_line b"
      proof (cases "k \<noteq> [] \<and> a = k")
        case True
        then show ?thesis using \<open>dict_get ?out a = Some b\<close> env_line_parts [of line k v] Some kv 2(3) by simp
      next
        case False
        then have "dict_get out a = Some b" using \<open>dict_get ?out a = Some b\<close> by (simp split: if_splits)
        then have "(a, b) \<in> set out" by (rule iffD1 [OF dict_get_Some_iff [OF 2(4)]])
        then show ?thesis using 2(5) by blast
      qed
    qed
    have "\<forall>l \<in> set ls. one_text_line l" using 2(3) by simp
    from 2(2) [OF Some kv [symmetric] this ok] entry
    have "dict_ok (read_dict ls ?out) \<and> (\<forall>(k, v) \<in> set (read_dict ls ?out). env_key k \<and> one_text_line v)"
      by blast
    then show ?thesis using Some kv by simp
  qed
qed simp

lemma read_dict_other:
  "\<forall>l \<in> set ls. \<forall>v. env_line l \<noteq> Some (k, v) \<Longrightarrow> dict_get (read_dict ls out) k = dict_get out k"
  by (induction ls out rule: read_dict.induct) (auto split: option.split)

lemma read_dict_append: "read_dict (a @ b) out = read_dict b (read_dict a out)"
  by (induction a out rule: read_dict.induct) (auto split: option.split)

text \<open>Settings written from a dictionary are read back, cleaned once more.\<close>

lemma read_dict_pairs:
  assumes "distinct (map fst d)" "\<forall>(k, v) \<in> set d. env_key k"
  shows "dict_get (read_dict (map (\<lambda>(k, v). k @ ''='' @ v) d) out) k =
    (case dict_get d k of Some v \<Rightarrow> Some (clean_value v) | None \<Rightarrow> dict_get out k)"
  using assms
proof (induction d arbitrary: out)
  case (Cons kv d)
  obtain a v where kv: "kv = (a, v)" by (cases kv)
  have a: "env_key a" "a \<noteq> []" using Cons.prems kv by (auto simp: env_key_def)
  have "dict_get d a = None" using Cons.prems kv dict_get_keys [of d a] by (auto simp: keys_def)
  then show ?case using Cons kv a by (auto simp: env_line_pair split: option.split)
qed simp

definition plain_word :: "string \<Rightarrow> bool" where
  "plain_word w \<longleftrightarrow> (\<forall>c \<in> set w. \<not> is_space c \<and> c \<noteq> CHR '','' \<and> c \<noteq> CHR 0x22 \<and> c \<noteq> CHR 0x27)"

lemma clean_value_id:
  "\<forall>c \<in> set v. \<not> is_space c \<and> c \<noteq> CHR 0x22 \<and> c \<noteq> CHR 0x27 \<Longrightarrow> clean_value v = v"
  by (simp add: clean_value_def strip_def strip_char_def strip_by_id)

lemma set_join_with: "c \<in> set (join_with sep ws) \<Longrightarrow> c \<in> set sep \<or> (\<exists>w \<in> set ws. c \<in> set w)"
  by (induction sep ws rule: join_with.induct) auto

lemma clean_plain: "plain_word w \<Longrightarrow> clean_value w = w"
  by (rule clean_value_id) (auto simp: plain_word_def)

lemma join_plain:
  assumes "\<forall>w \<in> set ws. plain_word w" "c \<in> set (join_with '','' ws)"
  shows "\<not> is_space c \<and> c \<noteq> CHR 0x22 \<and> c \<noteq> CHR 0x27"
proof -
  have "c = CHR '','' \<or> (\<exists>w \<in> set ws. c \<in> set w)" using set_join_with [OF assms(2)] by simp
  moreover have "\<not> is_space (CHR '','')" by code_simp
  ultimately show ?thesis using assms(1) unfolding plain_word_def by auto
qed

lemma plain_line: "\<forall>c \<in> set v. \<not> is_space c \<Longrightarrow> one_text_line v"
  unfolding one_text_line_def using linesep_space by blast

lemma digit_not_linesep: "is_digit c \<Longrightarrow> \<not> is_linesep c"
  by (auto simp: is_digit_def is_linesep_def Let_def)

lemma one_text_line_append [simp]: "one_text_line (a @ b) \<longleftrightarrow> one_text_line a \<and> one_text_line b"
  by (auto simp: one_text_line_def)

lemma one_text_line_int [simp]: "one_text_line (str_of_int i)"
proof -
  have "one_text_line (str_of_nat n)" for n
    using str_of_nat_digits [of n] digit_not_linesep by (auto simp: one_text_line_def list_all_iff)
  then show ?thesis by (auto simp: str_of_int_def one_text_line_def is_linesep_def ord_chr_def)
qed

lemma one_text_line_Cons [simp]: "one_text_line (c # l) \<longleftrightarrow> \<not> is_linesep c \<and> one_text_line l"
  by (simp add: one_text_line_def)

lemma one_text_line_pad2 [simp]: "one_text_line (pad2 i)"
  by (simp add: pad2_def) (simp add: is_linesep_def ord_chr_def)

lemma one_text_line_stamp: "one_text_line (utc_stamp t)"
proof -
  obtain y m d where c: "civil (\<lfloor>t\<rfloor> div 86400) = (y, m, d)" by (cases "civil (\<lfloor>t\<rfloor> div 86400)")
  have lit: "\<not> is_linesep (CHR ''-'')" "\<not> is_linesep (CHR ''T'')" "\<not> is_linesep (CHR '':'')"
    "\<not> is_linesep (CHR ''Z'')" "one_text_line []"
    by (simp_all add: one_text_line_def is_linesep_def ord_chr_def)
  show ?thesis unfolding utc_stamp_def Let_def c prod.case by (simp add: lit)
qed

lemma dict_get_filter: "dict_get (filter (\<lambda>(k, v). P k) d) k = (if P k then dict_get d k else None)"
  by (induction d) auto

definition own_settings :: "string \<Rightarrow> string \<Rightarrow> string list \<Rightarrow> string list \<Rightarrow> string dict" where
  "own_settings name ip ips names =
     [(''NODE_NAME'', name), (''LOCAL_IP'', ip), (''PEER_IPS'', join_with '','' ips),
      (''PEER_NAMES'', join_with '','' names), (''ETCD_INITIAL_CLUSTER_STATE'', ''existing'')]"

lemma joiner_env_lines_alt:
  "joiner_env_lines t leader_env name ip ips names =
     [rule_line, ''# milvus-onprem cluster.env (joiner copy)'', ''# Issued by leader at '' @ utc_stamp t, rule_line, []]
     @ map (\<lambda>(k, v). k @ ''='' @ v) (own_settings name ip ips names)
     @ [[]] @ map (\<lambda>(k, v). k @ ''='' @ v) (filter (\<lambda>(k, v). k \<notin> set PER_PEER_KEYS) leader_env)"
  by (simp add: joiner_env_lines_def own_settings_def)

lemma own_settings_keys:
  "distinct (map fst (own_settings name ip ips names))" "\<forall>(k, v) \<in> set (own_settings name ip ips names). env_key k"
proof -
  have "env_key ''NODE_NAME''" "env_key ''LOCAL_IP''" "env_key ''PEER_IPS''" "env_key ''PEER_NAMES''"
    "env_key ''ETCD_INITIAL_CLUSTER_STATE''" by code_simp+
  then show "distinct (map fst (own_settings name ip ips names))"
    "\<forall>(k, v) \<in> set (own_settings name ip ips names). env_key k" by (simp_all add: own_settings_def)
qed

lemma env_line_rule [simp]: "env_line rule_line = None"
  by (simp add: rule_line_def env_line_comment)

text \<open>What a reader of the joiner's file finds.\<close>

lemma read_joiner_lines:
  assumes "dict_ok leader_env" "\<forall>(k, v) \<in> set leader_env. env_key k"
  shows "dict_get (read_dict (joiner_env_lines t leader_env name ip ips names) []) k =
    (case dict_get (filter (\<lambda>(k, v). k \<notin> set PER_PEER_KEYS) leader_env) k of
       Some v \<Rightarrow> Some (clean_value v)
     | None \<Rightarrow> map_option clean_value (dict_get (own_settings name ip ips names) k))"
proof -
  let ?sh = "filter (\<lambda>(k, v). k \<notin> set PER_PEER_KEYS) leader_env"
  have sh: "distinct (map fst ?sh)" "\<forall>(k, v) \<in> set ?sh. env_key k"
    using assms by (auto simp: dict_ok_def keys_def distinct_map_filter)
  show ?thesis
    unfolding joiner_env_lines_alt read_dict_append
    using read_dict_pairs [OF sh] read_dict_pairs [OF own_settings_keys]
    by (simp add: env_line_comment split: option.split)
qed

lemma joiner_lines_plain:
  assumes "\<forall>(k, v) \<in> set leader_env. env_key k \<and> one_text_line v"
    and "plain_word name" "plain_word ip" "\<forall>w \<in> set ips. plain_word w" "\<forall>w \<in> set names. plain_word w"
  shows "\<forall>l \<in> set (joiner_env_lines t leader_env name ip ips names). one_text_line l"
proof -
  have lit: "one_text_line rule_line" "one_text_line ''# milvus-onprem cluster.env (joiner copy)''"
    "one_text_line ''# Issued by leader at ''" "one_text_line []" "one_text_line ''=''" "one_text_line ''existing''"
    by code_simp+
  have vals: "one_text_line name" "one_text_line ip" "one_text_line (join_with '','' ips)"
    "one_text_line (join_with '','' names)"
    using assms(2,3) join_plain [OF assms(4)] join_plain [OF assms(5)]
    by (intro plain_line; simp add: plain_word_def)+
  have "one_text_line (k @ ''='' @ v)" if "(k, v) \<in> set (own_settings name ip ips names)" for k v
    using own_settings_keys(2) [of name ip ips names] that lit vals
    by (auto simp: own_settings_def env_key_def)
  moreover have "one_text_line (k @ ''='' @ v)" if "(k, v) \<in> set leader_env" for k v
    using assms(1) that lit by (auto simp: env_key_def)
  ultimately show ?thesis
    unfolding joiner_env_lines_alt using lit one_text_line_stamp [of t] by auto
qed

text \<open>C17. The file issued to a joiner says what the leader decided: read back with the daemon's own parser, it
  gives the joiner's name and address, the two peer lists in parallel, and \<open>existing\<close> as the etcd state;
  every shared setting of the leader's file comes through (with its quotes stripped once more), and none
  of the leader's own per-peer settings does.\<close>

theorem joiner_env_roundtrip:
  assumes "leader_env = read_dict (splitlines text) []"
    and "build_joiner_cluster_env sys leader_env name ip ips names s = (Inr env, t)"
    and "plain_word name" "plain_word ip" "\<forall>w \<in> set ips. plain_word w" "\<forall>w \<in> set names. plain_word w"
  defines "joiner \<equiv> read_dict (splitlines env) []"
  shows "dict_get joiner ''NODE_NAME'' = Some name \<and> dict_get joiner ''LOCAL_IP'' = Some ip
    \<and> map_option (split_on (CHR '','')) (dict_get joiner ''PEER_IPS'') = Some ips
    \<and> map_option (split_on (CHR '','')) (dict_get joiner ''PEER_NAMES'') = Some names
    \<and> dict_get joiner ''ETCD_INITIAL_CLUSTER_STATE'' = Some ''existing''
    \<and> dict_get joiner ''HOST_REPO_ROOT'' = None
    \<and> (\<forall>k. k \<notin> set PER_PEER_KEYS \<longrightarrow> dict_get joiner k = map_option clean_value (dict_get leader_env k))"
proof -
  have le: "dict_ok leader_env" "\<forall>(k, v) \<in> set leader_env. env_key k \<and> one_text_line v"
    using read_dict_inv [of "splitlines text" "[]"] splitlines_lines unfolding assms(1) by auto
  then have le': "\<forall>(k, v) \<in> set leader_env. env_key k" by auto
  let ?t = "fst (sys_time sys (st_world s))"
  have guards: "length names = length ips" "ip \<in> set ips" "name \<in> set names"
    and env: "env = join_with [nl] (joiner_env_lines ?t leader_env name ip ips names @ [[]])"
    using assms(2)
    by (auto simp: build_joiner_cluster_env_def bnd_def now_def call_def ret_def raise_def split: if_splits)
  have "splitlines env = joiner_env_lines ?t leader_env name ip ips names"
    unfolding env by (rule splitlines_join [OF joiner_lines_plain [OF le(2) assms(3-6)]])
  then have J: "dict_get joiner k = (if k \<in> set PER_PEER_KEYS then map_option clean_value (dict_get (own_settings name ip ips names) k)
      else map_option clean_value (dict_get leader_env k))" for k
    unfolding joiner_def using read_joiner_lines [OF le(1) le', of ?t name ip ips names k]
    by (auto simp: dict_get_filter own_settings_def PER_PEER_KEYS_def split: option.splits)
  have ne: "ips \<noteq> []" "names \<noteq> []" using guards by auto
  have sp: "split_on (CHR '','') (join_with '','' ips) = ips" "split_on (CHR '','') (join_with '','' names) = names"
    using ne assms(5,6) by (auto intro!: split_on_join simp: plain_word_def)
  have cl: "clean_value (join_with '','' ips) = join_with '','' ips" "clean_value (join_with '','' names) = join_with '','' names"
    using join_plain [OF assms(5)] join_plain [OF assms(6)] by (intro clean_value_id; simp)+
  have ex: "clean_value ''existing'' = ''existing''" by code_simp
  show ?thesis
    unfolding J by (simp add: PER_PEER_KEYS_def own_settings_def clean_plain [OF assms(3)] clean_plain [OF assms(4)] cl sp ex)
qed

definition leader_file :: string where
  "leader_file = ''NODE_NAME=node-1'' @ [nl] @ ''HOST_REPO_ROOT=/srv'' @ [nl] @ ''MQ_TYPE=pulsar'' @ [nl]"

theorem joiner_env_roundtrip_witness:
  "\<exists>env t. build_joiner_cluster_env mem_sys (read_dict (splitlines leader_file) []) ''node-2'' ''10.0.0.2''
        [''10.0.0.1'', ''10.0.0.2''] [''node-1'', ''node-2''] (start world0) = (Inr env, t)
     \<and> dict_get (read_dict (splitlines env) []) ''NODE_NAME'' = Some ''node-2''
     \<and> dict_get (read_dict (splitlines env) []) ''MQ_TYPE'' = Some ''pulsar''"
proof -
  let ?e = "read_dict (splitlines leader_file) []"
  let ?b = "build_joiner_cluster_env mem_sys ?e ''node-2'' ''10.0.0.2'' [''10.0.0.1'', ''10.0.0.2'']
     [''node-1'', ''node-2''] (start world0)"
  obtain env t where b: "?b = (Inr env, t)"
    by (simp add: build_joiner_cluster_env_def bnd_def now_def call_def ret_def)
  have p: "plain_word ''node-2''" "plain_word ''10.0.0.2''" "\<forall>w \<in> set [''10.0.0.1'', ''10.0.0.2'']. plain_word w"
    "\<forall>w \<in> set [''node-1'', ''node-2'']. plain_word w" by code_simp+
  have m: "''MQ_TYPE'' \<notin> set PER_PEER_KEYS" "map_option clean_value (dict_get ?e ''MQ_TYPE'') = Some ''pulsar''"
    by code_simp+
  note r = joiner_env_roundtrip [OF refl b p]
  have "dict_get (read_dict (splitlines env) []) ''NODE_NAME'' = Some ''node-2''" using r by blast
  moreover have "dict_get (read_dict (splitlines env) []) ''MQ_TYPE'' = Some ''pulsar''"
    using r m by metis
  ultimately show ?thesis using b by blast
qed

section \<open>The effect of a join on the topology\<close>

definition topo_wf :: "(string \<rightharpoonup> etcd_value) \<Rightarrow> bool" where
  "topo_wf m \<longleftrightarrow> (\<forall>name v. m (TOPOLOGY_PREFIX @ name) = Some v \<longrightarrow> (\<exists>d. v = Json d))"

lemma topo_view_None: "topo_wf m \<Longrightarrow> topo_view m n = None \<longleftrightarrow> m (TOPOLOGY_PREFIX @ n) = None"
  by (cases "m (TOPOLOGY_PREFIX @ n)") (auto simp: topo_wf_def topo_view_def)

lemma registered_as_Some:
  "registered_as ps ip = Some n \<Longrightarrow> \<exists>info. (n, info) \<in> set ps \<and> ip_of info = Some ip"
  by (induction ps ip rule: registered_as.induct) (auto split: if_splits)

lemma registered_as_None:
  "registered_as ps ip = None \<Longrightarrow> (n, info) \<in> set ps \<Longrightarrow> ip_of info \<noteq> Some ip"
  by (induction ps ip rule: registered_as.induct) (auto split: if_splits)

definition has_ip :: "(string \<rightharpoonup> etcd_value) \<Rightarrow> string \<Rightarrow> string \<Rightarrow> bool" where
  "has_ip m ip n \<longleftrightarrow> (\<exists>info. topo_view m n = Some info \<and> ip_of info = Some ip)"

lemma registered_as_mirrors:
  assumes "dict_ok ps" "mirrors ps m"
  shows "case registered_as ps ip of Some n \<Rightarrow> has_ip m ip n | None \<Rightarrow> \<forall>n. \<not> has_ip m ip n"
proof (cases "registered_as ps ip")
  case None
  then show ?thesis
    using registered_as_None [OF None] assms by (auto simp: has_ip_def mirrors_def dict_get_Some_iff [symmetric])
next
  case (Some n)
  then show ?thesis
    using registered_as_Some [OF Some] assms by (auto simp: has_ip_def mirrors_def dict_get_Some_iff [symmetric])
qed

lemma allocated_absent:
  assumes "mirrors ps m"
  shows "topo_view m (allocate_next_name (keys ps)) = None"
proof -
  let ?N = "next_free (used_suffixes (keys ps)) 1"
  have "?N \<notin> set (used_suffixes (keys ps))" using next_free_spec by blast
  then have "''node-'' @ str_of_nat ?N \<notin> set (keys ps)"
    unfolding set_used_suffixes using node_suffix_mk by blast
  then show ?thesis
    using assms dict_get_keys [of ps "allocate_next_name (keys ps)"]
    by (auto simp: mirrors_def allocate_next_name_def)
qed

lemma wp_read_cluster_env:
  "wp (read_cluster_env sys) (\<lambda>_ t. st_world t = snd (sys_read sys ''/repo/cluster.env'' (st_world s)))
     (\<lambda>e t. is_Exception e \<and> st_world t = snd (sys_read sys ''/repo/cluster.env'' (st_world s))) s"
  by (auto simp: read_cluster_env_def wp_simps read_file_def split: option.split)

context kv_store
begin

lemma wait_loop_kv:
  "wp (wait_healthy_loop sys fuel deadline) (\<lambda>_ t. kv (st_world t) = kv (st_world s))
     (\<lambda>_ t. kv (st_world t) = kv (st_world s)) s"
proof (induction fuel arbitrary: s)
  case 0
  then show ?case by (simp add: wp_simps)
next
  case (Suc fuel)
  have step: "wp (bnd (sleep sys 2) (\<lambda>_. wait_healthy_loop sys fuel deadline))
      (\<lambda>_ t. kv (st_world t) = kv (st_world s)) (\<lambda>_ t. kv (st_world t) = kv (st_world s)) s'"
    if "kv (st_world s') = kv (st_world s)" for s'
    unfolding wp_bnd sleep_def wp_call
    by (rule wp_mono [OF Suc.IH]) (use that in \<open>simp_all add: clock_spec\<close>)
  show ?case
    by (cases "fst (sys_monotonic sys (st_world s)) < deadline")
      (simp add: wp_bnd wp_try_except monotonic_def wp_call, rule wp_mono [OF member_list_spec],
        auto simp: wp_ret wp_bnd wp_call wp_raise monotonic_def clock_spec step [unfolded wp_bnd])
qed

lemma issue_env_kv:
  "wp (issue_env sys cfg ps name ip)
     (\<lambda>r t. kv (st_world t) = kv (st_world s) \<and> jr_node_name r = name \<and> jr_local_ip r = ip)
     (\<lambda>e t. is_Exception e \<and> kv (st_world t) = kv (st_world s)) s"
  unfolding issue_env_def Let_def wp_bnd
  by (rule wp_mono [OF wp_read_cluster_env])
    (auto simp: build_joiner_cluster_env_def wp_simps now_def clock_spec)

lemma member_add_or_rollback_kv:
  assumes "TOPOLOGY_PREFIX @ name \<notin> leased"
  shows "wp (member_add_or_rollback sys cfg name ip)
    (\<lambda>_ t. kv (st_world t) = kv (st_world s)
       \<and> last (st_trace t) = A_etcd (Member_add [''http://'' @ ip @ '':'' @ str_of_int (etcd_peer_port cfg)]))
    (\<lambda>e t. kv (st_world t) = kv (st_world s) \<or> kv (st_world t) = (kv (st_world s))(TOPOLOGY_PREFIX @ name := None)) s"
proof -
  let ?us = "[''http://'' @ ip @ '':'' @ str_of_int (etcd_peer_port cfg)]"
  have add: "wp (member_add sys ?us) (\<lambda>_ t. kv (st_world t) = kv (st_world s) \<and> last (st_trace t) = A_etcd (Member_add ?us))
      (\<lambda>e t. is_Exception e \<and> kv (st_world t) = kv (st_world s)) s"
    using wp_conj [OF member_add_spec [of ?us s] post_loop_last [of sys "Member_add ?us" "0 # retry_delays" s, folded post_def member_add_def]]
    by (rule wp_mono) auto
  show ?thesis unfolding member_add_or_rollback_def wp_try_except wp_bnd
    by (rule wp_mono [OF add])
      (auto simp: wp_simps intro!: wp_mono [OF delete_spec [OF assms]])
qed

end

text \<open>The store with the joiner's entry under a name that was free.\<close>

definition registered :: "(string \<rightharpoonup> etcd_value) \<Rightarrow> string \<Rightarrow> string \<Rightarrow> string option
    \<Rightarrow> (string \<rightharpoonup> etcd_value) \<Rightarrow> bool" where
  "registered m name ip host m' \<longleftrightarrow> topo_view m name = None
     \<and> (\<exists>t. m' = m(TOPOLOGY_PREFIX @ name \<mapsto> Json (peer_entry name ip host t)))"

context kv_store
begin

lemma new_join_wp:
  assumes L: "prefix_free leased TOPOLOGY_PREFIX" and wf: "topo_wf (kv (st_world s))"
    and new: "topo_view (kv (st_world s)) name = None"
  shows "wp (bnd (now sys) (\<lambda>t.
        bnd (put_if_absent sys (TOPOLOGY_PREFIX @ name) (Json (peer_entry name ip host t)) None) (\<lambda>_.
        bnd (issue_env sys cfg ps name ip) (\<lambda>res.
        bnd (member_add_or_rollback sys cfg name ip) (\<lambda>_. ret res)))))
    (\<lambda>r t. jr_node_name r = name \<and> jr_local_ip r = ip \<and> registered (kv (st_world s)) name ip host (kv (st_world t))
       \<and> last (st_trace t) = A_etcd (Member_add [''http://'' @ ip @ '':'' @ str_of_int (etcd_peer_port cfg)]))
    (\<lambda>e t. kv (st_world t) = kv (st_world s) \<or> registered (kv (st_world s)) name ip host (kv (st_world t))) s"
proof -
  let ?k = "TOPOLOGY_PREFIX @ name" and ?m = "kv (st_world s)"
  have k: "?k \<notin> leased" using L by (auto simp: prefix_free_def)
  have absent: "?m ?k = None" using new topo_view_None [OF wf] by simp
  have reg: "registered ?m name ip host (?m(?k \<mapsto> Json (peer_entry name ip host t)))" for t
    using new by (auto simp: registered_def)
  have rest: "wp (bnd (issue_env sys cfg ps name ip) (\<lambda>res. bnd (member_add_or_rollback sys cfg name ip) (\<lambda>_. ret res)))
      (\<lambda>r t. jr_node_name r = name \<and> jr_local_ip r = ip \<and> registered ?m name ip host (kv (st_world t))
         \<and> last (st_trace t) = A_etcd (Member_add [''http://'' @ ip @ '':'' @ str_of_int (etcd_peer_port cfg)]))
      (\<lambda>e t. kv (st_world t) = ?m \<or> registered ?m name ip host (kv (st_world t))) s'"
    if kv': "kv (st_world s') = ?m(?k \<mapsto> Json (peer_entry name ip host t0))" for s' t0
    unfolding wp_bnd
  proof (rule wp_mono [OF issue_env_kv], goal_cases)
    case (1 r t)
    have "(?m(?k \<mapsto> x))(?k := None) = ?m" for x using absent by auto
    then show ?case using 1 kv' reg
      by (intro wp_mono [OF member_add_or_rollback_kv [OF k]]) (auto simp: wp_ret)
  next
    case (2 e t)
    then show ?case using kv' reg by simp
  qed
  show ?thesis
    unfolding wp_bnd now_def wp_call
    by (rule wp_mono [OF put_if_absent_spec [OF k]])
      (use absent reg rest [unfolded wp_bnd] in \<open>auto simp: clock_spec split: if_splits\<close>)
qed

lemma do_join_wp:
  assumes L: "prefix_free leased TOPOLOGY_PREFIX" and wf: "topo_wf (kv (st_world s))"
  shows "wp (do_join sys fuel cfg ip host)
    (\<lambda>r t. jr_local_ip r = ip \<and>
       (if \<exists>n. has_ip (kv (st_world s)) ip n
        then kv (st_world t) = kv (st_world s) \<and> has_ip (kv (st_world s)) ip (jr_node_name r)
        else registered (kv (st_world s)) (jr_node_name r) ip host (kv (st_world t))
          \<and> last (st_trace t) = A_etcd (Member_add [''http://'' @ ip @ '':'' @ str_of_int (etcd_peer_port cfg)])))
    (\<lambda>e t. kv (st_world t) = kv (st_world s)
       \<or> (\<forall>n. \<not> has_ip (kv (st_world s)) ip n) \<and> (\<exists>name. registered (kv (st_world s)) name ip host (kv (st_world t)))) s"
  (is "wp _ ?Q ?E s")
proof -
  let ?m = "kv (st_world s)"
  let ?body = "\<lambda>parsed. case registered_as parsed ip of
         Some name \<Rightarrow> issue_env sys cfg (filter (\<lambda>(k, v). k \<noteq> name) parsed) name ip
       | None \<Rightarrow>
           (let new_name = allocate_next_name (keys parsed) in
            bnd (now sys) (\<lambda>t.
            bnd (put_if_absent sys (TOPOLOGY_PREFIX @ new_name) (Json (peer_entry new_name ip host t)) None) (\<lambda>_.
            bnd (issue_env sys cfg parsed new_name ip) (\<lambda>res.
            bnd (member_add_or_rollback sys cfg new_name ip) (\<lambda>_. ret res)))))"
  have eq: "do_join sys fuel cfg ip host = bnd (wait_cluster_healthy sys fuel 180) (\<lambda>_.
      bnd (authoritative_peers sys) ?body)"
    by (simp add: do_join_def authoritative_peers_def bnd_map Let_def)
  have body: "wp (?body ps) ?Q ?E t"
    if "dict_ok ps" "mirrors ps ?m" "kv (st_world t) = ?m" for ps t
  proof (cases "registered_as ps ip")
    case (Some n)
    then have "has_ip ?m ip n" using registered_as_mirrors [OF that(1,2), of ip] by simp
    with Some that(3) show ?thesis by (simp, intro wp_mono [OF issue_env_kv]) auto
  next
    case None
    then have no: "\<forall>n. \<not> has_ip ?m ip n" using registered_as_mirrors [OF that(1,2), of ip] by simp
    show ?thesis unfolding None option.case Let_def
      by (rule wp_mono [OF new_join_wp [OF L]]) (use no that wf allocated_absent in auto)
  qed
  have wait: "wp (wait_cluster_healthy sys fuel 180) (\<lambda>_ t. kv (st_world t) = ?m) (\<lambda>_ t. kv (st_world t) = ?m) s"
    unfolding wait_cluster_healthy_def wp_bnd monotonic_def wp_call
    by (rule wp_mono [OF wait_loop_kv]) (simp_all add: clock_spec)
  show ?thesis unfolding eq wp_bnd
  proof (rule wp_mono [OF wait], goal_cases)
    case (1 u t)
    show ?case by (rule wp_mono [OF authoritative_spec [OF L]]) (use 1 body in auto)
  qed auto
qed

end

text \<open>C5. A join that succeeds registers the joiner once: for an address already in the topology, the answer
  carries the name it is registered under and the store is unchanged; for a new address, exactly one entry
  is added, under a name that was free, it names the joiner and its address, and the request to add the
  etcd member is the last thing the handler sent anywhere.\<close>

theorem join_registers_once:
  assumes "etcd_gateway sys leased kv" and "prefix_free leased TOPOLOGY_PREFIX"
    and "topo_wf (kv (st_world s))"
    and "handle_join sys fuel cfg ip host s = (Inr res, t)"
  shows "is_valid_ipv4 ip \<and> jr_local_ip res = ip \<and>
    (if \<exists>n. has_ip (kv (st_world s)) ip n
     then kv (st_world t) = kv (st_world s) \<and> has_ip (kv (st_world s)) ip (jr_node_name res)
     else registered (kv (st_world s)) (jr_node_name res) ip host (kv (st_world t))
       \<and> last (st_trace t) = A_etcd (Member_add [''http://'' @ ip @ '':'' @ str_of_int (etcd_peer_port cfg)]))"
proof -
  have v: "is_valid_ipv4 ip" and j: "do_join sys fuel cfg ip host s = (Inr res, t)"
    using assms(4) by (auto simp: handle_join_def raise_def split: if_splits)
  from wp_D_ok [OF kv_store.do_join_wp [OF etcd_gateway.client [OF assms(1)] assms(2,3)] j] v
  show ?thesis by simp
qed

definition join_world :: world where
  "join_world = two_nodes\<lparr>w_members := [\<lparr>mem_ID = 1, mem_name = ''node-1'', mem_peerURLs = []\<rparr>],
     w_files := [(''/repo/cluster.env'', leader_file)]\<rparr>"

definition join_cfg :: daemon_config where
  "join_cfg = default_config ''c'' ''node-1'' ''10.0.0.1'' ''secret'' ''http://10.0.0.1:2379''"

lemma join_world_wf: "topo_wf (map_of (w_kv (st_world (start join_world))))"
  by (auto simp: topo_wf_def start_def join_world_def two_nodes_def TOPOLOGY_PREFIX_def split: if_splits)

theorem join_registers_once_witness:
  "\<exists>res t. handle_join mem_sys 91 join_cfg ''10.0.0.2'' None (start join_world) = (Inr res, t)
     \<and> has_ip (map_of (w_kv (st_world (start join_world)))) ''10.0.0.2'' (jr_node_name res)"
proof -
  let ?j = "handle_join mem_sys 91 join_cfg ''10.0.0.2'' None (start join_world)"
  have "map_sum (\<lambda>_. ()) jr_node_name (fst ?j) = Inr ''node-2''" by code_simp
  then obtain res t where j: "?j = (Inr res, t)" by (cases "?j"; cases "fst ?j") auto
  have f: "prefix_free lease_keys TOPOLOGY_PREFIX" by code_simp
  have "topo_view (map_of (w_kv (st_world (start join_world)))) ''node-2'' = Some (node_entry ''10.0.0.2'')"
    "ip_of (node_entry ''10.0.0.2'') = Some ''10.0.0.2''" by code_simp+
  then have "\<exists>n. has_ip (map_of (w_kv (st_world (start join_world)))) ''10.0.0.2'' n" unfolding has_ip_def by blast
  then have "has_ip (map_of (w_kv (st_world (start join_world)))) ''10.0.0.2'' (jr_node_name res)"
    using join_registers_once [OF mem.etcd_gateway_axioms f join_world_wf j] by simp
  with j show ?thesis by blast
qed

text \<open>C27. A join that fails leaves the topology as it was, or with the joiner's own entry under a free name
  and nothing else changed (when it failed after writing that entry and the rollback did not run or did
  not succeed); an address that is not a dotted quad is refused before anything is sent.\<close>

theorem join_failure_contained:
  assumes "etcd_gateway sys leased kv" and "prefix_free leased TOPOLOGY_PREFIX"
    and "topo_wf (kv (st_world s))"
    and "handle_join sys fuel cfg ip host s = (Inl e, t)"
  shows "(\<not> is_valid_ipv4 ip \<longrightarrow> t = s) \<and>
    (kv (st_world t) = kv (st_world s)
     \<or> (\<forall>n. \<not> has_ip (kv (st_world s)) ip n)
       \<and> (\<exists>name. registered (kv (st_world s)) name ip host (kv (st_world t))))"
proof (cases "is_valid_ipv4 ip")
  case True
  then have "do_join sys fuel cfg ip host s = (Inl e, t)" using assms(4) by (simp add: handle_join_def)
  from wp_D_err [OF kv_store.do_join_wp [OF etcd_gateway.client [OF assms(1)] assms(2,3)] this] True
  show ?thesis by simp
qed (use assms(4) in \<open>simp add: handle_join_def raise_def\<close>)

theorem join_failure_contained_witness:
  "\<exists>e t. handle_join mem_sys 91 join_cfg ''10.0.0.300'' None (start join_world) = (Inl e, t) \<and> t = start join_world"
proof -
  let ?j = "handle_join mem_sys 91 join_cfg ''10.0.0.300'' None (start join_world)"
  have v: "\<not> is_valid_ipv4 ''10.0.0.300''" by code_simp
  then have j: "?j = (Inl (JoinError ''invalid joiner IP''), start join_world)"
    by (simp add: handle_join_def raise_def)
  have f: "prefix_free lease_keys TOPOLOGY_PREFIX" by code_simp
  from join_failure_contained [OF mem.etcd_gateway_axioms f join_world_wf j] v j show ?thesis by blast
qed

text \<open>The retry of an interrupted join is not the same join: when the first attempt fails after the
  topology entry is written (here because the leader's cluster.env cannot be read), the retry finds the
  entry, takes the joiner for a member and succeeds without ever asking etcd to add it.\<close>

definition is_member_add :: "act \<Rightarrow> bool" where
  "is_member_add a \<longleftrightarrow> (case a of A_etcd (Member_add us) \<Rightarrow> True | _ \<Rightarrow> False)"

theorem join_retry_skips_member_add:
  "case handle_join mem_sys 91 join_cfg ''10.0.0.3'' None (start (join_world\<lparr>w_files := []\<rparr>)) of
     (Inl e, t) \<Rightarrow> is_Exception e
       \<and> (case handle_join mem_sys 91 join_cfg ''10.0.0.3'' None
              (t\<lparr>st_world := (st_world t)\<lparr>w_files := [(''/repo/cluster.env'', leader_file)]\<rparr>\<rparr>) of
            (Inr res, t') \<Rightarrow> jr_node_name res = ''node-3'' \<and> \<not> list_ex is_member_add (st_trace t')
          | (Inl e, t') \<Rightarrow> False)
   | (Inr res, t) \<Rightarrow> False"
  by code_simp

end
