(* ===== verification/Watchdog.thy ===== *)
theory Watchdog
  imports Json_Text Jobs Joining
begin

text \<open>
  \<open>src/daemon/watchdog.py\<close>: the two watchdogs of a daemon. \<open>LocalComponentWatchdog\<close> restarts local
  containers that stay unhealthy, with a guard against restart loops; \<open>PeerReachabilityWatchdog\<close> probes
  the other peers, raises and clears alerts and may submit a Pulsar migration.

  Each keeps its counters in a record; a tick returns the record, together with the exception when a
  row of \<open>docker ps\<close> is no object, since the counters updated before it keep their values. Lines printed
  with \<open>_emit\<close> are calls of the trace.
\<close>

section \<open>Helpers\<close>

definition watched :: "string \<Rightarrow> bool" where
  "watched name \<longleftrightarrow> name \<noteq> ''milvus-onprem-cp'' \<and> (startswith name ''milvus-'' \<or> startswith name ''milvus'')"

datatype health = Healthy | Unhealthy | Starting | No_healthcheck

definition parse_health :: "string \<Rightarrow> health" where
  "parse_health status =
     (if contains status ''(healthy)'' then Healthy
      else if contains status ''(unhealthy)'' then Unhealthy
      else if contains status ''(health: starting)'' then Starting
      else No_healthcheck)"

definition now_s :: "'w sys \<Rightarrow> ('w, string) io" where
  "now_s sys = bnd (now sys) (\<lambda>t. ret (str_of_int (int_of_float t)))"

definition docker_ps_cmd :: string where
  "docker_ps_cmd = ''docker ps --format '' @ [CHR 0x27] @ ''{{json .}}'' @ [CHR 0x27]"

definition docker_ps :: "'w sys \<Rightarrow> ('w, json list) io" where
  "docker_ps sys =
     bnd (run_cmd sys docker_ps_cmd) (\<lambda>(rc, out, err).
       ret (if rc \<noteq> 0 then []
            else concat (map (\<lambda>line. let l = strip line in
                    if l = [] then [] else (case loads l of None \<Rightarrow> [] | Some j \<Rightarrow> [j]))
                  (splitlines out))))"

section \<open>Local containers\<close>

record local_watchdog =
  lw_consecutive_unhealthy :: "nat dict"
  lw_restart_history :: "(time list) dict"
  lw_loop_alerted :: "string set"

definition new_local_watchdog :: local_watchdog where
  "new_local_watchdog = \<lparr>lw_consecutive_unhealthy = [], lw_restart_history = [], lw_loop_alerted = {}\<rparr>"

text \<open>Reading a \<open>defaultdict\<close>.\<close>

definition dget :: "'v \<Rightarrow> 'v dict \<Rightarrow> string \<Rightarrow> 'v" where
  "dget v d k = (case dict_get d k of Some x \<Rightarrow> x | None \<Rightarrow> v)"

abbreviation unhealthy_ticks :: "local_watchdog \<Rightarrow> string \<Rightarrow> nat" where
  "unhealthy_ticks w n \<equiv> dget 0 (lw_consecutive_unhealthy w) n"

abbreviation history :: "local_watchdog \<Rightarrow> string \<Rightarrow> time list" where
  "history w n \<equiv> dget [] (lw_restart_history w) n"

definition set_unhealthy :: "string \<Rightarrow> nat \<Rightarrow> local_watchdog \<Rightarrow> local_watchdog" where
  "set_unhealthy n k w = w\<lparr>lw_consecutive_unhealthy := dict_set n k (lw_consecutive_unhealthy w)\<rparr>"

definition restart_cmd :: "string \<Rightarrow> string" where
  "restart_cmd name = ''docker restart '' @ name"

definition maybe_restart :: "'w sys \<Rightarrow> daemon_config \<Rightarrow> string \<Rightarrow> local_watchdog \<Rightarrow> ('w, local_watchdog) io" where
  "maybe_restart sys cfg name w =
     (if name \<in> lw_loop_alerted w then ret w
      else if watchdog_restart_loop_max cfg \<le> int (length (history w name)) then
        bnd (now_s sys) (\<lambda>ts.
        bnd (emit (''COMPONENT_RESTART_LOOP ts='' @ ts @ '' container='' @ name @ '' restarts_total=''
               @ str_of_nat (length (history w name)))) (\<lambda>_.
          ret (w\<lparr>lw_loop_alerted := insert name (lw_loop_alerted w)\<rparr>)))
      else if watchdog_mode cfg \<noteq> ''auto'' then ret w
      else
        bnd (now_s sys) (\<lambda>ts.
        bnd (emit (''COMPONENT_RESTART ts='' @ ts @ '' container='' @ name @ '' reason=unhealthy attempt=''
               @ str_of_nat (length (history w name) + 1))) (\<lambda>_.
        bnd (run_cmd sys (restart_cmd name)) (\<lambda>(rc, out, err).
          if rc \<noteq> 0 then ret w
          else bnd (now sys) (\<lambda>t.
            ret (set_unhealthy name 0
              (w\<lparr>lw_restart_history := dict_set name (history w name @ [t]) (lw_restart_history w)\<rparr>)))))))"

text \<open>One container of the listing: \<open>Names\<close>, \<open>State\<close> and \<open>Status\<close>, each empty when missing.\<close>

definition recovered :: "string \<Rightarrow> local_watchdog \<Rightarrow> local_watchdog" where
  "recovered name w =
     (if name \<in> lw_loop_alerted w
      then w\<lparr>lw_loop_alerted := lw_loop_alerted w - {name},
             lw_restart_history := dict_set name [] (lw_restart_history w)\<rparr>
      else w)"

definition container_step :: "'w sys \<Rightarrow> daemon_config \<Rightarrow> string \<Rightarrow> string \<Rightarrow> string \<Rightarrow> local_watchdog
    \<Rightarrow> ('w, local_watchdog) io" where
  "container_step sys cfg name state status w =
     (if \<not> watched name then ret w
      else if state = ''restarting'' then ret (set_unhealthy name 0 w)
      else if parse_health status = Unhealthy then
        (let w1 = set_unhealthy name (unhealthy_ticks w name + 1) w in
         if watchdog_unhealthy_threshold cfg \<le> int (unhealthy_ticks w1 name) then maybe_restart sys cfg name w1
         else ret w1)
      else
        (let w1 = set_unhealthy name 0 w in
         ret (if parse_health status = Healthy then recovered name w1 else w1)))"

text \<open>The loop over the listing: the names seen, the counters, and the exception that ended it, if any.\<close>

fun tick_rows :: "'w sys \<Rightarrow> daemon_config \<Rightarrow> json list \<Rightarrow> string list \<Rightarrow> local_watchdog
    \<Rightarrow> ('w, exn option \<times> string list \<times> local_watchdog) io" where
  "tick_rows sys cfg [] seen w = ret (None, seen, w)"
| "tick_rows sys cfg (JObj c # rows) seen w =
     (let name = or_empty (get_str c ''Names'') in
      bnd (container_step sys cfg name (or_empty (get_str c ''State'')) (or_empty (get_str c ''Status'')) w)
        (tick_rows sys cfg rows (seen @ [name])))"
| "tick_rows sys cfg (row # rows) seen w = ret (Some (TypeError ''object has no attribute get''), seen, w)"

definition drop_gone :: "string list \<Rightarrow> local_watchdog \<Rightarrow> local_watchdog" where
  "drop_gone seen w =
     w\<lparr>lw_consecutive_unhealthy := filter (\<lambda>(n, _). n \<in> set seen) (lw_consecutive_unhealthy w),
       lw_restart_history := filter (\<lambda>(n, _). n \<notin> lw_loop_alerted w \<or> n \<in> set seen) (lw_restart_history w),
       lw_loop_alerted := Set.filter (\<lambda>n. n \<in> set seen) (lw_loop_alerted w)\<rparr>"

definition local_tick :: "'w sys \<Rightarrow> daemon_config \<Rightarrow> local_watchdog \<Rightarrow> ('w, exn option \<times> local_watchdog) io" where
  "local_tick sys cfg w =
     bnd (docker_ps sys) (\<lambda>rows.
     bnd (tick_rows sys cfg rows [] w) (\<lambda>(e, seen, w1).
       ret (case e of Some x \<Rightarrow> (Some x, w1) | None \<Rightarrow> (None, drop_gone seen w1))))"

text \<open>\<open>run\<close>, for the given number of ticks before the stop event is set.\<close>

fun local_run :: "'w sys \<Rightarrow> daemon_config \<Rightarrow> nat \<Rightarrow> local_watchdog \<Rightarrow> ('w, local_watchdog) io" where
  "local_run sys cfg 0 w = ret w"
| "local_run sys cfg (Suc n) w =
     bnd (local_tick sys cfg w) (\<lambda>(e, w1).
     bnd (sleep sys (of_int (watchdog_interval_s cfg))) (\<lambda>_. local_run sys cfg n w1))"

section \<open>Peers\<close>

record peer_watchdog =
  pw_consecutive_misses :: "nat dict"
  pw_down_since :: "time dict"
  pw_migrated_while_down :: "string set"

abbreviation misses :: "peer_watchdog \<Rightarrow> string \<Rightarrow> nat" where
  "misses w n \<equiv> dget 0 (pw_consecutive_misses w) n"

definition new_peer_watchdog :: peer_watchdog where
  "new_peer_watchdog = \<lparr>pw_consecutive_misses = [], pw_down_since = [], pw_migrated_while_down = {}\<rparr>"

definition set_misses :: "string \<Rightarrow> nat \<Rightarrow> peer_watchdog \<Rightarrow> peer_watchdog" where
  "set_misses n k w = w\<lparr>pw_consecutive_misses := dict_set n k (pw_consecutive_misses w)\<rparr>"

definition survivors :: "peers \<Rightarrow> string \<Rightarrow> string list" where
  "survivors ps down_name =
     sort_key node_sort_key (map fst (filter (\<lambda>(n, info). n \<noteq> down_name \<and> truthy (ip_of info)) ps))"

definition migrate_params :: "string \<Rightarrow> obj" where
  "migrate_params target = [(''to_node'', JStr target), (''force_when_old_host_dead'', JBool True)]"

text \<open>The exception of a failed submission is re-raised after the mark is cleared; the caller catches it,
  so the counters are as before.\<close>

definition maybe_auto_migrate_pulsar :: "'w sys \<Rightarrow> (string \<Rightarrow> obj \<Rightarrow> ('w, job) io) \<Rightarrow> peers \<Rightarrow> string
    \<Rightarrow> peer_watchdog \<Rightarrow> ('w, peer_watchdog) io" where
  "maybe_auto_migrate_pulsar sys create ps down_name w =
     bnd (read_cluster_env_value sys ''MQ_TYPE'' []) (\<lambda>mq0.
     bnd (if mq0 \<noteq> [] then ret mq0
          else bnd (read_cluster_env_value sys ''MILVUS_IMAGE_TAG'' []) (\<lambda>tag.
            ret (if startswith tag ''v2.5'' then ''pulsar'' else ''woodpecker''))) (\<lambda>mq_type.
       if mq_type \<noteq> ''pulsar'' then ret w
       else bnd (read_cluster_env_value sys ''PULSAR_HOST'' ''node-1'') (\<lambda>host.
         if down_name \<noteq> host then ret w
         else (case survivors ps down_name of
                 [] \<Rightarrow> ret w
               | target # _ \<Rightarrow>
                   bnd (create ''migrate-pulsar'' (migrate_params target)) (\<lambda>job.
                   bnd (now_s sys) (\<lambda>ts.
                   bnd (emit (''AUTO_MIGRATE_PULSAR ts='' @ ts @ '' from='' @ down_name @ '' to='' @ target
                          @ '' job_id='' @ j_id job)) (\<lambda>_.
                     ret (w\<lparr>pw_migrated_while_down := insert down_name (pw_migrated_while_down w)\<rparr>))))))))"

definition probe_ok :: "'w sys \<Rightarrow> daemon_config \<Rightarrow> string \<Rightarrow> string \<Rightarrow> peer_watchdog \<Rightarrow> ('w, peer_watchdog) io" where
  "probe_ok sys cfg name ip w =
     bnd (if watchdog_peer_failure_threshold cfg \<le> int (misses w name) then
            bnd (now sys) (\<lambda>t0.
            bnd (now_s sys) (\<lambda>ts.
            bnd (now sys) (\<lambda>t1.
              let since = (case dict_get (pw_down_since w) name of Some d \<Rightarrow> d | None \<Rightarrow> t0) in
              bnd (emit (''PEER_UP_ALERT ts='' @ ts @ '' node='' @ name @ '' ip='' @ ip @ '' was_down_for_s=''
                     @ str_of_int (int_of_float (t1 - since)))) (\<lambda>_.
                ret (w\<lparr>pw_down_since := dict_pop name (pw_down_since w)\<rparr>)))))
          else ret w) (\<lambda>w1.
       ret (set_misses name 0 (w1\<lparr>pw_migrated_while_down := pw_migrated_while_down w1 - {name}\<rparr>)))"

text \<open>The gate of the automatic migration; \<open>create\<close> is absent when the watchdog has no elector or no jobs
  manager.\<close>

definition migrate_gate :: "daemon_config \<Rightarrow> bool \<Rightarrow> (string \<Rightarrow> obj \<Rightarrow> ('w, job) io) option \<Rightarrow> string
    \<Rightarrow> peer_watchdog \<Rightarrow> bool" where
  "migrate_gate cfg is_leader create name w \<longleftrightarrow>
     auto_migrate_pulsar_on_host_failure cfg \<and> create \<noteq> None \<and> is_leader
     \<and> name \<notin> pw_migrated_while_down w \<and> auto_migrate_pulsar_threshold cfg \<le> int (misses w name)"

definition probe_failed :: "'w sys \<Rightarrow> daemon_config \<Rightarrow> bool \<Rightarrow> (string \<Rightarrow> obj \<Rightarrow> ('w, job) io) option \<Rightarrow> peers
    \<Rightarrow> string \<Rightarrow> string \<Rightarrow> peer_watchdog \<Rightarrow> ('w, peer_watchdog) io" where
  "probe_failed sys cfg is_leader create ps name ip w0 =
     (let w = set_misses name (misses w0 name + 1) w0 in
      bnd (if int (misses w name) = watchdog_peer_failure_threshold cfg then
             bnd (now sys) (\<lambda>t.
             bnd (now_s sys) (\<lambda>ts.
             bnd (emit (''PEER_DOWN_ALERT ts='' @ ts @ '' node='' @ name @ '' ip='' @ ip
                    @ '' consecutive_failures='' @ str_of_nat (misses w name))) (\<lambda>_.
               ret (w\<lparr>pw_down_since := dict_set name t (pw_down_since w)\<rparr>))))
           else ret w) (\<lambda>w1.
        case create of
          Some c \<Rightarrow>
            if migrate_gate cfg is_leader create name w1
            then try_except (maybe_auto_migrate_pulsar sys c ps name w1) (\<lambda>_. ret w1)
            else ret w1
        | None \<Rightarrow> ret w1))"

definition peer_step :: "'w sys \<Rightarrow> daemon_config \<Rightarrow> bool \<Rightarrow> (string \<Rightarrow> obj \<Rightarrow> ('w, job) io) option \<Rightarrow> peers
    \<Rightarrow> string \<times> obj \<Rightarrow> peer_watchdog \<Rightarrow> ('w, peer_watchdog) io" where
  "peer_step sys cfg is_leader create ps p w =
     (case ip_of (snd p) of
        None \<Rightarrow> ret w
      | Some ip \<Rightarrow>
          if ip = [] \<or> ip = local_ip cfg then ret w
          else bnd (tcp_probe sys ip (listen_port cfg)) (\<lambda>ok.
            if ok then probe_ok sys cfg (fst p) ip w
            else probe_failed sys cfg is_leader create ps (fst p) ip w))"

definition peer_tick :: "'w sys \<Rightarrow> daemon_config \<Rightarrow> bool \<Rightarrow> (string \<Rightarrow> obj \<Rightarrow> ('w, job) io) option \<Rightarrow> peers
    \<Rightarrow> peer_watchdog \<Rightarrow> ('w, peer_watchdog) io" where
  "peer_tick sys cfg is_leader create ps w = fold_io (peer_step sys cfg is_leader create ps) ps w"

text \<open>\<open>run\<close>: the mirror and the leadership may differ from tick to tick.\<close>

fun peer_run :: "'w sys \<Rightarrow> daemon_config \<Rightarrow> (string \<Rightarrow> obj \<Rightarrow> ('w, job) io) option \<Rightarrow> (bool \<times> peers) list
    \<Rightarrow> peer_watchdog \<Rightarrow> ('w, peer_watchdog) io" where
  "peer_run sys cfg create [] w = ret w"
| "peer_run sys cfg create ((is_leader, ps) # rounds) w =
     bnd (peer_tick sys cfg is_leader create ps w) (\<lambda>w1.
     bnd (sleep sys (of_int (watchdog_interval_s cfg))) (\<lambda>_. peer_run sys cfg create rounds w1))"

section \<open>The restart guard\<close>

lemma dget_set [simp]: "dget v (dict_set k x d) k' = (if k' = k then x else dget v d k')"
  by (simp add: dget_def)

lemma dget_Nil [simp]: "dget v [] k = v"
  by (simp add: dget_def)

lemma set_unhealthy_simps [simp]:
  "lw_restart_history (set_unhealthy n k w) = lw_restart_history w"
  "lw_loop_alerted (set_unhealthy n k w) = lw_loop_alerted w"
  "lw_consecutive_unhealthy (set_unhealthy n k w) = dict_set n k (lw_consecutive_unhealthy w)"
  by (simp_all add: set_unhealthy_def)

definition guard_inv :: "daemon_config \<Rightarrow> local_watchdog \<Rightarrow> bool" where
  "guard_inv cfg w \<longleftrightarrow> (\<forall>n. int (length (history w n)) \<le> max 0 (watchdog_restart_loop_max cfg))"

lemma guard_inv_set_unhealthy [simp]: "guard_inv cfg (set_unhealthy n k w) = guard_inv cfg w"
  by (simp add: guard_inv_def)

lemma maybe_restart_inv:
  "guard_inv cfg w \<Longrightarrow> wp (maybe_restart sys cfg name w) (\<lambda>w' _. guard_inv cfg w') (\<lambda>_ _. False) s"
  unfolding maybe_restart_def now_s_def
  by (auto simp: wp_simps call_defs split: prod.split) (auto simp: guard_inv_def)

lemma container_step_inv:
  "guard_inv cfg w \<Longrightarrow> wp (container_step sys cfg name state status w) (\<lambda>w' _. guard_inv cfg w') (\<lambda>_ _. False) s"
  unfolding container_step_def Let_def
  by (auto simp: wp_simps maybe_restart_inv recovered_def) (auto simp: guard_inv_def)

lemma tick_rows_inv:
  "guard_inv cfg w \<Longrightarrow> wp (tick_rows sys cfg rows seen w) (\<lambda>(e, n, w') _. guard_inv cfg w') (\<lambda>_ _. False) s"
  by (induction sys cfg rows seen w arbitrary: s rule: tick_rows.induct)
    (auto simp: wp_simps Let_def intro!: wp_mono [OF container_step_inv])

lemma dget_filter: "length (dget [] (filter (\<lambda>(n, _). P n) d) k) \<le> length (dget [] d k)"
  unfolding dget_def using dict_get_filter [of P d k] by simp

lemma drop_gone_inv: "guard_inv cfg w \<Longrightarrow> guard_inv cfg (drop_gone seen w)"
  unfolding guard_inv_def
proof
  fix n assume inv: "\<forall>n. int (length (history w n)) \<le> max 0 (watchdog_restart_loop_max cfg)"
  have "length (history (drop_gone seen w) n) \<le> length (history w n)"
    using dget_filter [of "\<lambda>n. n \<notin> lw_loop_alerted w \<or> n \<in> set seen" "lw_restart_history w" n]
    by (simp add: drop_gone_def)
  then show "int (length (history (drop_gone seen w) n)) \<le> max 0 (watchdog_restart_loop_max cfg)"
    using inv [rule_format, of n] by linarith
qed

lemma wp_docker_ps: "wp (docker_ps sys) (\<lambda>_ _. True) (\<lambda>_ _. False) s"
  by (simp add: docker_ps_def wp_simps run_cmd_def split: prod.split)

lemma local_tick_inv:
  "guard_inv cfg w \<Longrightarrow> wp (local_tick sys cfg w) (\<lambda>(e, w') _. guard_inv cfg w') (\<lambda>_ _. False) s"
  unfolding local_tick_def wp_bnd
  by (rule wp_mono [OF wp_docker_ps])
    (auto intro!: wp_mono [OF tick_rows_inv] simp: wp_simps drop_gone_inv split: option.split)

lemma local_run_inv:
  "guard_inv cfg w \<Longrightarrow> wp (local_run sys cfg k w) (\<lambda>w' _. guard_inv cfg w') (\<lambda>_ _. False) s"
proof (induction k arbitrary: w s)
  case (Suc k)
  show ?case unfolding local_run.simps wp_bnd
    by (rule wp_mono [OF local_tick_inv [OF Suc.prems]]) (auto simp: wp_simps sleep_def Suc.IH)
qed (simp add: wp_simps)

text \<open>The calls of the parts that restart nothing.\<close>

lemma only_now_s [only_intros]: "A A_time \<Longrightarrow> only A (now_s sys)"
  unfolding now_s_def now_def by (intro only_intros)

definition no_restart_of :: "string set \<Rightarrow> act \<Rightarrow> bool" where
  "no_restart_of N a \<longleftrightarrow> (\<forall>n. a = A_run (restart_cmd n) \<longrightarrow> n \<notin> N)"

lemma no_restart_of_simps [simp]: "no_restart_of N A_time" "no_restart_of N (A_emit l)" "no_restart_of N (A_sleep d)"
  "no_restart_of N (A_run (restart_cmd n)) \<longleftrightarrow> n \<notin> N"
  by (auto simp: no_restart_of_def restart_cmd_def)

lemma no_restart_ps [simp]: "no_restart_of N (A_run docker_ps_cmd)"
  by (simp add: no_restart_of_def restart_cmd_def docker_ps_cmd_def)

lemma maybe_restart_calls:
  "watchdog_mode cfg \<noteq> ''auto'' \<or> name \<notin> N \<Longrightarrow> only (no_restart_of N) (maybe_restart sys cfg name w)"
  unfolding maybe_restart_def emit_def run_cmd_def now_def
  by (auto intro!: only_intros split: prod.split)

lemma container_step_calls:
  "watchdog_mode cfg \<noteq> ''auto'' \<or> name \<notin> N \<or> \<not> watched name \<or> parse_health status \<noteq> Unhealthy \<or> state = ''restarting''
   \<Longrightarrow> only (no_restart_of N) (container_step sys cfg name state status w)"
  unfolding container_step_def Let_def
  by (auto intro!: only_intros maybe_restart_calls)

text \<open>The containers of a listing that count as unhealthy.\<close>

definition sick :: "json list \<Rightarrow> string set" where
  "sick rows = {n. watched n \<and> (\<exists>c. JObj c \<in> set rows \<and> or_empty (get_str c ''Names'') = n
     \<and> parse_health (or_empty (get_str c ''Status'')) = Unhealthy \<and> or_empty (get_str c ''State'') \<noteq> ''restarting'')}"

text \<open>A call that is no \<open>docker restart\<close>, or one that the mode and the listing call for.\<close>

definition restart_allowed :: "daemon_config \<Rightarrow> json list \<Rightarrow> act \<Rightarrow> bool" where
  "restart_allowed cfg rows a \<longleftrightarrow> (\<forall>n. a = A_run (restart_cmd n) \<longrightarrow>
     watchdog_mode cfg = ''auto'' \<and> n \<in> sick rows \<and> n \<noteq> ''milvus-onprem-cp'')"

lemma tick_rows_calls:
  assumes "set rows \<subseteq> set rows0"
  shows "only (no_restart_of (- (if watchdog_mode cfg = ''auto'' then sick rows0 else {})))
    (tick_rows sys cfg rows seen w)"
  using assms
proof (induction sys cfg rows seen w rule: tick_rows.induct)
  case (2 sys cfg c rows seen w)
  let ?n = "or_empty (get_str c ''Names'')"
  have "only (no_restart_of (- (if watchdog_mode cfg = ''auto'' then sick rows0 else {})))
      (container_step sys cfg ?n (or_empty (get_str c ''State'')) (or_empty (get_str c ''Status'')) w)"
    by (rule container_step_calls) (use 2(2) in \<open>auto simp: sick_def\<close>)
  then show ?case using 2 by (auto simp: Let_def intro!: only_intros)
qed (auto intro: only_intros)

section \<open>Properties of the local watchdog\<close>


text \<open>The watchdog restarts only what is sick: while it goes over a listing, every \<open>docker restart\<close> it
  runs is for a watched container that the listing shows as unhealthy and not restarting; outside the
  mode \<open>auto\<close> it runs none; and it never restarts the control plane's own container.\<close>

theorem restarts_only_sick: "only (restart_allowed cfg rows) (tick_rows sys cfg rows seen w)"
proof -
  have "no_restart_of (- (if watchdog_mode cfg = ''auto'' then sick rows else {})) = restart_allowed cfg rows"
    by (auto simp: no_restart_of_def restart_allowed_def fun_eq_iff sick_def watched_def)
  with tick_rows_calls [of rows rows cfg sys seen w] show ?thesis by simp
qed

text \<open>A failed listing disarms the restart guard: when \<open>docker ps\<close> exits with an error, the tick treats
  every container as removed, so all loop flags are dropped and the restart history of the flagged
  containers with them, and auto-restart starts over.\<close>

theorem failed_listing_disarms_guard:
  assumes "fst (fst (sys_run sys docker_ps_cmd (st_world s))) \<noteq> 0"
  shows "\<exists>w' t. local_tick sys cfg w s = (Inr (None, w'), t) \<and> lw_loop_alerted w' = {}
    \<and> (\<forall>n \<in> lw_loop_alerted w. history w' n = [])"
proof -
  have ps: "fst (docker_ps sys s) = Inr []"
    using assms by (cases "fst (sys_run sys docker_ps_cmd (st_world s))")
      (simp add: docker_ps_def bnd_def run_cmd_def call_def ret_def)
  have "fst (local_tick sys cfg w s) = Inr (None, drop_gone [] w)"
    unfolding local_tick_def bnd_def using ps by (auto simp: ret_def split: prod.split sum.split)
  moreover have "history (drop_gone [] w) n = []" if "n \<in> lw_loop_alerted w" for n
  proof -
    have "dict_get (filter (\<lambda>(m, _). m \<notin> lw_loop_alerted w) (lw_restart_history w)) n = None"
      using that dict_get_filter [of "\<lambda>m. m \<notin> lw_loop_alerted w" "lw_restart_history w" n] by simp
    then show ?thesis by (simp add: drop_gone_def dget_def)
  qed
  moreover have "lw_loop_alerted (drop_gone [] w) = {}" by (simp add: drop_gone_def)
  ultimately show ?thesis by (metis result_of)
qed

theorem failed_listing_disarms_guard_witness:
  "\<exists>w' t. local_tick mem_sys (default_config [] [] [] [] [])
      (new_local_watchdog\<lparr>lw_loop_alerted := {''milvus-minio''}, lw_restart_history := [(''milvus-minio'', [1, 2, 3])]\<rparr>)
      (start (world0\<lparr>w_runs := [(1, [], ''cannot connect'')]\<rparr>)) = (Inr (None, w'), t)
    \<and> lw_loop_alerted w' = {} \<and> history w' ''milvus-minio'' = []"
proof -
  let ?s = "start (world0\<lparr>w_runs := [(1, [], ''cannot connect'')]\<rparr>)"
  let ?w = "new_local_watchdog\<lparr>lw_loop_alerted := {''milvus-minio''}, lw_restart_history := [(''milvus-minio'', [1, 2, 3])]\<rparr>"
  have "fst (fst (sys_run mem_sys docker_ps_cmd (st_world ?s))) \<noteq> 0"
    by (simp add: start_def pop_script_def)
  from failed_listing_disarms_guard [OF this, of "default_config [] [] [] [] []" ?w]
  show ?thesis by simp
qed

text \<open>Recovery does not reset the count of restarts: a container that is restarted, recovers to healthy
  and later falls ill again is, at the configured maximum, declared to be in a restart loop and left
  alone, although it recovered from every restart (here with a threshold and a maximum of one).\<close>

theorem recovery_keeps_restart_count:
  "let cfg = (default_config [] [] [] [] [])\<lparr>watchdog_unhealthy_threshold := 1, watchdog_restart_loop_max := 1\<rparr>;
       step = container_step mem_sys cfg ''milvus-minio'' ''running'';
       r = bnd (step ''Up 2 minutes (unhealthy)'' new_local_watchdog) (\<lambda>w1.
           bnd (step ''Up 5 days (healthy)'' w1) (\<lambda>w2. step ''Up 9 days (unhealthy)'' w2))
   in (case r (start world0) of
         (Inr w, t) \<Rightarrow> ''milvus-minio'' \<in> lw_loop_alerted w
           \<and> length (filter (\<lambda>a. a = A_run (restart_cmd ''milvus-minio'')) (st_trace t)) = 1
       | (Inl e, t) \<Rightarrow> False)"
  by code_simp

section \<open>Peer alerts\<close>

datatype alert = Down | Up

fun alert_of :: "act \<Rightarrow> alert list" where
  "alert_of (A_emit l) =
     (if startswith l ''PEER_DOWN_ALERT '' then [Down] else if startswith l ''PEER_UP_ALERT '' then [Up] else [])"
| "alert_of a = []"

definition alerts :: "act list \<Rightarrow> alert list" where
  "alerts tr = concat (map alert_of tr)"

text \<open>The specification: alerts alternate, beginning with a \<open>Down\<close> unless the peer counts as down already.\<close>

fun alternate :: "bool \<Rightarrow> alert list \<Rightarrow> bool" where
  "alternate down [] \<longleftrightarrow> True"
| "alternate down (a # as) \<longleftrightarrow> a = (if down then Up else Down) \<and> alternate (\<not> down) as"

abbreviation counts_down :: "daemon_config \<Rightarrow> peer_watchdog \<Rightarrow> string \<Rightarrow> bool" where
  "counts_down cfg w n \<equiv> watchdog_peer_failure_threshold cfg \<le> int (misses w n)"

lemma alternate_append:
  "alternate d (as @ bs) \<longleftrightarrow> alternate d as \<and> alternate (if even (length as) then d else \<not> d) bs"
  by (induction as arbitrary: d) auto

lemma set_misses_simps [simp]:
  "pw_consecutive_misses (set_misses n k w) = dict_set n k (pw_consecutive_misses w)"
  "pw_migrated_while_down (set_misses n k w) = pw_migrated_while_down w"
  "pw_down_since (set_misses n k w) = pw_down_since w"
  by (simp_all add: set_misses_def)

lemma alerts_simps [simp]: "alerts [] = []" "alerts (a # tr) = alert_of a @ alerts tr"
  "alerts (t1 @ t2) = alerts t1 @ alerts t2"
  by (simp_all add: alerts_def)

text \<open>One probe of a peer: its part of the alerts moves the peer between up and down.\<close>

definition edge :: "bool \<Rightarrow> bool \<Rightarrow> alert list \<Rightarrow> bool" where
  "edge before after as \<longleftrightarrow> as = (if before = after then [] else if after then [Down] else [Up])"

lemma peer_step_edge:
  assumes "1 \<le> watchdog_peer_failure_threshold cfg"
  shows "wp (peer_step sys cfg is_leader None ps p w)
    (\<lambda>w' t. \<exists>acts. st_trace t = st_trace s @ acts
       \<and> edge (counts_down cfg w (fst p)) (counts_down cfg w' (fst p)) (alerts acts)
       \<and> (\<forall>n. n \<noteq> fst p \<longrightarrow> misses w' n = misses w n)) (\<lambda>_ _. False) s"
proof -
  have lines: "startswith (''PEER_DOWN_ALERT ts='' @ x) ''PEER_DOWN_ALERT ''"
    "\<not> startswith (''PEER_UP_ALERT ts='' @ x) ''PEER_DOWN_ALERT ''"
    "startswith (''PEER_UP_ALERT ts='' @ x) ''PEER_UP_ALERT ''" for x
    by (simp_all add: startswith_def)
  show ?thesis
    using assms
    by (auto simp: peer_step_def probe_ok_def probe_failed_def wp_simps call_defs now_s_def Let_def edge_def
        lines [simplified append_Cons append_Nil] split: option.split)
qed

lemma edge_alternate:
  "edge before after as \<Longrightarrow> alternate after bs \<Longrightarrow> alternate before (as @ bs)"
  by (auto simp: edge_def split: if_splits)

text \<open>A run over a topology with one other peer.\<close>

lemma peer_run_alternate:
  assumes th: "1 \<le> watchdog_peer_failure_threshold cfg"
  shows "wp (peer_run sys cfg None (map (\<lambda>l. (l, [p])) ls) w)
    (\<lambda>w' t. \<exists>acts. st_trace t = st_trace s @ acts \<and> alternate (counts_down cfg w (fst p)) (alerts acts))
    (\<lambda>_ _. False) s"
proof (induction ls arbitrary: w s)
  case Nil
  then show ?case by (simp add: wp_simps)
next
  case (Cons l ls)
  show ?case
    unfolding list.map peer_run.simps peer_tick_def fold_io.simps wp_bnd
  proof (rule wp_mono [OF peer_step_edge [OF th]], goal_cases)
    case (1 w1 t1)
    then obtain a1 where a1: "st_trace t1 = st_trace s @ a1"
      "edge (counts_down cfg w (fst p)) (counts_down cfg w1 (fst p)) (alerts a1)" by blast
    show ?case unfolding wp_ret sleep_def wp_call
    proof (rule wp_mono [OF Cons.IH], goal_cases)
      case (1 w2 t2)
      then obtain a2 where a2: "st_trace t2 = (st_trace t1 @ [A_sleep (of_int (watchdog_interval_s cfg))]) @ a2"
        "alternate (counts_down cfg w1 (fst p)) (alerts a2)" by auto
      then show ?case using a1 edge_alternate [OF a1(2) a2(2)]
        by (intro exI [of _ "a1 @ [A_sleep (of_int (watchdog_interval_s cfg))] @ a2"]) simp
    qed auto
  qed auto
qed


definition flaky_cfg :: daemon_config where
  "flaky_cfg = (default_config [] [] ''10.0.0.1'' [] [])\<lparr>watchdog_peer_failure_threshold := 2\<rparr>"

definition flaky_run :: "(world, peer_watchdog) io" where
  "flaky_run = peer_run mem_sys flaky_cfg None (map (\<lambda>l. (l, [(''node-2'', node_entry ''10.0.0.2'')])) (replicate 5 False))
     new_peer_watchdog"


section \<open>The automatic migration\<close>

lemma wp_bnd_all: "(\<And>x t. wp (f x) Q E t) \<Longrightarrow> (\<And>e t. E e t) \<Longrightarrow> wp (bnd m f) Q E s"
  unfolding wp_bnd by (rule wp_all)

lemma wp_ifI: "(b \<Longrightarrow> wp m Q E s) \<Longrightarrow> (\<not> b \<Longrightarrow> wp n Q E s) \<Longrightarrow> wp (if b then m else n) Q E s"
  by simp

lemma wp_survivors:
  "wp m Q E s \<Longrightarrow> (\<And>x xs. wp (f x xs) Q E s) \<Longrightarrow> wp (case l of [] \<Rightarrow> m | x # xs \<Rightarrow> f x xs) Q E s"
  by (cases l) auto



end
