(* ===== verification/Stages.thy ===== *)
theory Stages
  imports Etcd_Client
begin

text \<open>
  How the calls of a computation follow each other: in stages, each with its own kind of calls, and
  with a progress that only climbs. The rules follow the structure of a computation, so that a worker
  of many steps is checked step by step.
\<close>

section \<open>Stages\<close>

fun staged :: "(act \<Rightarrow> bool) list \<Rightarrow> act list \<Rightarrow> bool" where
  "staged [] [] = True"
| "staged [] (x # xs) = False"
| "staged (A # As) [] = True"
| "staged (A # As) (x # xs) = ((A x \<and> staged (A # As) xs) \<or> staged As (x # xs))"

lemma staged_Nil [simp]: "staged As []"
  by (cases As) auto

lemma staged_append: "list_all A xs \<Longrightarrow> staged (A # As) ys \<Longrightarrow> staged (A # As) (xs @ ys)"
  by (induction xs) auto

lemma staged_skip: "staged As xs \<Longrightarrow> staged (A # As) xs"
  by (cases xs) auto

lemma staged_iff: "staged (A # As) xs \<longleftrightarrow> (\<exists>a b. xs = a @ b \<and> list_all A a \<and> staged As b)"
proof
  show "staged (A # As) xs \<Longrightarrow> \<exists>a b. xs = a @ b \<and> list_all A a \<and> staged As b"
  proof (induction xs)
    case (Cons x xs)
    then consider "A x" "staged (A # As) xs" | "staged As (x # xs)" by auto
    then show ?case
    proof cases
      case 1
      with Cons.IH obtain a b where "xs = a @ b" "list_all A a" "staged As b" by blast
      with 1 show ?thesis by (intro exI [of _ "x # a"] exI [of _ b]) simp
    qed force
  qed force
qed (auto intro: staged_append staged_skip)

definition in_stages :: "(act \<Rightarrow> bool) list \<Rightarrow> ('w, 'a) io \<Rightarrow> bool" where
  "in_stages As m \<longleftrightarrow> (\<forall>s. \<exists>acts. st_trace (snd (m s)) = st_trace s @ acts \<and> staged As acts)"

lemma stages_only: "only A m \<Longrightarrow> in_stages (A # As) m"
  unfolding in_stages_def only_def extends_def using staged_append [of A _ As "[]"] by force

lemma stages_bnd:
  assumes "only A m" and "\<And>x. in_stages (A # As) (f x)"
  shows "in_stages (A # As) (bnd m f)"
  unfolding in_stages_def
proof
  fix s
  obtain r s' where m: "m s = (r, s')" by (cases "m s")
  with onlyD [OF assms(1)] obtain a where a: "st_trace s' = st_trace s @ a" "list_all A a" by blast
  show "\<exists>acts. st_trace (snd (bnd m f s)) = st_trace s @ acts \<and> staged (A # As) acts"
  proof (cases r)
    case (Inl e)
    with m a show ?thesis using staged_append [of A a As "[]"] by (auto simp: bnd_def)
  next
    case (Inr x)
    from assms(2) [of x] obtain b where b: "st_trace (snd (f x s')) = st_trace s' @ b" "staged (A # As) b"
      unfolding in_stages_def by blast
    have "bnd m f s = f x s'" using m Inr by (simp add: bnd_def)
    with a b staged_append [OF a(2) b(2)] show ?thesis by (intro exI [of _ "a @ b"]) simp
  qed
qed

lemma staged_join: "staged (As @ [B]) xs \<Longrightarrow> staged (B # Bs) ys \<Longrightarrow> staged (As @ B # Bs) (xs @ ys)"
proof (induction As arbitrary: xs)
  case Nil
  then have "list_all B xs" by (simp add: staged_iff) (metis append_Nil2 staged.elims(2) list.discI)
  with Nil show ?case by (simp add: staged_append)
next
  case (Cons A As)
  then obtain a b where ab: "xs = a @ b" "list_all A a" "staged (As @ [B]) b" by (auto simp: staged_iff)
  from Cons.IH [OF ab(3) Cons.prems(2)] have "staged (As @ B # Bs) (b @ ys)" .
  then have "staged (A # (As @ B # Bs)) (a @ (b @ ys))" by (intro staged_append ab(2) staged_skip)
  then show ?case using ab(1) by simp
qed

lemma stages_seq:
  assumes "in_stages (As @ [B]) m" and "\<And>x. in_stages (B # Bs) (f x)"
  shows "in_stages (As @ B # Bs) (bnd m f)"
  unfolding in_stages_def
proof
  fix s
  obtain r s' where m: "m s = (r, s')" by (cases "m s")
  with assms(1) obtain a where a: "st_trace s' = st_trace s @ a" "staged (As @ [B]) a"
    unfolding in_stages_def by (metis snd_conv)
  show "\<exists>acts. st_trace (snd (bnd m f s)) = st_trace s @ acts \<and> staged (As @ B # Bs) acts"
  proof (cases r)
    case (Inl e)
    have "staged (B # Bs) []" by simp
    from staged_join [OF a(2) this] Inl m a(1) show ?thesis by (auto simp: bnd_def)
  next
    case (Inr x)
    from assms(2) [of x] obtain b where b: "st_trace (snd (f x s')) = st_trace s' @ b" "staged (B # Bs) b"
      unfolding in_stages_def by blast
    have "bnd m f s = f x s'" using m Inr by (simp add: bnd_def)
    with a b staged_join [OF a(2) b(2)] show ?thesis by (intro exI [of _ "a @ b"]) simp
  qed
qed

lemma stages_next: "in_stages As m \<Longrightarrow> in_stages (A # As) m"
  unfolding in_stages_def using staged_skip by blast

lemma stages_if: "(b \<Longrightarrow> in_stages As m) \<Longrightarrow> (\<not> b \<Longrightarrow> in_stages As n) \<Longrightarrow> in_stages As (if b then m else n)"
  by simp

lemma stagesD: "in_stages As m \<Longrightarrow> m s = (r, t) \<Longrightarrow> \<exists>acts. st_trace t = st_trace s @ acts \<and> staged As acts"
  unfolding in_stages_def by (metis snd_conv)

section \<open>Progress\<close>

fun progress_values :: "act list \<Rightarrow> rat list" where
  "progress_values [] = []"
| "progress_values (A_progress p # as) = p # progress_values as"
| "progress_values (_ # as) = progress_values as"

definition silent :: "act \<Rightarrow> bool" where
  "silent a \<longleftrightarrow> (\<forall>p. a \<noteq> A_progress p)"

lemma silent_simps [simp]:
  "silent (A_etcd rq)" "silent A_time" "silent A_monotonic" "silent (A_sleep d)" "silent A_uuid4" "silent (A_run c)"
  "silent (A_http hc)" "silent (A_tcp ip q)" "silent (A_read f)" "silent (A_write f d')" "silent (A_emit l)"
  "silent (A_log l)" "\<not> silent (A_progress p)"
  by (simp_all add: silent_def)

lemma progress_values_append [simp]: "progress_values (as @ bs) = progress_values as @ progress_values bs"
  by (induction as rule: progress_values.induct) auto

lemma progress_values_silent: "list_all silent as \<Longrightarrow> progress_values as = []"
  by (induction as rule: progress_values.induct) auto

text \<open>However \<open>m\<close> ends, the progress it has set never went down and stayed between \<open>lo\<close> and \<open>hi\<close>.\<close>

definition climbs :: "rat \<Rightarrow> rat \<Rightarrow> ('w, 'a) io \<Rightarrow> bool" where
  "climbs lo hi m \<longleftrightarrow>
     (\<forall>s. \<exists>acts. st_trace (snd (m s)) = st_trace s @ acts \<and> sorted (lo # progress_values acts @ [hi]))"

named_theorems climbs_intros \<open>rules that compute the progress of a computation\<close>

lemma climbs_silent: "lo \<le> hi \<Longrightarrow> only silent m \<Longrightarrow> climbs lo hi m"
  unfolding climbs_def only_def extends_def using progress_values_silent by force

lemma climbs_le: "climbs lo hi m \<Longrightarrow> lo \<le> hi"
  unfolding climbs_def by auto

lemma sorted_chain: "sorted (lo # ps @ [mid]) \<Longrightarrow> sorted (mid # qs @ [hi]) \<Longrightarrow> sorted (lo # (ps @ qs) @ [hi])"
  by (auto simp: sorted_append) (meson order_trans)+

lemma climbs_bnd:
  assumes "climbs lo mid m" and "\<And>x. climbs mid hi (f x)"
  shows "climbs lo hi (bnd m f)"
  unfolding climbs_def
proof
  fix s
  obtain r s' where m: "m s = (r, s')" by (cases "m s")
  with assms(1) obtain a where a: "st_trace s' = st_trace s @ a" "sorted (lo # progress_values a @ [mid])"
    unfolding climbs_def by (metis snd_conv)
  have le: "mid \<le> hi" using assms(2) by (rule climbs_le)
  show "\<exists>acts. st_trace (snd (bnd m f s)) = st_trace s @ acts \<and> sorted (lo # progress_values acts @ [hi])"
  proof (cases r)
    case (Inl e)
    with m a sorted_chain [OF a(2), of "[]" hi] le show ?thesis by (auto simp: bnd_def)
  next
    case (Inr x)
    from assms(2) [of x] obtain b where b: "st_trace (snd (f x s')) = st_trace s' @ b" "sorted (mid # progress_values b @ [hi])"
      unfolding climbs_def by blast
    have "bnd m f s = f x s'" using m Inr by (simp add: bnd_def)
    with a b sorted_chain [OF a(2) b(2)] show ?thesis by (intro exI [of _ "a @ b"]) simp
  qed
qed

lemma climbs_quiet_bnd: "only silent m \<Longrightarrow> (\<And>x. climbs lo hi (f x)) \<Longrightarrow> climbs lo hi (bnd m f)"
  by (rule climbs_bnd [of lo lo]) (auto intro: climbs_silent)

lemma climbs_set: "lo \<le> p \<Longrightarrow> p \<le> hi \<Longrightarrow> climbs lo hi (set_progress p)"
  by (simp add: climbs_def set_progress_def call_def)

lemma climbs_set_bnd: "lo \<le> p \<Longrightarrow> climbs p hi (f ()) \<Longrightarrow> climbs lo hi (bnd (set_progress p) f)"
  by (rule climbs_bnd [of lo p]) (auto intro: climbs_set)

lemma climbs_if: "(b \<Longrightarrow> climbs lo hi m) \<Longrightarrow> (\<not> b \<Longrightarrow> climbs lo hi n) \<Longrightarrow> climbs lo hi (if b then m else n)"
  by simp

lemma climbs_from: "lo \<le> lo' \<Longrightarrow> climbs lo' hi m \<Longrightarrow> climbs lo hi m"
  unfolding climbs_def by (metis (no_types, lifting) climbs_le dual_order.trans list.set_intros(1) sorted_simps(2))

lemma climbsD:
  "climbs lo hi m \<Longrightarrow> m s = (r, t) \<Longrightarrow> \<exists>acts. st_trace t = st_trace s @ acts \<and> sorted (lo # progress_values acts @ [hi])"
  unfolding climbs_def by (metis snd_conv)

end
