(* ===== verification/Handlers.thy ===== *)
theory Handlers
  imports Joining Stages
begin

text \<open>
  \<open>src/daemon/handlers.py\<close>: what every daemon does when the topology changes. \<open>TopologyHandlers\<close> keeps
  cluster.env and the rendered configuration in step with the topology, reloads nginx and, on the
  leader, drives the recreation of every peer's MinIO. Its lock makes one event one computation;
  \<open>Env_Edit\<close> shows what that lock does for the edits of cluster.env, and what happens to those outside it.

  Shell commands, requests to other daemons and files are calls to the outside. The requests of the
  parallel sweep after a removal are sent in the order of a schedule, which is an argument.
\<close>

section \<open>Shell words\<close>

definition shell_safe :: "char \<Rightarrow> bool" where
  "shell_safe c \<longleftrightarrow>
     (let n = ord_chr c in
      (48 \<le> n \<and> n \<le> 57) \<or> (65 \<le> n \<and> n \<le> 90) \<or> (97 \<le> n \<and> n \<le> 122) \<or> c \<in> set ''_@%+=:,./-'')"

text \<open>\<open>shlex.quote\<close>.\<close>

definition shlex_quote :: "string \<Rightarrow> string" where
  "shlex_quote s =
     (if s = [] then [CHR 0x27, CHR 0x27]
      else if list_all shell_safe s then s
      else CHR 0x27 # concat (map (\<lambda>c. if c = CHR 0x27 then [CHR 0x27, CHR 0x22, CHR 0x27, CHR 0x22, CHR 0x27] else [c]) s)
             @ [CHR 0x27])"

text \<open>\<open>str.split()\<close>: the maximal runs of characters that are not white space.\<close>

fun split_ws :: "string \<Rightarrow> string list" where
  "split_ws [] = []"
| "split_ws (c # cs) =
     (if is_space c then split_ws cs
      else (case cs of
              [] \<Rightarrow> [[c]]
            | d # _ \<Rightarrow> if is_space d then [c] # split_ws cs
                       else (case split_ws cs of [] \<Rightarrow> [[c]] | w # ws \<Rightarrow> (c # w) # ws)))"

section \<open>Commands\<close>

definition render_cmd :: string where
  "render_cmd = ''cd '' @ shlex_quote ''/repo'' @ '' && ./milvus-onprem render''"

definition nginx_reload_cmd :: string where
  "nginx_reload_cmd = ''docker exec milvus-nginx nginx -s reload''"

definition node_dir :: "daemon_config \<Rightarrow> string" where
  "node_dir cfg = ''/repo/rendered/'' @ node_name cfg"

definition compose_arg :: "daemon_config \<Rightarrow> string" where
  "compose_arg cfg = ''--project-name '' @ shlex_quote (node_name cfg) @ '' -f '' @ shlex_quote (node_dir cfg)
     @ ''/docker-compose.yml''"

definition compose_services_cmd :: "daemon_config \<Rightarrow> string" where
  "compose_services_cmd cfg = ''docker compose '' @ compose_arg cfg @ '' config --services''"

definition minio_recreate_cmd :: "daemon_config \<Rightarrow> string" where
  "minio_recreate_cmd cfg = ''docker compose '' @ compose_arg cfg @ '' up -d --force-recreate --no-deps minio''"

definition recreate_cmd :: "daemon_config \<Rightarrow> string \<Rightarrow> string list \<Rightarrow> string" where
  "recreate_cmd cfg flags services =
     ''docker compose '' @ compose_arg cfg @ '' up -d --force-recreate '' @ flags @ ''--no-deps '' @ join_with '' '' services"

definition milvus_services :: "string list" where
  "milvus_services = [''mixcoord'', ''datanode'', ''querynode'', ''indexnode'', ''streamingnode'', ''proxy'']"

definition to_recreate :: "string list \<Rightarrow> string \<Rightarrow> string list" where
  "to_recreate wanted out = sort (filter (\<lambda>s. s \<in> set (split_ws out)) wanted)"

definition alias_cmd :: "daemon_config \<Rightarrow> string" where
  "alias_cmd cfg = ''docker exec milvus-minio mc alias set local http://127.0.0.1:'' @ str_of_int (minio_api_port cfg)
     @ '' '' @ shlex_quote (minio_access_key cfg) @ '' '' @ shlex_quote (minio_secret_key cfg)"

definition bucket_cmd :: string where
  "bucket_cmd = ''docker exec milvus-minio mc mb --ignore-existing local/milvus-bucket''"

definition quorum_cmd :: "daemon_config \<Rightarrow> string" where
  "quorum_cmd cfg = ''curl -sf --max-time 3 http://127.0.0.1:'' @ str_of_int (minio_api_port cfg) @ ''/minio/health/cluster''"

definition inspect_minio_cmd :: string where
  "inspect_minio_cmd = ''docker inspect milvus-minio --format '' @ [CHR 0x27] @ ''{{.State.Health.Status}}'' @ [CHR 0x27]"

section \<open>Operations\<close>

definition current_peer_ips_and_names :: "peers \<Rightarrow> (string \<times> string) list" where
  "current_peer_ips_and_names ps =
     map (\<lambda>n. (n, or_empty (Option.bind (dict_get ps n) ip_of)))
       (filter (\<lambda>n. truthy (Option.bind (dict_get ps n) ip_of)) (sort_key node_sort_key (keys ps)))"

definition current_peer_ips :: "peers \<Rightarrow> string list" where
  "current_peer_ips ps = map snd (current_peer_ips_and_names ps)"

definition sync_cluster_env_and_render :: "'w sys \<Rightarrow> daemon_config \<Rightarrow> peers \<Rightarrow> (string \<times> string) list option \<Rightarrow> ('w, bool) io" where
  "sync_cluster_env_and_render sys cfg ps override =
     (let ordered = (case override of Some o' \<Rightarrow> o' | None \<Rightarrow> current_peer_ips_and_names ps) in
      if ordered = [] then ret True
      else if local_ip cfg \<noteq> [] \<and> local_ip cfg \<notin> set (map snd ordered) then ret True
      else
        bnd (upsert_kv sys ''/repo/cluster.env'' ''PEER_IPS'' (join_with '','' (map snd ordered))) (\<lambda>_.
        bnd (upsert_kv sys ''/repo/cluster.env'' ''PEER_NAMES'' (join_with '','' (map fst ordered))) (\<lambda>_.
        bnd (run_cmd sys render_cmd) (\<lambda>(rc, out, err). ret (rc = 0)))))"

definition reload_nginx :: "'w sys \<Rightarrow> ('w, unit) io" where
  "reload_nginx sys = bnd (run_cmd sys nginx_reload_cmd) (\<lambda>_. ret ())"

fun wait_minio_loop :: "'w sys \<Rightarrow> nat \<Rightarrow> time \<Rightarrow> ('w, bool) io" where
  "wait_minio_loop sys 0 deadline = raise Diverges"
| "wait_minio_loop sys (Suc fuel) deadline =
     bnd (monotonic sys) (\<lambda>t.
       if \<not> t < deadline then ret False
       else bnd (run_cmd sys inspect_minio_cmd) (\<lambda>(rc, out, err).
         if rc = 0 \<and> strip out = ''healthy'' then ret True
         else bnd (sleep sys 2) (\<lambda>_. wait_minio_loop sys fuel deadline)))"

definition wait_minio_healthy :: "'w sys \<Rightarrow> nat \<Rightarrow> int \<Rightarrow> ('w, bool) io" where
  "wait_minio_healthy sys fuel timeout_s =
     bnd (monotonic sys) (\<lambda>t. wait_minio_loop sys fuel (t + of_int timeout_s))"

fun quorate_rounds :: "'w sys \<Rightarrow> daemon_config \<Rightarrow> nat \<Rightarrow> ('w, bool) io" where
  "quorate_rounds sys cfg 0 = ret False"
| "quorate_rounds sys cfg (Suc n) =
     bnd (run_cmd sys (quorum_cmd cfg)) (\<lambda>(rc, out, err).
       if rc = 0 then ret True else bnd (sleep sys 2) (\<lambda>_. quorate_rounds sys cfg n))"

definition minio_cluster_quorate :: "'w sys \<Rightarrow> daemon_config \<Rightarrow> ('w, bool) io" where
  "minio_cluster_quorate sys cfg = quorate_rounds sys cfg 3"

definition ensure_milvus_bucket :: "'w sys \<Rightarrow> daemon_config \<Rightarrow> ('w, unit) io" where
  "ensure_milvus_bucket sys cfg =
     bnd (minio_cluster_quorate sys cfg) (\<lambda>ok.
       if \<not> ok then ret ()
       else bnd (run_cmd sys (alias_cmd cfg)) (\<lambda>(rc, out, err).
         if rc \<noteq> 0 then ret ()
         else bnd (run_cmd sys bucket_cmd) (\<lambda>_. ret ())))"

text \<open>The end of \<open>recreate_minio_local\<close>: bounce the Milvus services that this peer's compose file has.\<close>

definition refresh_milvus :: "'w sys \<Rightarrow> daemon_config \<Rightarrow> ('w, unit) io" where
  "refresh_milvus sys cfg =
     bnd (run_cmd sys (compose_services_cmd cfg)) (\<lambda>(rc, out, err).
       if rc \<noteq> 0 then ret ()
       else (let svcs = to_recreate milvus_services out in
             if svcs = [] then ret ()
             else bnd (run_cmd sys (recreate_cmd cfg [] svcs)) (\<lambda>_. ret ())))"

definition recreate_minio_local :: "'w sys \<Rightarrow> nat \<Rightarrow> daemon_config \<Rightarrow> peers \<Rightarrow> ('w, unit) io" where
  "recreate_minio_local sys fuel cfg ps =
     bnd (get_prefix sys TOPOLOGY_PREFIX) (\<lambda>raw.
     bnd (sync_cluster_env_and_render sys cfg ps (Some (current_peer_ips_and_names (decode_peers raw [])))) (\<lambda>_.
     bnd (run_cmd sys (minio_recreate_cmd cfg)) (\<lambda>(rc, out, err).
       if rc \<noteq> 0 then ret ()
       else
         bnd (wait_minio_healthy sys fuel (rolling_minio_healthy_wait_s cfg)) (\<lambda>_.
         bnd (if 2 \<le> minio_ha_pool_size cfg then ensure_milvus_bucket sys cfg else ret ()) (\<lambda>_.
           refresh_milvus sys cfg)))))"

definition apply_pulsar_host_change :: "'w sys \<Rightarrow> daemon_config \<Rightarrow> string \<Rightarrow> ('w, unit) io" where
  "apply_pulsar_host_change sys cfg host =
     bnd (upsert_kv sys ''/repo/cluster.env'' ''PULSAR_HOST'' host) (\<lambda>_.
     bnd (run_cmd sys render_cmd) (\<lambda>(rc, out, err).
       if rc \<noteq> 0 then raise (RuntimeError ''render failed'')
       else bnd (run_cmd sys (compose_services_cmd cfg)) (\<lambda>(rc, out, err).
         if rc \<noteq> 0 then raise (RuntimeError ''docker compose config --services failed'')
         else (let svcs = to_recreate (''pulsar'' # milvus_services) out in
               if svcs = [] then ret ()
               else bnd (run_cmd sys (recreate_cmd cfg ''--remove-orphans '' svcs)) (\<lambda>(rc, out, err).
                 if rc \<noteq> 0 then raise (RuntimeError ''docker compose up after PULSAR_HOST change failed'')
                 else ret ())))))"

text \<open>The peers the leader asks, in the numeric order of their names.\<close>

definition followers :: "daemon_config \<Rightarrow> peers \<Rightarrow> (string \<times> string) list" where
  "followers cfg ps = filter (\<lambda>(n, ip). ip \<noteq> local_ip cfg) (current_peer_ips_and_names ps)"

definition recreate_call :: "daemon_config \<Rightarrow> string \<Rightarrow> http_call" where
  "recreate_call cfg ip = \<lparr>hc_method = POST, hc_ip = ip, hc_port = listen_port cfg, hc_path = ''/recreate-minio-self'',
     hc_token = cluster_token cfg, hc_body = []\<rparr>"

definition rpc_one :: "'w sys \<Rightarrow> daemon_config \<Rightarrow> string \<times> string \<Rightarrow> unit \<Rightarrow> ('w, unit) io" where
  "rpc_one sys cfg p u = bnd (http sys (recreate_call cfg (snd p))) (\<lambda>_. ret ())"

definition rolling_minio_recreate :: "'w sys \<Rightarrow> nat \<Rightarrow> daemon_config \<Rightarrow> peers \<Rightarrow> change
    \<Rightarrow> ((string \<times> string) list \<Rightarrow> (string \<times> string) list) \<Rightarrow> ('w, unit) io" where
  "rolling_minio_recreate sys fuel cfg ps kind schedule =
     bnd (recreate_minio_local sys fuel cfg ps) (\<lambda>_.
       let fs = followers cfg ps in
       fold_io (rpc_one sys cfg) (if kind = REMOVED then schedule fs else fs) ())"

definition dispatch :: "'w sys \<Rightarrow> nat \<Rightarrow> daemon_config \<Rightarrow> bool \<Rightarrow> ((string \<times> string) list \<Rightarrow> (string \<times> string) list)
    \<Rightarrow> 'w handler" where
  "dispatch sys fuel cfg is_leader schedule ps kind old new =
     bnd (sync_cluster_env_and_render sys cfg ps None) (\<lambda>ok.
       if \<not> ok then ret ()
       else bnd (reload_nginx sys) (\<lambda>_.
         if (kind = ADDED \<or> kind = REMOVED) \<and> is_leader
         then rolling_minio_recreate sys fuel cfg ps kind schedule
         else ret ()))"

section \<open>Calls\<close>

lemma only_upsert:
  assumes "A (A_read path)" and "\<And>c. A (A_write path c)"
  shows "only A (upsert_kv sys path key value)"
  unfolding upsert_kv_def write_file_def
  by (intro only_intros) (auto intro!: only_intros assms split: option.split)

text \<open>The calls that keep the local configuration in step.\<close>

definition env_call :: "act \<Rightarrow> bool" where
  "env_call a \<longleftrightarrow> a = A_read ''/repo/cluster.env'' \<or> (\<exists>c. a = A_write ''/repo/cluster.env'' c) \<or> a = A_run render_cmd"

lemma only_sync: "(\<And>a. env_call a \<Longrightarrow> A a) \<Longrightarrow> only A (sync_cluster_env_and_render sys cfg ps override)"
  unfolding sync_cluster_env_and_render_def Let_def
  by (intro only_intros only_upsert) (auto simp: env_call_def)

lemma only_wait_minio:
  assumes "A A_monotonic" "A (A_run inspect_minio_cmd)" "\<And>d. A (A_sleep d)"
  shows "only A (wait_minio_loop sys fuel deadline)"
  by (induction fuel) (auto intro!: only_intros assms)

lemma only_quorate:
  "A (A_run (quorum_cmd cfg)) \<Longrightarrow> (\<And>d. A (A_sleep d)) \<Longrightarrow> only A (quorate_rounds sys cfg n)"
  by (induction n) (auto intro!: only_intros)

definition is_http :: "act \<Rightarrow> bool" where
  "is_http a \<longleftrightarrow> (\<exists>c. a = A_http c)"

lemma recreate_minio_local_calls: "only (\<lambda>a. \<not> is_http a) (recreate_minio_local sys fuel cfg ps)"
  unfolding recreate_minio_local_def wait_minio_healthy_def ensure_milvus_bucket_def minio_cluster_quorate_def
    refresh_milvus_def Let_def
  by (intro only_intros only_get_prefix only_sync only_wait_minio only_quorate)
    (auto simp: is_http_def env_call_def)

lemma fold_rpc: "fold_io (rpc_one sys cfg) fs () s =
    (Inr (), snd (fold_io (rpc_one sys cfg) fs () s))
  \<and> st_trace (snd (fold_io (rpc_one sys cfg) fs () s)) = st_trace s @ map (\<lambda>p. A_http (recreate_call cfg (snd p))) fs"
proof (induction fs arbitrary: s)
  case (Cons p fs)
  then show ?case by (simp add: rpc_one_def bnd_def http_def call_def ret_def split: prod.splits sum.splits)
qed (simp add: ret_def)

section \<open>Properties\<close>


definition trio :: peers where
  "trio = [(''node-3'', node_entry ''10.0.0.3''), (''node-1'', node_entry ''10.0.0.1''), (''node-2'', node_entry ''10.0.0.2'')]"

definition quiet_cfg :: daemon_config where
  "quiet_cfg = default_config ''c'' ''node-1'' ''10.0.0.1'' ''secret'' ''http://10.0.0.1:2379''"

text \<open>A world in which MinIO is healthy at once and no Milvus service is listed.\<close>

definition sweep_world :: world where
  "sweep_world = two_nodes\<lparr>w_files := [(''/repo/cluster.env'', leader_file)],
     w_runs := [(0, [], []), (0, [], []), (0, ''healthy'', []), (0, [], [])]\<rparr>"


text \<open>A follower's reaction to a topology change is local and gentle: whatever the event, a daemon that
  does not lead only edits its cluster.env, renders and reloads nginx; it recreates no container and
  asks no peer for anything.\<close>

definition gentle_call :: "act \<Rightarrow> bool" where
  "gentle_call a \<longleftrightarrow> env_call a \<or> a = A_run nginx_reload_cmd"

lemma follower_dispatch_gentle:
  "only gentle_call (dispatch sys fuel cfg False schedule ps kind old new)"
  unfolding dispatch_def reload_nginx_def
  by (intro only_intros only_sync) (auto simp: gentle_call_def)

text \<open>A failed render stops the reaction: when the render command fails and this peer is in the
  topology, the handler does nothing after it, on the leader as well: no nginx reload, no recreation, no
  request to a peer.\<close>

theorem failed_render_stops_dispatch:
  assumes "\<And>w. fst (fst (sys_run sys render_cmd w)) \<noteq> 0"
    and "local_ip cfg \<in> set (current_peer_ips ps)"
  shows "only env_call (dispatch sys fuel cfg is_leader schedule ps kind old new)"
proof -
  let ?o = "current_peer_ips_and_names ps"
  have "wp (sync_cluster_env_and_render sys cfg ps None) (\<lambda>ok _. \<not> ok) (\<lambda>_ _. True) s" for s
  proof -
    have "?o \<noteq> []" "local_ip cfg \<in> set (map snd ?o)" using assms(2) by (auto simp: current_peer_ips_def)
    then have eq: "sync_cluster_env_and_render sys cfg ps None =
        bnd (upsert_kv sys ''/repo/cluster.env'' ''PEER_IPS'' (join_with '','' (map snd ?o))) (\<lambda>_.
        bnd (upsert_kv sys ''/repo/cluster.env'' ''PEER_NAMES'' (join_with '','' (map fst ?o))) (\<lambda>_.
        bnd (run_cmd sys render_cmd) (\<lambda>(rc, out, err). ret (rc = 0))))"
      by (simp add: sync_cluster_env_and_render_def Let_def)
    have run: "wp (bnd (run_cmd sys render_cmd) (\<lambda>(rc, out, err). ret (rc = 0))) (\<lambda>ok _. \<not> ok) (\<lambda>_ _. True) s" for s
      using assms(1) [of "st_world s"] by (auto simp: wp_bnd wp_ret wp_call run_cmd_def split: prod.split)
    show ?thesis unfolding eq wp_bnd [of "upsert_kv a b c d" for a b c d] by (intro wp_all run) simp_all
  qed
  then have no: "sync_cluster_env_and_render sys cfg ps None s = (Inr ok, t) \<Longrightarrow> \<not> ok" for s ok t
    by (metis wp_D_ok)
  have "snd (dispatch sys fuel cfg is_leader schedule ps kind old new s) = snd (sync_cluster_env_and_render sys cfg ps None s)" for s
    unfolding dispatch_def bnd_def using no [of s] by (auto simp: ret_def split: prod.split sum.split)
  then show ?thesis using only_sync [of env_call sys cfg ps None] unfolding only_def by simp
qed

definition broken_sys :: "world sys" where
  "broken_sys = mem_sys\<lparr>sys_run := (\<lambda>c w. ((1, [], ''no such file''), w))\<rparr>"

theorem failed_render_stops_dispatch_witness:
  "only env_call (dispatch broken_sys 50 quiet_cfg True id trio ADDED None None)"
proof -
  have b: "fst (fst (sys_run broken_sys render_cmd w)) \<noteq> 0" for w by (simp add: broken_sys_def)
  have l: "local_ip quiet_cfg \<in> set (current_peer_ips trio)" by code_simp
  show ?thesis by (rule failed_render_stops_dispatch [OF b l])
qed

text \<open>The recreation behind \<open>/recreate-minio-self\<close> has no such guard: its own render may fail and MinIO is
  recreated all the same, from the stale files.\<close>

theorem recreate_ignores_failed_render:
  "case recreate_minio_local mem_sys 50 quiet_cfg trio
      (start (sweep_world\<lparr>w_runs := [(1, [], ''render failed''), (0, [], []), (0, ''healthy'', []), (0, [], [])]\<rparr>)) of
     (Inr _, t) \<Rightarrow> list_ex (\<lambda>a. a = A_run render_cmd) (st_trace t) \<and> list_ex (\<lambda>a. a = A_run (minio_recreate_cmd quiet_cfg)) (st_trace t)
   | (Inl e, t) \<Rightarrow> False"
  by code_simp

definition pulsar_change_call :: "daemon_config \<Rightarrow> act \<Rightarrow> bool" where
  "pulsar_change_call cfg a \<longleftrightarrow> env_call a \<or> a = A_run (compose_services_cmd cfg)
     \<or> (\<exists>svcs. svcs \<noteq> [] \<and> set svcs \<subseteq> set (''pulsar'' # milvus_services) \<and> ''control-plane'' \<notin> set svcs
          \<and> a = A_run (recreate_cmd cfg ''--remove-orphans '' svcs))"

text \<open>A change of the Pulsar host bounces only what depends on it: besides the edit of cluster.env, the
  render and the listing of services, the handler runs at most a recreation of services that the
  compose file has, all of them Pulsar or Milvus services; the control plane itself is never among them,
  whatever docker prints.\<close>

theorem pulsar_change_spares_control_plane:
  "only (pulsar_change_call cfg) (apply_pulsar_host_change sys cfg host)"
proof -
  have sub: "set (to_recreate wanted out) \<subseteq> set wanted" for wanted out by (auto simp: to_recreate_def)
  have cp: "''control-plane'' \<notin> set (''pulsar'' # milvus_services)" by (simp add: milvus_services_def)
  have ok: "pulsar_change_call cfg (A_run (recreate_cmd cfg ''--remove-orphans '' (to_recreate (''pulsar'' # milvus_services) out)))"
    if "to_recreate (''pulsar'' # milvus_services) out \<noteq> []" for out
    unfolding pulsar_change_call_def using that sub [of "''pulsar'' # milvus_services" out] cp by blast
  show ?thesis
    unfolding apply_pulsar_host_change_def Let_def
    by (intro only_intros only_upsert ok) (auto simp: pulsar_change_call_def env_call_def)
qed

section \<open>The settings file after a sync\<close>

text \<open>Files keep what was written to them.\<close>

locale file_store =
  fixes sys :: "'w sys" and disk :: "'w \<Rightarrow> string \<rightharpoonup> string"
  assumes file_read: "fst (sys_read sys p w) = disk w p" "disk (snd (sys_read sys p w)) = disk w"
    and file_write: "disk (sys_write sys p c w) = (disk w)(p \<mapsto> c)"
begin

lemma upsert_spec:
  "wp (upsert_kv sys path key value)
     (\<lambda>_ t. \<exists>text. disk (st_world s) path = Some text
        \<and> disk (st_world t) = (disk (st_world s))(path \<mapsto> upsert_text key value text))
     (\<lambda>e t. e = FileNotFoundError \<and> disk (st_world s) path = None) s"
  by (auto simp: upsert_kv_def wp_simps read_file_def write_file_def file_read file_write split: option.split)

end

interpretation mem_files: file_store mem_sys "\<lambda>w. map_of (w_files w)"
  by unfold_locales (simp_all add: update_conv')

text \<open>A file that ends in a newline and in which the key is set only by lines that start with its name.\<close>

definition tidy :: "string \<Rightarrow> string \<Rightarrow> bool" where
  "tidy key text \<longleftrightarrow> (universal_nl text = [] \<or> last (universal_nl text) = nl)
     \<and> list_all (\<lambda>l. case env_line l of Some (k, v) \<Rightarrow> k = key \<longrightarrow> startswith l (key @ ''='') | None \<Rightarrow> True)
          (readlines (universal_nl text))"

text \<open>A value that survives the readers' stripping and the comma-separated lists.\<close>

definition plain :: "string \<Rightarrow> bool" where
  "plain v \<longleftrightarrow> list_all (\<lambda>c. \<not> is_space c \<and> c \<noteq> CHR 0x22 \<and> c \<noteq> CHR 0x27 \<and> c \<noteq> CHR '','') v"

lemma last_concat_all: "ls \<noteq> [] \<Longrightarrow> \<forall>l \<in> set ls. l \<noteq> [] \<and> last l = c \<Longrightarrow> last (concat ls) = c"
  by (induction ls) (auto simp: last_append)

lemma upsert_ends_in_newline:
  assumes "universal_nl text = [] \<or> last (universal_nl text) = nl"
  shows "last (concat (upsert_lines key value (readlines (universal_nl text)))) = nl"
proof -
  have "\<forall>l \<in> set (readlines (universal_nl text)). l \<noteq> [] \<and> last l = nl"
    using readlines_complete [OF assms] by fastforce
  then have "\<forall>l \<in> set (upsert_lines key value (readlines (universal_nl text))). l \<noteq> [] \<and> last l = nl"
    by (rule upsert_lines_all) simp
  moreover have "upsert_lines key value ls \<noteq> []" for ls by (cases ls) auto
  ultimately show ?thesis by (metis last_concat_all)
qed

lemma tidy_upsert:
  assumes "key_ok key" "one_line value" "tidy key' text" "key_ok key'" "(universal_nl text = [] \<or> last (universal_nl text) = nl)"
  shows "tidy key' (upsert_text key value text)"
proof -
  let ?P = "\<lambda>l. case env_line l of Some (k, v) \<Rightarrow> k = key' \<longrightarrow> startswith l (key' @ ''='') | None \<Rightarrow> True"
  have new: "?P (key @ ''='' @ value @ [nl])"
    using env_line_key [OF assms(1), of "value @ [nl]"] startswith_append [of "key @ ''=''" "value @ [nl]"] by auto
  have "list_all ?P (upsert_lines key value (readlines (universal_nl text)))"
    using upsert_lines_all [of "readlines (universal_nl text)" ?P key "value"] new assms(3)
    by (simp add: tidy_def list_all_iff)
  moreover have "CHR 0x0D \<notin> set (upsert_text key value text)"
  proof -
    have "CHR 0x0D \<notin> set key" using assms(1) is_space_simps(2) unfolding key_ok_def by blast
    then show ?thesis
      using set_upsert_lines [of "CHR 0x0D" key "value" "readlines (universal_nl text)"] assms(2)
      by (auto simp: upsert_text_def one_line_def)
  qed
  then have "universal_nl (upsert_text key value text) = upsert_text key value text" by (rule universal_nl_id)
  then have "last (universal_nl (upsert_text key value text)) = nl"
    using upsert_ends_in_newline [OF assms(5)] by (simp add: upsert_text_def)
  ultimately show ?thesis
    unfolding tidy_def readlines_upsert [OF assms(1,2,5)] by blast
qed

lemma tidy_read:
  assumes "key_ok key" "one_line value" "tidy key text"
  shows "text_value key (upsert_text key value text) = Some (clean_value value)"
    and "k \<noteq> key \<Longrightarrow> text_value k (upsert_text key value text) = text_value k text"
proof -
  have e: "universal_nl text = [] \<or> last (universal_nl text) = nl" using assms(3) by (simp add: tidy_def)
  have "startswith l (key @ ''='')" if "l \<in> set (readlines (universal_nl text))" "env_line l = Some (key, v)" for l v
    using assms(3) that by (fastforce simp: tidy_def list_all_iff)
  then have "first_value key (upsert_lines key value (readlines (universal_nl text))) = Some (clean_value value)"
    by (intro first_value_upsert [OF assms(1)])
  then show "text_value key (upsert_text key value text) = Some (clean_value value)"
    unfolding text_value_def readlines_upsert [OF assms(1,2) e] .
  show "k \<noteq> key \<Longrightarrow> text_value k (upsert_text key value text) = text_value k text"
    unfolding text_value_def readlines_upsert [OF assms(1,2) e] using first_value_upsert_other [OF assms(1)] by simp
qed

lemma set_join: "c \<in> set (join_with sep xs) \<Longrightarrow> c \<in> set sep \<or> (\<exists>x \<in> set xs. c \<in> set x)"
  by (induction sep xs rule: join_with.induct) auto

lemma is_space_comma: "\<not> is_space (CHR '','')"
  by (simp add: is_space_def ord_chr_def)

lemma plain_join:
  assumes "list_all plain xs"
  shows "one_line (join_with '','' xs)" "clean_value (join_with '','' xs) = join_with '','' xs"
    "xs \<noteq> [] \<Longrightarrow> split_on (CHR '','') (join_with '','' xs) = xs"
proof -
  have c: "\<not> is_space c \<and> c \<noteq> CHR 0x22 \<and> c \<noteq> CHR 0x27" if "c \<in> set (join_with '','' xs)" for c
    using set_join [OF that] assms is_space_comma unfolding list_all_iff plain_def by auto
  then show "one_line (join_with '','' xs)" using is_space_simps(1,2) unfolding one_line_def by blast
  from c show "clean_value (join_with '','' xs) = join_with '','' xs"
    unfolding clean_value_def strip_def strip_char_def by (simp add: strip_by_id)
  show "xs \<noteq> [] \<Longrightarrow> split_on (CHR '','') (join_with '','' xs) = xs"
    using split_on_join [of xs "CHR '',''"] assms by (auto simp: list_all_iff plain_def)
qed

text \<open>The edits of a sync on a peer that is a member.\<close>

lemma sync_member:
  assumes "local_ip cfg \<in> set (current_peer_ips ps)"
  shows "sync_cluster_env_and_render sys cfg ps None =
    bnd (upsert_kv sys ''/repo/cluster.env'' ''PEER_IPS'' (join_with '','' (map snd (current_peer_ips_and_names ps)))) (\<lambda>_.
    bnd (upsert_kv sys ''/repo/cluster.env'' ''PEER_NAMES'' (join_with '','' (map fst (current_peer_ips_and_names ps)))) (\<lambda>_.
    bnd (run_cmd sys render_cmd) (\<lambda>(rc, out, err). ret (rc = 0))))"
proof -
  have "current_peer_ips_and_names ps \<noteq> []" "local_ip cfg \<in> set (map snd (current_peer_ips_and_names ps))"
    using assms by (auto simp: current_peer_ips_def)
  then show ?thesis by (simp add: sync_cluster_env_and_render_def Let_def)
qed

definition sync_text :: "(string \<times> string) list \<Rightarrow> string \<Rightarrow> string" where
  "sync_text ordered text =
     upsert_text ''PEER_NAMES'' (join_with '','' (map fst ordered)) (upsert_text ''PEER_IPS'' (join_with '','' (map snd ordered)) text)"

lemma sync_text_reads:
  assumes t: "tidy ''PEER_IPS'' text" "tidy ''PEER_NAMES'' text"
    and p: "list_all (\<lambda>(n, ip). plain n \<and> plain ip) ordered" and ne: "ordered \<noteq> []"
  shows "map_option (split_on (CHR '','')) (text_value ''PEER_IPS'' (sync_text ordered text)) = Some (map snd ordered)"
    and "map_option (split_on (CHR '','')) (text_value ''PEER_NAMES'' (sync_text ordered text)) = Some (map fst ordered)"
    and "k \<noteq> ''PEER_IPS'' \<Longrightarrow> k \<noteq> ''PEER_NAMES'' \<Longrightarrow> text_value k (sync_text ordered text) = text_value k text"
proof -
  let ?ips = "join_with '','' (map snd ordered)" and ?names = "join_with '','' (map fst ordered)"
  let ?t1 = "upsert_text ''PEER_IPS'' ?ips text"
  have k: "key_ok ''PEER_IPS''" "key_ok ''PEER_NAMES''" by code_simp+
  have d: "''PEER_IPS'' \<noteq> ''PEER_NAMES''" by simp
  have pl: "list_all plain (map snd ordered)" "list_all plain (map fst ordered)"
    using p by (auto simp: list_all_iff)
  note i = plain_join [OF pl(1)] and n = plain_join [OF pl(2)]
  have e: "universal_nl text = [] \<or> last (universal_nl text) = nl" using t(1) by (simp add: tidy_def)
  have t1: "tidy ''PEER_NAMES'' ?t1" by (rule tidy_upsert [OF k(1) i(1) t(2) k(2) e])
  have st: "sync_text ordered text = upsert_text ''PEER_NAMES'' ?names ?t1" by (simp only: sync_text_def)
  have "text_value ''PEER_IPS'' (sync_text ordered text) = Some ?ips"
    unfolding st tidy_read(2) [OF k(2) n(1) t1 d] tidy_read(1) [OF k(1) i(1) t(1)] i(2) ..
  then show "map_option (split_on (CHR '','')) (text_value ''PEER_IPS'' (sync_text ordered text)) = Some (map snd ordered)"
    using i(3) ne by simp
  have "text_value ''PEER_NAMES'' (sync_text ordered text) = Some ?names"
    unfolding st tidy_read(1) [OF k(2) n(1) t1] n(2) ..
  then show "map_option (split_on (CHR '','')) (text_value ''PEER_NAMES'' (sync_text ordered text)) = Some (map fst ordered)"
    using n(3) ne by simp
  show "k \<noteq> ''PEER_IPS'' \<Longrightarrow> k \<noteq> ''PEER_NAMES'' \<Longrightarrow> text_value k (sync_text ordered text) = text_value k text"
    unfolding st using tidy_read(2) [OF k(2) n(1) t1, of k] tidy_read(2) [OF k(1) i(1) t(1), of k] by simp
qed

context file_store
begin

lemma sync_spec:
  assumes render: "\<And>w. disk (snd (sys_run sys render_cmd w)) ''/repo/cluster.env'' = disk w ''/repo/cluster.env''"
    and "disk (st_world s) ''/repo/cluster.env'' = Some text"
    and "local_ip cfg \<in> set (current_peer_ips ps)"
  shows "wp (sync_cluster_env_and_render sys cfg ps None)
    (\<lambda>_ t. disk (st_world t) ''/repo/cluster.env'' = Some (sync_text (current_peer_ips_and_names ps) text)) (\<lambda>_ _. False) s"
proof -
  let ?p = "''/repo/cluster.env''"
  let ?o = "current_peer_ips_and_names ps"
  have u: "wp (upsert_kv sys ?p key value) (\<lambda>_ t. disk (st_world t) ?p = Some (upsert_text key value text')) (\<lambda>_ _. False) s'"
    if "disk (st_world s') ?p = Some text'" for key "value" text' and s' :: "'w st"
    using that by (intro wp_mono [OF upsert_spec]) auto
  have r: "wp (bnd (run_cmd sys render_cmd) (\<lambda>(rc, out, err). ret (rc = 0))) (\<lambda>_ t. disk (st_world t) ?p = Some text') (\<lambda>_ _. False) s'"
    if "disk (st_world s') ?p = Some text'" for text' and s' :: "'w st"
    using that render [of "st_world s'"] by (simp add: wp_bnd wp_call wp_ret run_cmd_def split: prod.split)
  show ?thesis
    unfolding sync_member [OF assms(3)] wp_bnd [of "upsert_kv a b c d" for a b c d]
    by (rule wp_mono [OF u [OF assms(2)]], rule wp_mono [OF u], assumption) (simp_all only: sync_text_def, erule r)
qed

end



end
