(* ===== verification/Worker.thy ===== *)
theory Worker
  imports Handlers Json_Text Leader
begin

text \<open>
  What the workers under \<open>src/daemon/workers\<close> share: \<open>int()\<close> on a setting, Python's truth of a JSON value,
  the peers that stay after a removal, and the rules that follow their calls.
\<close>

text \<open>\<open>int(s)\<close>: blanks around, a sign and single underscores between digits are accepted.\<close>

definition py_int :: "string \<Rightarrow> int option" where
  "py_int s =
     (let t = strip s; u = (if startswith t ''-'' \<or> startswith t ''+'' then tl t else t); parts = split_on (CHR ''_'') u
      in if list_all (\<lambda>p. p \<noteq> [] \<and> list_all is_digit p) parts
         then Some (if startswith t ''-'' then - int (nat_of_digits (concat parts)) else int (nat_of_digits (concat parts)))
         else None)"

definition to_int :: "string \<Rightarrow> ('w, int) io" where
  "to_int s = (case py_int s of Some i \<Rightarrow> ret i | None \<Rightarrow> raise (ValueError ''invalid literal for int()''))"

fun json_truthy :: "json \<Rightarrow> bool" where
  "json_truthy JNull = False"
| "json_truthy (JBool b) = b"
| "json_truthy (JNum x) = (x \<noteq> 0)"
| "json_truthy (JStr s) = (s \<noteq> [])"
| "json_truthy (JArr xs) = (xs \<noteq> [])"
| "json_truthy (JObj kvs) = (kvs \<noteq> [])"

definition field_true :: "obj \<Rightarrow> string \<Rightarrow> bool" where
  "field_true d k = (case dict_get d k of Some v \<Rightarrow> json_truthy v | None \<Rightarrow> False)"

text \<open>Running text of a decimal number read from a setting reads back as that number.\<close>

lemma py_int_str_of_nat [simp]: "py_int (str_of_nat n) = Some (int n)"
proof -
  let ?s = "str_of_nat n"
  have d: "list_all is_digit ?s" by (rule str_of_nat_digits)
  have ns: "\<not> is_space c \<and> c \<noteq> CHR ''-'' \<and> c \<noteq> CHR ''+'' \<and> c \<noteq> CHR ''_''" if "is_digit c" for c
    using that by (auto simp: is_digit_def is_space_def ord_chr_def)
  have "strip ?s = ?s" using d ns by (simp add: strip_def strip_by_id list_all_iff)
  moreover have "\<not> startswith ?s ''-''" "\<not> startswith ?s ''+''"
    using d ns by (cases ?s; auto simp: startswith_def)+
  moreover have "split_on (CHR ''_'') ?s = [?s]" using d ns by (intro split_on_none) (auto simp: list_all_iff)
  ultimately show ?thesis using d by (simp add: py_int_def Let_def)
qed

lemma bnd_assoc: "bnd (bnd m f) g = bnd m (\<lambda>x. bnd (f x) g)"
  by (auto simp: fun_eq_iff bnd_def split: prod.split sum.split)

lemma only_option [only_intros]: "only A m \<Longrightarrow> (\<And>x. only A (g x)) \<Longrightarrow> only A (case o' of None \<Rightarrow> m | Some x \<Rightarrow> g x)"
  by (cases o') simp_all

lemma only_sum [only_intros]: "(\<And>e. only A (m e)) \<Longrightarrow> (\<And>x. only A (g x)) \<Longrightarrow> only A (case r of Inl e \<Rightarrow> m e | Inr x \<Rightarrow> g x)"
  by (cases r) simp_all

lemma stages_option: "in_stages As m \<Longrightarrow> (\<And>x. in_stages As (g x)) \<Longrightarrow> in_stages As (case o' of None \<Rightarrow> m | Some x \<Rightarrow> g x)"
  by (cases o') simp_all

lemma climbs_raise: "lo \<le> hi \<Longrightarrow> climbs lo hi (raise e)"
  by (intro climbs_silent only_raise)

lemma climbs_log: "lo \<le> hi \<Longrightarrow> climbs lo hi (log_line l)"
  by (intro climbs_silent only_log silent_simps)

text \<open>A computation that never ends in success.\<close>

definition never_ok :: "('w, 'a) io \<Rightarrow> bool" where
  "never_ok m \<longleftrightarrow> (\<forall>s x t. m s \<noteq> (Inr x, t))"

lemma never_ok_bnd: "(\<And>x. never_ok (f x)) \<Longrightarrow> never_ok (bnd m f)"
  unfolding never_ok_def bnd_def by (auto split: prod.splits sum.splits)

lemma never_ok_bnd_if: "(\<And>s x t. m s = (Inr x, t) \<Longrightarrow> never_ok (f x)) \<Longrightarrow> never_ok (bnd m f)"
  unfolding never_ok_def bnd_def by (auto split: prod.splits sum.splits)

lemma never_ok_if: "(b \<Longrightarrow> never_ok m) \<Longrightarrow> (\<not> b \<Longrightarrow> never_ok n) \<Longrightarrow> never_ok (if b then m else n)"
  by simp

lemma never_ok_raise: "never_ok (raise e)"
  by (simp add: never_ok_def raise_def)

lemma only_bnd_never: "only A m \<Longrightarrow> never_ok m \<Longrightarrow> only A (bnd m f)"
  unfolding only_def never_ok_def bnd_def by (auto split: prod.splits sum.splits) (metis snd_conv)

lemma never_ok_fail: "never_ok m \<Longrightarrow> never_ok (bnd m f)"
  unfolding never_ok_def bnd_def by (auto split: prod.splits sum.splits)

lemma only_to_int [only_intros]: "only A (to_int s)"
  unfolding to_int_def by (auto intro!: only_intros split: option.split)

lemma only_env_value [only_intros]:
  "A (A_read ''/repo/cluster.env'') \<Longrightarrow> A (A_read ''/etc/milvus-onprem/cluster.env'') \<Longrightarrow> only A (read_cluster_env_value sys key dflt)"
  unfolding read_cluster_env_value_def by (intro only_intros) (auto intro!: only_intros split: option.split)

lemma only_is_pulsar [only_intros]:
  "A (A_read ''/repo/cluster.env'') \<Longrightarrow> A (A_read ''/etc/milvus-onprem/cluster.env'') \<Longrightarrow> only A (is_pulsar_deploy sys)"
  unfolding is_pulsar_deploy_def Let_def by (intro only_intros) auto

lemma only_authoritative [only_intros]:
  "A (A_etcd (Range TOPOLOGY_PREFIX (Some (prefix_end TOPOLOGY_PREFIX)))) \<Longrightarrow> (\<And>d. A (A_sleep d)) \<Longrightarrow> only A (authoritative_peers sys)"
  unfolding authoritative_peers_def by (intro only_intros)

section \<open>Log lines\<close>

text \<open>\<open>str(e)\<close>.\<close>

definition exn_message :: "exn \<Rightarrow> string" where
  "exn_message e =
     (case e of
        ValueError m \<Rightarrow> m | PermissionError m \<Rightarrow> m | RuntimeError m \<Rightarrow> m | TypeError m \<Rightarrow> m | KeyError m \<Rightarrow> m
      | AttributeError m \<Rightarrow> m | JoinError m \<Rightarrow> m | HTTPStatusError n \<Rightarrow> str_of_nat n
      | HTTPException n m \<Rightarrow> str_of_nat n @ '': '' @ m | _ \<Rightarrow> [])"

definition log_lines :: "string list \<Rightarrow> ('w, unit) io" where
  "log_lines ls = fold_io (\<lambda>l _. log_line l) ls ()"

text \<open>Evaluated in one step.\<close>

lemma log_lines_eq [code]: "log_lines ls = (\<lambda>s. (Inr (), s\<lparr>st_trace := st_trace s @ map A_log ls\<rparr>))"
proof
  show "log_lines ls s = (Inr (), s\<lparr>st_trace := st_trace s @ map A_log ls\<rparr>)" for s :: "'a st"
    unfolding log_lines_def by (induction ls arbitrary: s) (simp_all add: ret_def bnd_def log_line_def call_def)
qed

section \<open>Requests that change a peer\<close>

text \<open>Requests that change a peer: every \<open>POST\<close>.\<close>

definition posts :: "act \<Rightarrow> bool" where
  "posts a \<longleftrightarrow> (\<exists>c. a = A_http c \<and> hc_method c = POST)"

lemma posts_simps [simp]:
  "\<not> posts (A_log l)" "\<not> posts (A_progress p)" "\<not> posts (A_read f)" "\<not> posts (A_write f d')" "\<not> posts (A_run c)"
  "\<not> posts (A_etcd rq)" "\<not> posts (A_sleep d)" "posts (A_http h) \<longleftrightarrow> hc_method h = POST"
  by (simp_all add: posts_def)

text \<open>The requests that change a peer, in the order in which they were sent.\<close>

definition changes :: "act list \<Rightarrow> act list" where
  "changes acts = filter posts acts"

definition sends :: "('w, 'a) io \<Rightarrow> act list \<Rightarrow> bool" where
  "sends m cs \<longleftrightarrow> (\<forall>s x t. m s = (Inr x, t) \<longrightarrow> (\<exists>acts. st_trace t = st_trace s @ acts \<and> changes acts = cs))"

lemma sends_only: "only (\<lambda>a. \<not> posts a) m \<Longrightarrow> sends m []"
  unfolding sends_def changes_def only_def extends_def by (metis (no_types, lifting) filter_False list_all_iff snd_conv)

lemma sends_bnd: "sends m as \<Longrightarrow> (\<And>x. sends (f x) bs) \<Longrightarrow> sends (bnd m f) (as @ bs)"
  unfolding sends_def bnd_def changes_def
  by (auto split: prod.splits sum.splits) (metis append.assoc filter_append)

lemma sends_quiet_bnd: "only (\<lambda>a. \<not> posts a) m \<Longrightarrow> (\<And>x. sends (f x) bs) \<Longrightarrow> sends (bnd m f) bs"
  using sends_bnd [OF sends_only, of m f bs] by simp

lemma sends_try: "sends m cs \<Longrightarrow> sends (try_except m (\<lambda>e. raise e')) cs"
  unfolding sends_def try_except_def raise_def by (auto split: prod.splits sum.splits if_splits)

lemma sends_post: "hc_method c = POST \<Longrightarrow> sends (http sys c) [A_http c]"
  by (simp add: sends_def http_def call_def changes_def)

section \<open>What a computation leaves alone\<close>

text \<open>However \<open>m\<close> ends, the part \<open>f\<close> of the world is as before.\<close>

definition keeps :: "('w \<Rightarrow> 'x) \<Rightarrow> ('w, 'a) io \<Rightarrow> bool" where
  "keeps f m \<longleftrightarrow> (\<forall>s. f (st_world (snd (m s))) = f (st_world s))"

named_theorems keeps_intros \<open>rules for what a computation leaves alone\<close>

lemma keeps_ret [keeps_intros]: "keeps f (ret x)"
  by (simp add: keeps_def ret_def)

lemma keeps_raise [keeps_intros]: "keeps f (raise e)"
  by (simp add: keeps_def raise_def)

lemma keeps_bnd [keeps_intros]: "keeps f m \<Longrightarrow> (\<And>x. keeps f (g x)) \<Longrightarrow> keeps f (bnd m g)"
  unfolding keeps_def bnd_def by (auto split: prod.splits sum.splits) (metis snd_conv)+

lemma keeps_try [keeps_intros]: "keeps f m \<Longrightarrow> (\<And>e. keeps f (h e)) \<Longrightarrow> keeps f (try_except m h)"
  unfolding keeps_def try_except_def by (auto split: prod.splits sum.splits) (metis snd_conv)+

lemma keeps_if [keeps_intros]: "(b \<Longrightarrow> keeps f m) \<Longrightarrow> (\<not> b \<Longrightarrow> keeps f n) \<Longrightarrow> keeps f (if b then m else n)"
  by simp

lemma keeps_prod [keeps_intros]: "(\<And>a b. keeps f (g a b)) \<Longrightarrow> keeps f (case p of (a, b) \<Rightarrow> g a b)"
  by (cases p) simp

lemma keeps_option [keeps_intros]: "keeps f m \<Longrightarrow> (\<And>x. keeps f (g x)) \<Longrightarrow> keeps f (case o' of None \<Rightarrow> m | Some x \<Rightarrow> g x)"
  by (cases o') simp_all

lemma keeps_sum [keeps_intros]: "(\<And>e. keeps f (m e)) \<Longrightarrow> (\<And>x. keeps f (g x)) \<Longrightarrow> keeps f (case r of Inl e \<Rightarrow> m e | Inr x \<Rightarrow> g x)"
  by (cases r) simp_all

lemma keeps_call: "(\<And>w. f (snd (g w)) = f w) \<Longrightarrow> keeps f (call a g)"
  by (simp add: keeps_def call_def)

lemma keeps_fold [keeps_intros]: "(\<And>x b. keeps f (g x b)) \<Longrightarrow> keeps f (fold_io g xs b)"
  by (induction xs arbitrary: b) (auto intro!: keeps_intros)

lemma keeps_log [keeps_intros]: "keeps f (log_line l)" "keeps f (set_progress p)"
  by (simp_all add: log_line_def set_progress_def keeps_call)

lemma keeps_to_int [keeps_intros]: "keeps f (to_int s)"
  unfolding to_int_def by (intro keeps_intros)

lemma keeps_wp: "keeps f m \<Longrightarrow> wp m (\<lambda>_ t. f (st_world t) = f (st_world s)) (\<lambda>_ t. f (st_world t) = f (st_world s)) s"
  unfolding keeps_def wp_def by (auto split: prod.split sum.split) (metis snd_conv)+

text \<open>Commands, requests to peers and probes do not write the keys of etcd.\<close>

locale quiet_outside = etcd_gateway sys leased kv for sys :: "'w sys" and leased and kv +
  assumes quiet_run: "kv (snd (sys_run sys c w)) = kv w"
    and quiet_http: "kv (snd (sys_http sys h w)) = kv w"
    and quiet_tcp: "kv (snd (sys_tcp sys ip p w)) = kv w"
    and quiet_write: "kv (sys_write sys f d w) = kv w"
begin

lemma keeps_calls [keeps_intros]:
  "keeps kv (run_cmd sys c)" "keeps kv (http sys h)" "keeps kv (tcp_probe sys ip p)" "keeps kv (read_file sys f)"
  "keeps kv (write_file sys f d)" "keeps kv (sleep sys x)" "keeps kv (monotonic sys)" "keeps kv (now sys)"
  by (simp_all add: call_defs keeps_call quiet_run quiet_http quiet_tcp quiet_write quiet_read quiet_sleep
      quiet_monotonic quiet_time)

lemma keeps_post:
  assumes "plain_req leased rq" "\<And>m. apply_req rq m = m"
  shows "keeps kv (post sys rq)"
  unfolding keeps_def
proof
  fix s
  show "kv (st_world (snd (post sys rq s))) = kv (st_world s)"
    using post_effect [OF assms(1), of s] assms(2) unfolding wp_def by (auto split: prod.splits sum.splits)
qed

lemma keeps_reads [keeps_intros]:
  "keeps kv (get_prefix sys p)" "keeps kv (member_list sys)" "keeps kv (post sys (Member_remove i))" "keeps kv (etcd_get sys k)"
  unfolding get_prefix_def member_list_def etcd_get_def
  by (auto intro!: keeps_intros keeps_post simp: apply_req_def split: list.split)

lemma keeps_settings [keeps_intros]:
  "keeps kv (read_cluster_env_value sys key dflt)" "keeps kv (is_pulsar_deploy sys)"
  unfolding is_pulsar_deploy_def read_cluster_env_value_def Let_def by (intro keeps_intros)+

end

interpretation mem_quiet: quiet_outside mem_sys L "\<lambda>w. map_of (w_kv w)" for L
  by unfold_locales simp_all

section \<open>Computations that do not get stuck\<close>

text \<open>From no state does \<open>m\<close> use up a bound on its rounds.\<close>

definition returns :: "('w, 'a) io \<Rightarrow> bool" where
  "returns m \<longleftrightarrow> (\<forall>s. fst (m s) \<noteq> Inl Diverges)"

named_theorems returns_intros \<open>rules for computations that do not get stuck\<close>

lemma returns_ret [returns_intros]: "returns (ret x)"
  by (simp add: returns_def ret_def)

lemma returns_raise [returns_intros]: "e \<noteq> Diverges \<Longrightarrow> returns (raise e)"
  by (simp add: returns_def raise_def)

lemma returns_bnd [returns_intros]: "returns m \<Longrightarrow> (\<And>x. returns (f x)) \<Longrightarrow> returns (bnd m f)"
  unfolding returns_def bnd_def by (simp split: prod.split sum.split) (metis fst_conv)

lemma returns_try [returns_intros]: "returns m \<Longrightarrow> (\<And>e. returns (h e)) \<Longrightarrow> returns (try_except m h)"
  unfolding returns_def try_except_def by (auto split: prod.splits sum.splits) (metis fst_conv)

lemma returns_if [returns_intros]: "(b \<Longrightarrow> returns m) \<Longrightarrow> (\<not> b \<Longrightarrow> returns n) \<Longrightarrow> returns (if b then m else n)"
  by simp

lemma returns_prod [returns_intros]: "(\<And>a b. returns (g a b)) \<Longrightarrow> returns (case p of (a, b) \<Rightarrow> g a b)"
  by (cases p) simp

lemma returns_option [returns_intros]: "returns m \<Longrightarrow> (\<And>x. returns (g x)) \<Longrightarrow> returns (case o' of None \<Rightarrow> m | Some x \<Rightarrow> g x)"
  by (cases o') simp_all

lemma returns_call [returns_intros]: "returns (call a f)"
  by (simp add: returns_def call_def)

lemma returns_calls [returns_intros]:
  "returns (run_cmd sys c)" "returns (http sys h)" "returns (tcp_probe sys ip p)" "returns (read_file sys fl)"
  "returns (write_file sys fl d)" "returns (sleep sys x)" "returns (monotonic sys)" "returns (now sys)"
  "returns (log_line l)" "returns (set_progress q)"
  unfolding call_defs by (intro returns_intros)+

lemma returns_fold [returns_intros]: "(\<And>x b. returns (g x b)) \<Longrightarrow> returns (fold_io g xs b)"
  by (induction xs arbitrary: b) (auto intro!: returns_intros)

lemma returns_post [returns_intros]: "returns (post sys rq)"
proof -
  have "fst (post sys rq s) \<noteq> Inl Diverges" for s
    using post_raises [of sys rq s] by (cases "post sys rq s") (auto simp: wp_def)
  then show ?thesis by (simp add: returns_def)
qed

lemma returns_requests [returns_intros]:
  "returns (get_prefix sys p)" "returns (member_list sys)" "returns (etcd_get sys k)" "returns (etcd_delete sys k)"
  "returns (etcd_put sys k v l)" "returns (authoritative_peers sys)"
  unfolding get_prefix_def member_list_def etcd_get_def etcd_delete_def etcd_put_def authoritative_peers_def
  by (auto intro!: returns_intros split: list.split)

lemma returns_settings [returns_intros]:
  "returns (read_cluster_env_value sys key dflt)" "returns (is_pulsar_deploy sys)" "returns (to_int s)"
  unfolding is_pulsar_deploy_def read_cluster_env_value_def Let_def to_int_def by (intro returns_intros; simp)+

lemma returns_wp: "returns m \<Longrightarrow> wp m (\<lambda>_ _. True) (\<lambda>e _. e \<noteq> Diverges) s"
  unfolding returns_def wp_def by (auto split: prod.split sum.split) (metis fst_conv)

section \<open>Loops against the clock\<close>

definition advances :: "('w \<Rightarrow> time) \<Rightarrow> ('w, 'a) io \<Rightarrow> bool" where
  "advances f m \<longleftrightarrow> (\<forall>s. f (st_world s) \<le> f (st_world (snd (m s))))"

named_theorems advances_intros \<open>rules for computations during which time does not go back\<close>

lemma advances_ret [advances_intros]: "advances f (ret x)"
  by (simp add: advances_def ret_def)

lemma advances_bnd [advances_intros]: "advances f m \<Longrightarrow> (\<And>x. advances f (g x)) \<Longrightarrow> advances f (bnd m g)"
  unfolding advances_def bnd_def by (auto split: prod.splits sum.splits) (metis order_trans snd_conv)+

lemma advances_if [advances_intros]: "(b \<Longrightarrow> advances f m) \<Longrightarrow> (\<not> b \<Longrightarrow> advances f n) \<Longrightarrow> advances f (if b then m else n)"
  by simp

lemma advances_fold [advances_intros]: "(\<And>x b. advances f (g x b)) \<Longrightarrow> advances f (fold_io g xs b)"
  by (induction xs arbitrary: b) (auto intro!: advances_intros)

lemma advances_call: "(\<And>w. f w \<le> f (snd (g w))) \<Longrightarrow> advances f (call a g)"
  by (simp add: advances_def call_def)

lemma advances_log [advances_intros]: "advances f (log_line l)"
  by (simp add: log_line_def advances_call)

locale patient_clock = monotonic_clock +
  assumes clock_tcp: "clk w \<le> clk (snd (sys_tcp sys ip p w))"
begin

lemma advances_calls [advances_intros]:
  "advances clk (run_cmd sys c)" "advances clk (http sys h)" "advances clk (tcp_probe sys ip p)"
  by (simp_all add: call_defs advances_call clock_run clock_http clock_tcp)

text \<open>A loop that runs until a deadline and sleeps in every round ends within its bound.\<close>

lemma deadline_loop:
  fixes R :: "nat \<Rightarrow> time \<Rightarrow> 'p \<Rightarrow> ('a, 'b) io"
  assumes R: "\<And>n dl p. R (Suc n) dl p = bnd (monotonic sys) (\<lambda>t.
      if \<not> t < dl then E p
      else bnd (B p) (\<lambda>q. if D q then F q else bnd (sleep sys d) (\<lambda>_. R n dl q)))"
    and B: "\<And>p. advances clk (B p)" "\<And>p. returns (B p)" and E: "\<And>p. returns (E p)" and F: "\<And>q. returns (F q)"
    and d: "0 \<le> d" and dl: "dl \<le> clk (st_world s) + d * (of_nat fuel - 1)" "0 < fuel"
  shows "fst (R fuel dl p s) \<noteq> Inl Diverges"
  using dl
proof (induction fuel arbitrary: s p)
  case (Suc n)
  obtain t w where m: "sys_monotonic sys (st_world s) = (t, w)" by fastforce
  let ?s1 = "s\<lparr>st_trace := st_trace s @ [A_monotonic], st_world := w\<rparr>"
  have t: "clk (st_world s) \<le> t" "t \<le> clk w" using clock_read [OF m] by auto
  have step: "R (Suc n) dl p s = (if \<not> t < dl then E p ?s1
      else bnd (B p) (\<lambda>q. if D q then F q else bnd (sleep sys d) (\<lambda>_. R n dl q)) ?s1)"
    unfolding R bnd_def [of "monotonic sys"] by (simp add: monotonic_def call_def m)
  show ?case
  proof (cases "t < dl")
    case False
    then show ?thesis unfolding step using E by (simp add: returns_def)
  next
    case True
    have n: "0 < n" using True t Suc.prems(1) by (cases n) auto
    obtain r s2 where b: "B p ?s1 = (r, s2)" by fastforce
    have c2: "clk w \<le> clk (st_world s2)" using B(1) [of p] b unfolding advances_def by (metis snd_conv st.select_convs(4) st.surjective st.update_convs(3,4))
    show ?thesis
    proof (cases r)
      case (Inl e)
      then show ?thesis using B(2) [of p] b True unfolding step by (auto simp: bnd_def returns_def dest!: spec [of _ ?s1])
    next
      case (Inr q)
      let ?s3 = "s2\<lparr>st_trace := st_trace s2 @ [A_sleep d], st_world := sys_sleep sys d (st_world s2)\<rparr>"
      have e: "R (Suc n) dl p s = (if D q then F q s2 else R n dl q ?s3)"
        unfolding step using True b Inr by (simp add: bnd_def sleep_def call_def)
      have "dl \<le> clk (st_world ?s3) + d * (of_nat n - 1)"
        using clock_sleep [OF d, of "st_world s2"] c2 t Suc.prems(1) by (simp add: algebra_simps)
      from Suc.IH [OF this n, of q] show ?thesis unfolding e using F by (simp add: returns_def)
    qed
  qed
qed simp

lemma returns_deadline:
  fixes R :: "nat \<Rightarrow> time \<Rightarrow> 'p \<Rightarrow> ('a, 'b) io"
  assumes "\<And>n dl p. R (Suc n) dl p = bnd (monotonic sys) (\<lambda>t.
      if \<not> t < dl then E p
      else bnd (B p) (\<lambda>q. if D q then F q else bnd (sleep sys d) (\<lambda>_. R n dl q)))"
    and "\<And>p. advances clk (B p)" "\<And>p. returns (B p)" "\<And>p. returns (E p)" "\<And>q. returns (F q)"
    and "0 \<le> d" and "x \<le> d * (of_nat fuel - 1)" "0 < fuel"
  shows "returns (bnd (monotonic sys) (\<lambda>t. R fuel (t + x) p))"
  unfolding returns_def
proof
  fix s :: "'a st"
  obtain t w where m: "sys_monotonic sys (st_world s) = (t, w)" by fastforce
  let ?s1 = "s\<lparr>st_trace := st_trace s @ [A_monotonic], st_world := w\<rparr>"
  have "t + x \<le> clk (st_world ?s1) + d * (of_nat fuel - 1)" using clock_read [OF m] assms(7) by simp
  then have "fst (R fuel (t + x) p ?s1) \<noteq> Inl Diverges"
    by (intro deadline_loop [where B = B and D = D and E = E and F = F]) (use assms in blast)+
  then show "fst (bnd (monotonic sys) (\<lambda>t. R fuel (t + x) p) s) \<noteq> Inl Diverges"
    by (simp add: bnd_def monotonic_def call_def m)
qed

end

interpretation mem_patient: patient_clock mem_sys w_clock
  by unfold_locales simp

section \<open>Several lines at once\<close>

lemma only_log_lines [only_intros]: "(\<And>l. A (A_log l)) \<Longrightarrow> only A (log_lines ls)"
  unfolding log_lines_def by (intro only_intros)

lemma keeps_log_lines [keeps_intros]: "keeps f (log_lines ls)"
  unfolding log_lines_def by (intro keeps_intros)

lemma returns_log_lines [returns_intros]: "returns (log_lines ls)"
  unfolding log_lines_def by (intro returns_intros)

lemma advances_log_lines [advances_intros]: "advances f (log_lines ls)"
  unfolding log_lines_def by (intro advances_intros)

lemma climbs_log_lines: "lo \<le> hi \<Longrightarrow> climbs lo hi (log_lines ls)"
  by (intro climbs_silent only_log_lines silent_simps)

end
