(* ===== verification/Remove_Node.thy ===== *)
theory Remove_Node
  imports Worker
begin

text \<open>
  \<open>src/daemon/workers/remove_node.py\<close>: the graceful removal of a peer. The guards come first; then the
  peer's MinIO pool is decommissioned and the drain awaited; then the topology entry is deleted, the
  survivors are given time to settle, and the etcd member is removed.

  The drain is polled at most once per five seconds of its own counter, so that loop is a total
  function. The two settling loops run against the clock; they get a bound on their rounds and end in
  \<open>Diverges\<close> when it is used up. Log lines and messages keep their leading part.
\<close>

section \<open>Settings\<close>

definition minio_api_port_setting :: "'w sys \<Rightarrow> ('w, string) io" where
  "minio_api_port_setting sys = read_cluster_env_value sys ''MINIO_API_PORT'' ''9000''"

definition etcd_peer_port_setting :: "'w sys \<Rightarrow> ('w, int) io" where
  "etcd_peer_port_setting sys = bnd (read_cluster_env_value sys ''ETCD_PEER_PORT'' ''2380'') to_int"

definition milvus_port_setting :: "'w sys \<Rightarrow> ('w, int) io" where
  "milvus_port_setting sys = bnd (read_cluster_env_value sys ''MILVUS_PORT'' ''19530'') to_int"

definition minio_access_setting :: "'w sys \<Rightarrow> ('w, string) io" where
  "minio_access_setting sys = read_cluster_env_value sys ''MINIO_ACCESS_KEY'' ''minioadmin''"

definition minio_secret_setting :: "'w sys \<Rightarrow> ('w, string) io" where
  "minio_secret_setting sys = read_cluster_env_value sys ''MINIO_SECRET_KEY'' []"

section \<open>The state of a decommission\<close>

datatype dec_state = NONE | ACTIVE | COMPLETE | FAILED | CANCELED | MISSING

definition state_name :: "dec_state \<Rightarrow> string" where
  "state_name st = (case st of NONE \<Rightarrow> ''none'' | ACTIVE \<Rightarrow> ''active'' | COMPLETE \<Rightarrow> ''complete''
     | FAILED \<Rightarrow> ''failed'' | CANCELED \<Rightarrow> ''canceled'' | MISSING \<Rightarrow> ''missing'')"

text \<open>\<open>fragment in cmdline\<close>, where \<open>cmdline\<close> is any JSON value.\<close>

definition json_has :: "json \<Rightarrow> string \<Rightarrow> exn + bool" where
  "json_has v s =
     (case v of
        JStr t \<Rightarrow> Inr (contains t s)
      | JArr xs \<Rightarrow> Inr (JStr s \<in> set xs)
      | JObj kvs \<Rightarrow> Inr (s \<in> set (keys kvs))
      | _ \<Rightarrow> Inl (TypeError ''argument is not iterable''))"

definition info_state :: "obj \<Rightarrow> exn + dec_state" where
  "info_state info =
     (if field_true info ''complete'' then Inr COMPLETE
      else if field_true info ''failed'' then Inr FAILED
      else if field_true info ''canceled'' then Inr CANCELED
      else
        (let start = (case dict_get info ''startTime'' of Some v \<Rightarrow> v | None \<Rightarrow> JStr []) in
         if \<not> json_truthy start then Inr NONE
         else (case start of
                 JStr t \<Rightarrow> Inr (if startswith t ''0001-01-01'' then NONE else ACTIVE)
               | _ \<Rightarrow> Inl (AttributeError ''startswith''))))"

fun find_pool :: "string \<Rightarrow> json list \<Rightarrow> exn + dec_state" where
  "find_pool fragment [] = Inr MISSING"
| "find_pool fragment (JObj pool # pools) =
     (case json_has (case dict_get pool ''cmdline'' of Some v \<Rightarrow> v | None \<Rightarrow> JStr []) fragment of
        Inl e \<Rightarrow> Inl e
      | Inr False \<Rightarrow> find_pool fragment pools
      | Inr True \<Rightarrow>
          (case (case dict_get pool ''decommissionInfo'' of
                   Some v \<Rightarrow> if json_truthy v then v else JObj [] | None \<Rightarrow> JObj []) of
             JObj info \<Rightarrow> info_state info
           | _ \<Rightarrow> Inl (AttributeError ''get'')))"
| "find_pool fragment (_ # pools) = find_pool fragment pools"

definition status_cmd :: string where
  "status_cmd = ''docker exec milvus-minio mc admin decommission status local --json''"

text \<open>What the worker makes of the answer of \<open>mc admin decommission status --json\<close>.\<close>

definition read_status :: "string \<Rightarrow> int \<times> string \<times> string \<Rightarrow> exn + dec_state" where
  "read_status fragment r =
     (case r of (rc, out, err) \<Rightarrow>
        if rc \<noteq> 0 \<and> contains (lower (out @ err)) ''no decommission'' then Inr NONE
        else (case (if strip out \<noteq> [] then loads out else Some (JArr [])) of
                None \<Rightarrow> Inr MISSING
              | Some (JArr pools) \<Rightarrow> find_pool fragment pools
              | Some _ \<Rightarrow> Inr MISSING))"

definition decommission_state :: "'w sys \<Rightarrow> string \<Rightarrow> ('w, dec_state) io" where
  "decommission_state sys fragment =
     bnd (run_cmd sys status_cmd) (\<lambda>r. case read_status fragment r of Inl e \<Rightarrow> raise e | Inr st \<Rightarrow> ret st)"

section \<open>Lookups\<close>

fun find_node_name_by_ip :: "peers \<Rightarrow> string \<Rightarrow> string option" where
  "find_node_name_by_ip [] ip = None"
| "find_node_name_by_ip ((name, info) # ps) ip = (if ip_of info = Some ip then Some name else find_node_name_by_ip ps ip)"

text \<open>The message of the refusal sorts the known addresses, which fails when some entries have an address
  and some have none.\<close>

definition no_such_peer :: "peers \<Rightarrow> exn" where
  "no_such_peer ps =
     (if list_ex (\<lambda>p. ip_of (snd p) = None) ps \<and> list_ex (\<lambda>p. ip_of (snd p) \<noteq> None) ps
      then TypeError ''not supported between instances of NoneType and str''
      else ValueError ''no peer found with ip'')"

definition find_etcd_member_id_by_peer_url :: "'w sys \<Rightarrow> string \<Rightarrow> int \<Rightarrow> ('w, int option) io" where
  "find_etcd_member_id_by_peer_url sys ip port =
     bnd (member_list sys) (\<lambda>ms.
       ret (map_option mem_ID
         (find (\<lambda>m. ''http://'' @ ip @ '':'' @ str_of_int port \<in> set (mem_peerURLs m)) ms)))"

text \<open>The peers that stay, from a fresh read of the topology.\<close>

definition surviving :: "etcd_value dict \<Rightarrow> string \<Rightarrow> (string \<times> string) list" where
  "surviving raw target_ip =
     concat (map (\<lambda>(k, v). case json_loads v of
         None \<Rightarrow> []
       | Some info \<Rightarrow> if truthy (ip_of info) \<and> ip_of info \<noteq> Some target_ip
                      then [(removeprefix k TOPOLOGY_PREFIX, or_empty (ip_of info))] else []) raw)"

section \<open>Waiting for the survivors\<close>

definition health_call :: "string \<Rightarrow> int \<Rightarrow> string \<Rightarrow> http_call" where
  "health_call ip port token = \<lparr>hc_method = GET, hc_ip = ip, hc_port = port, hc_path = ''/health'', hc_token = token, hc_body = []\<rparr>"

definition peer_settled :: "'w sys \<Rightarrow> string \<Rightarrow> int \<Rightarrow> string \<Rightarrow> ('w, bool) io" where
  "peer_settled sys ip port token =
     bnd (http sys (health_call ip port token)) (\<lambda>r. ret (case r of Http_response st _ \<Rightarrow> st = 200 | Http_error \<Rightarrow> False))"

definition settle_one :: "'w sys \<Rightarrow> daemon_config \<Rightarrow> string \<times> string \<Rightarrow> (string \<times> string) list \<Rightarrow> ('w, (string \<times> string) list) io" where
  "settle_one sys cfg p pending =
     bnd (peer_settled sys (snd p) (listen_port cfg) (cluster_token cfg)) (\<lambda>ok.
       if ok then bnd (log_line (''  '' @ fst p @ '' @ '' @ snd p @ '': settled'')) (\<lambda>_. ret (removeAll p pending))
       else ret pending)"

definition warn_unsettled :: "(string \<times> string) list \<Rightarrow> ('w, unit) io" where
  "warn_unsettled pending =
     (if pending = [] then ret ()
      else log_line (''WARN: timed out waiting for '' @ join_with '', '' (map (\<lambda>(n, ip). n @ '' ('' @ ip @ '')'') pending)
             @ '' to settle after topology delete. The cluster may still finish converging on its own; if a survivor'' @ CHR 0x27
             # ''s MinIO crash-loops with '' @ CHR 0x27 # ''pool decommissioned'' @ CHR 0x27
             # '', recreate it manually with `docker compose --project-name <name> -f rendered/<name>/docker-compose.yml up -d ''
             @ ''--force-recreate --no-deps minio`.''))"

fun settle_rounds :: "'w sys \<Rightarrow> daemon_config \<Rightarrow> nat \<Rightarrow> time \<Rightarrow> (string \<times> string) list \<Rightarrow> ('w, unit) io" where
  "settle_rounds sys cfg 0 deadline pending = raise Diverges"
| "settle_rounds sys cfg (Suc fuel) deadline pending =
     bnd (monotonic sys) (\<lambda>t.
       if \<not> t < deadline then warn_unsettled pending
       else bnd (fold_io (settle_one sys cfg) pending pending) (\<lambda>pending'.
         if pending' = [] then ret ()
         else bnd (sleep sys 3) (\<lambda>_. settle_rounds sys cfg fuel deadline pending')))"

definition wait_minio_settled_after_remove :: "'w sys \<Rightarrow> nat \<Rightarrow> daemon_config \<Rightarrow> string \<Rightarrow> int \<Rightarrow> ('w, unit) io" where
  "wait_minio_settled_after_remove sys fuel cfg target_ip timeout_s =
     bnd (get_prefix sys TOPOLOGY_PREFIX) (\<lambda>raw.
     bnd (monotonic sys) (\<lambda>t. settle_rounds sys cfg fuel (t + of_int timeout_s) (surviving raw target_ip)))"

definition probe_one :: "'w sys \<Rightarrow> int \<Rightarrow> string \<Rightarrow> nat dict \<Rightarrow> ('w, nat dict) io" where
  "probe_one sys port ip pending =
     bnd (tcp_probe sys ip port) (\<lambda>ok.
       if ok then
         (let n = (case dict_get pending ip of Some m \<Rightarrow> m | None \<Rightarrow> 0) + 1 in
          if 3 \<le> n then
            bnd (log_line (''  '' @ ip @ '':'' @ str_of_int port @ '' settled (streak='' @ str_of_nat n @ '')'')) (\<lambda>_. ret (dict_pop ip pending))
          else ret (dict_set ip n pending))
       else ret (dict_set ip 0 pending))"

definition warn_stragglers :: "nat dict \<Rightarrow> ('w, unit) io" where
  "warn_stragglers pending =
     (if pending = [] then ret ()
      else log_line (''WARN: timed out waiting for milvus-proxy to settle on ''
             @ join_with '', '' (map (\<lambda>(ip, n). ip @ '' (streak='' @ str_of_nat n @ '')'') pending)
             @ ''. Cluster will continue converging; if your next pymilvus command hits grpc-canceled, retry once.''))"

fun proxy_rounds :: "'w sys \<Rightarrow> int \<Rightarrow> nat \<Rightarrow> time \<Rightarrow> nat dict \<Rightarrow> ('w, unit) io" where
  "proxy_rounds sys port 0 deadline pending = raise Diverges"
| "proxy_rounds sys port (Suc fuel) deadline pending =
     bnd (monotonic sys) (\<lambda>t.
       if \<not> t < deadline then warn_stragglers pending
       else bnd (fold_io (probe_one sys port) (keys pending) pending) (\<lambda>pending'.
         if pending' = [] then ret ()
         else bnd (sleep sys 2) (\<lambda>_. proxy_rounds sys port fuel deadline pending')))"

definition wait_milvus_proxy_settled :: "'w sys \<Rightarrow> nat \<Rightarrow> string list \<Rightarrow> int \<Rightarrow> int \<Rightarrow> ('w, unit) io" where
  "wait_milvus_proxy_settled sys fuel survivor_ips port timeout_s =
     bnd (monotonic sys) (\<lambda>t. proxy_rounds sys port fuel (t + of_int timeout_s) (dict_of (map (\<lambda>ip. (ip, 0)) survivor_ips)))"

section \<open>The removal\<close>

definition guard_pulsar :: "'w sys \<Rightarrow> string \<Rightarrow> ('w, unit) io" where
  "guard_pulsar sys target_name =
     bnd (is_pulsar_deploy sys) (\<lambda>pulsar.
       if \<not> pulsar then ret ()
       else bnd (read_cluster_env_value sys ''PULSAR_HOST'' ''node-1'') (\<lambda>host.
         if target_name = host then raise (PermissionError ''refusing to remove the Pulsar host'') else ret ()))"

definition guard_leader :: "'w sys \<Rightarrow> string \<Rightarrow> string \<Rightarrow> ('w, unit) io" where
  "guard_leader sys target_name target_ip =
     bnd (etcd_get sys LEADER_KEY) (\<lambda>raw.
       case Option.bind raw json_loads of
         Some li \<Rightarrow> if get_str li ''ip'' = Some target_ip \<or> get_str li ''node_name'' = Some target_name
                    then raise (PermissionError ''refusing to remove the current leader'') else ret ()
       | None \<Rightarrow> ret ())"

definition pool_url :: "string \<Rightarrow> string \<Rightarrow> string" where
  "pool_url ip port = ''http://'' @ ip @ '':'' @ port @ ''/drive{1...4}''"

definition pool_fragment :: "string \<Rightarrow> string \<Rightarrow> string" where
  "pool_fragment ip port = ip @ '':'' @ port @ ''/drive''"

definition mc_alias_cmd :: "string \<Rightarrow> string \<Rightarrow> string \<Rightarrow> string" where
  "mc_alias_cmd port access secret =
     ''docker exec milvus-minio mc alias set local http://127.0.0.1:'' @ port @ '' '' @ access @ '' '' @ secret"

definition decommission_cmd :: "string \<Rightarrow> string \<Rightarrow> string" where
  "decommission_cmd verb pool =
     ''docker exec milvus-minio mc admin decommission '' @ verb @ '' local '' @ CHR 0x27 # pool @ [CHR 0x27]"

definition start_decommission :: "'w sys \<Rightarrow> string \<Rightarrow> dec_state \<Rightarrow> ('w, unit) io" where
  "start_decommission sys pool st =
     (if st = COMPLETE then log_line ''(pool already decommissioned - skipping start)''
      else if st = ACTIVE then log_line ''(pool decommission already in progress - skipping start)''
      else
        bnd (if st = FAILED \<or> st = CANCELED then
               bnd (log_line (''clearing previous '' @ state_name st @ '' decommission attempt'')) (\<lambda>_.
               bnd (run_cmd sys (decommission_cmd ''cancel'' pool)) (\<lambda>_. ret ()))
             else ret ()) (\<lambda>_.
        bnd (log_line (''==> mc admin decommission start pool='' @ pool)) (\<lambda>_.
        bnd (run_cmd sys (decommission_cmd ''start'' pool)) (\<lambda>(rc, out, err).
        bnd (log_line (rstrip_by is_space out)) (\<lambda>_.
          if rc \<noteq> 0 \<and> \<not> list_ex (contains (lower (out @ err)))
               [''already decommissioning'', ''already decommissioned'', ''no pool'']
          then raise (RuntimeError ''mc admin decommission start failed'')
          else ret ())))))"

text \<open>The poll: \<open>elapsed\<close> counts the seconds slept.\<close>

function poll_decommission :: "'w sys \<Rightarrow> string \<Rightarrow> nat \<Rightarrow> ('w, unit) io" where
  "poll_decommission sys fragment elapsed =
     bnd (decommission_state sys fragment) (\<lambda>st.
       if st = COMPLETE then log_line ''decommission complete''
       else if st = MISSING then log_line ''(pool not in status table - assuming done)''
       else if st = FAILED then raise (RuntimeError ''MinIO decommission FAILED'')
       else if st = CANCELED then raise (RuntimeError ''MinIO decommission was CANCELLED externally'')
       else if st = NONE then raise (RuntimeError ''MinIO reports no decommission scheduled'')
       else if 1800 \<le> elapsed then raise (RuntimeError ''MinIO decommission did not complete within 30 min'')
       else
         bnd (set_progress (min (6/10) (1/10 + of_nat elapsed / 1800 * (1/2)))) (\<lambda>_.
         bnd (sleep sys 5) (\<lambda>_. poll_decommission sys fragment (elapsed + 5))))"
  by pat_completeness auto

termination
  by (relation "measure (\<lambda>(sys, fragment, elapsed). 1805 - elapsed)") auto

declare poll_decommission.simps [simp del]

definition remove_etcd_member :: "'w sys \<Rightarrow> string \<Rightarrow> ('w, unit) io" where
  "remove_etcd_member sys target_ip =
     bnd (etcd_peer_port_setting sys) (\<lambda>port.
     bnd (find_etcd_member_id_by_peer_url sys target_ip port) (\<lambda>m.
       case m of
         None \<Rightarrow> log_line (''WARN: no etcd member found with peer-url for '' @ target_ip
           @ ''; skipping etcd-side remove (membership may already be clean)'')
       | Some i \<Rightarrow>
           bnd (log_line (''removing etcd member id='' @ hex_of_int i)) (\<lambda>_.
             try_except (bnd (post sys (Member_remove i)) (\<lambda>_. ret ())) (\<lambda>e. raise (RuntimeError ''etcd member-remove failed'')))))"

definition drain_survivors :: "'w sys \<Rightarrow> nat \<Rightarrow> string \<Rightarrow> ('w, unit) io" where
  "drain_survivors sys fuel target_ip =
     bnd (get_prefix sys TOPOLOGY_PREFIX) (\<lambda>raw.
       let ips = map snd (surviving raw target_ip) in
       if ips = [] then ret ()
       else bnd (log_line (''==> waiting for survivors'' @ CHR 0x27
         # '' milvus-proxy to settle (prevents grpc-canceled on the next operator command)'')) (\<lambda>_.
         bnd (milvus_port_setting sys) (\<lambda>port. wait_milvus_proxy_settled sys fuel ips port 60)))"

text \<open>The guards, and the name of the peer to remove.\<close>

definition check_removal :: "'w sys \<Rightarrow> bool \<Rightarrow> string \<Rightarrow> ('w, string) io" where
  "check_removal sys is_leader target_ip =
     bnd (authoritative_peers sys) (\<lambda>ps.
       case find_node_name_by_ip ps target_ip of
         None \<Rightarrow> raise (no_such_peer ps)
       | Some name \<Rightarrow>
           bnd (log_line (''resolved '' @ target_ip @ '' -> '' @ name)) (\<lambda>_.
             if length ps \<le> 1 then raise (ValueError ''refusing to remove the only peer in the cluster'')
             else if \<not> is_leader then raise (PermissionError ''remove-node must run on the leader'')
             else
               bnd (guard_pulsar sys name) (\<lambda>_.
               bnd (guard_leader sys name target_ip) (\<lambda>_. ret name))))"

definition drain_pool :: "'w sys \<Rightarrow> string \<Rightarrow> ('w, unit) io" where
  "drain_pool sys target_ip =
     bnd (minio_api_port_setting sys) (\<lambda>p1.
     bnd (minio_api_port_setting sys) (\<lambda>p2.
     bnd (minio_api_port_setting sys) (\<lambda>p3.
     bnd (minio_access_setting sys) (\<lambda>access.
     bnd (minio_secret_setting sys) (\<lambda>secret.
     bnd (run_cmd sys (mc_alias_cmd p3 access secret)) (\<lambda>_.
     bnd (decommission_state sys (pool_fragment target_ip p2)) (\<lambda>st.
     bnd (log_line (''current decommission state for pool: '' @ state_name st)) (\<lambda>_.
     bnd (start_decommission sys (pool_url target_ip p1) st) (\<lambda>_.
     bnd (set_progress (1/10)) (\<lambda>_.
     bnd (log_line ''==> waiting for decommission to complete (poll every 5s)'') (\<lambda>_.
       poll_decommission sys (pool_fragment target_ip p2) 0)))))))))))"

definition delete_and_settle :: "'w sys \<Rightarrow> nat \<Rightarrow> daemon_config \<Rightarrow> string \<Rightarrow> string \<Rightarrow> ('w, unit) io" where
  "delete_and_settle sys fuel cfg name target_ip =
     bnd (log_line (''==> deleting topology entry for '' @ name)) (\<lambda>_.
     bnd (etcd_delete sys (TOPOLOGY_PREFIX @ name)) (\<lambda>_.
     bnd (log_line (''waiting for the topology-watcher chain to settle on each survivor ''
            @ ''(rolling MinIO recreate excludes the decommissioned pool)...'')) (\<lambda>_.
       wait_minio_settled_after_remove sys fuel cfg target_ip 180)))"

definition farewell :: "string \<Rightarrow> string \<Rightarrow> ('w, unit) io" where
  "farewell name target_ip = log_lines
     [[], ''OK '' @ name @ '' ('' @ target_ip @ '') removed from the cluster.'', [],
      ''Operator follow-up - on the leaving VM ('' @ target_ip @ ''), clean up its'', ''containers and data:'',
      ''    ./milvus-onprem teardown --full --force'', [],
      ''(daemon-to-daemon teardown of a leaving peer is a future feature)'']"

definition run_remove_node :: "'w sys \<Rightarrow> nat \<Rightarrow> daemon_config \<Rightarrow> bool \<Rightarrow> nat \<Rightarrow> obj \<Rightarrow> ('w, unit) io" where
  "run_remove_node sys fuel cfg is_leader mirror_count params =
     (if \<not> truthy (get_str params ''ip'') then raise (ValueError ''remove-node requires an ip param'')
      else
        (let target_ip = or_empty (get_str params ''ip'') in
         bnd (check_removal sys is_leader target_ip) (\<lambda>name.
         bnd (log_line (''removing peer '' @ name @ '' @ '' @ target_ip @ '' from cluster of '' @ str_of_nat mirror_count)) (\<lambda>_.
         bnd (set_progress (5/100)) (\<lambda>_.
         bnd (drain_pool sys target_ip) (\<lambda>_.
         bnd (set_progress (70/100)) (\<lambda>_.
         bnd (delete_and_settle sys fuel cfg name target_ip) (\<lambda>_.
         bnd (log_line (''==> etcd member-remove for '' @ name)) (\<lambda>_.
         bnd (remove_etcd_member sys target_ip) (\<lambda>_.
         bnd (set_progress (95/100)) (\<lambda>_.
         bnd (drain_survivors sys fuel target_ip) (\<lambda>_.
         bnd (set_progress 1) (\<lambda>_.
           farewell name target_ip)))))))))))))"

lemma farewell_rules [only_intros, keeps_intros, returns_intros]:
  "(\<And>l. A (A_log l)) \<Longrightarrow> only A (farewell name ip)" "keeps f (farewell name ip)" "returns (farewell name ip)"
  unfolding farewell_def by (intro only_intros; simp) (intro keeps_intros returns_intros)+

section \<open>Calls of the steps\<close>

text \<open>Calls that change nothing in etcd.\<close>

fun peaceful :: "act \<Rightarrow> bool" where
  "peaceful (A_etcd (Range a e)) = True"
| "peaceful (A_etcd Member_list) = True"
| "peaceful (A_etcd rq) = False"
| "peaceful (A_write p c) = False"
| "peaceful a = True"

definition deletes_entry :: "act \<Rightarrow> bool" where
  "deletes_entry a \<longleftrightarrow> (\<exists>n. a = A_etcd (Delete_range (TOPOLOGY_PREFIX @ n))) \<or> (\<exists>d. a = A_sleep d)"

definition removes_member :: "act \<Rightarrow> bool" where
  "removes_member a \<longleftrightarrow> (\<exists>i. a = A_etcd (Member_remove i)) \<or> (\<exists>d. a = A_sleep d)"

lemmas setting_defs = minio_api_port_setting_def minio_access_setting_def minio_secret_setting_def
  etcd_peer_port_setting_def milvus_port_setting_def

lemma only_decommission_state: "A (A_run status_cmd) \<Longrightarrow> only A (decommission_state sys fragment)"
  unfolding decommission_state_def by (intro only_intros)

lemma only_start_decommission:
  assumes "\<And>l. A (A_log l)" "\<And>c. A (A_run c)"
  shows "only A (start_decommission sys pool st)"
  unfolding start_decommission_def by (intro only_intros assms)

lemma only_poll:
  assumes "\<And>l. A (A_log l)" "A (A_run status_cmd)" "\<And>p. A (A_progress p)" "\<And>d. A (A_sleep d)"
  shows "only A (poll_decommission sys fragment elapsed)"
proof (induction sys fragment elapsed rule: poll_decommission.induct)
  case (1 sys fragment elapsed)
  show ?case
    unfolding poll_decommission.simps [of sys fragment elapsed]
    by (intro only_intros only_decommission_state assms) (auto intro: "1.IH")
qed

lemma only_guards:
  assumes "\<And>a. peaceful a \<Longrightarrow> A a"
  shows "only A (check_removal sys is_leader ip)"
  unfolding check_removal_def guard_pulsar_def guard_leader_def
  by (intro only_intros assms) simp_all

lemma only_drain_pool:
  assumes "\<And>a. peaceful a \<Longrightarrow> A a"
  shows "only A (drain_pool sys ip)"
  unfolding drain_pool_def setting_defs
  by (intro only_intros only_decommission_state only_start_decommission only_poll assms) simp_all

lemma only_settle_rounds:
  assumes "\<And>a. peaceful a \<Longrightarrow> A a"
  shows "only A (settle_rounds sys cfg fuel deadline pending)"
proof (induction fuel arbitrary: pending)
  case (Suc fuel)
  show ?case unfolding settle_rounds.simps settle_one_def peer_settled_def warn_unsettled_def
    by (intro only_intros Suc.IH assms) simp_all
qed (simp add: only_intros)

lemma only_proxy_rounds:
  assumes "\<And>a. peaceful a \<Longrightarrow> A a"
  shows "only A (proxy_rounds sys port fuel deadline pending)"
proof (induction fuel arbitrary: pending)
  case (Suc fuel)
  show ?case unfolding proxy_rounds.simps probe_one_def warn_stragglers_def Let_def
    by (intro only_intros Suc.IH assms) simp_all
qed (simp add: only_intros)

lemma only_waits:
  assumes "\<And>a. peaceful a \<Longrightarrow> A a"
  shows "only A (wait_minio_settled_after_remove sys fuel cfg ip timeout)" "only A (drain_survivors sys fuel ip)"
  unfolding wait_minio_settled_after_remove_def drain_survivors_def wait_milvus_proxy_settled_def setting_defs Let_def
  by (intro only_intros only_settle_rounds only_proxy_rounds assms; simp)+

section \<open>Properties\<close>


definition not_drained :: "'w sys \<Rightarrow> string \<Rightarrow> bool" where
  "not_drained sys fragment \<longleftrightarrow>
     (\<forall>w. read_status fragment (fst (sys_run sys status_cmd w)) \<noteq> Inr COMPLETE
        \<and> read_status fragment (fst (sys_run sys status_cmd w)) \<noteq> Inr MISSING)"

lemma poll_never_ok:
  assumes "not_drained sys fragment"
  shows "never_ok (poll_decommission sys fragment elapsed)"
  using assms
proof (induction sys fragment elapsed rule: poll_decommission.induct)
  case (1 sys fragment elapsed)
  have st: "decommission_state sys fragment s = (Inr st, t) \<Longrightarrow> st \<noteq> COMPLETE \<and> st \<noteq> MISSING" for s st t
    using "1.prems" [unfolded not_drained_def, rule_format, of "st_world s"]
    by (auto simp: decommission_state_def bnd_def run_cmd_def call_def raise_def ret_def split: sum.splits)
  have IH: "never_ok (poll_decommission sys fragment (elapsed + 5))"
    if "\<not> 1800 \<le> elapsed"
    using "1.IH" [of ACTIVE] "1.prems" that by simp
  show ?case
    unfolding poll_decommission.simps [of sys fragment elapsed]
  proof (rule never_ok_bnd_if, goal_cases)
    case (1 s x t)
    from st [OF this] show ?case
      by (intro never_ok_if never_ok_raise never_ok_bnd IH) simp_all
  qed
qed


text \<open>A MinIO that knows of no decommission.\<close>

definition idle_sys :: "world sys" where
  "idle_sys = mem_sys\<lparr>sys_run := (\<lambda>c w. ((1, [], ''No decommission in progress''), w))\<rparr>"

definition target_params :: obj where
  "target_params = [(''ip'', JStr ''10.0.0.2'')]"


text \<open>The lookup by address is the one the join handler uses.\<close>

lemma find_node_name_registered_as: "find_node_name_by_ip ps ip = registered_as ps ip"
  by (induction ps ip rule: find_node_name_by_ip.induct) auto

lemma another_key:
  assumes "dict_ok d" "1 < length d"
  shows "\<exists>n. n \<noteq> x \<and> dict_get d n \<noteq> None"
proof -
  obtain a b r where d: "d = a # b # r" using assms(2) by (cases d; cases "tl d") auto
  have "fst a \<noteq> x \<or> fst b \<noteq> x" using assms(1) d by (auto simp: dict_ok_def keys_def)
  then show ?thesis using dict_get_keys [of d] d by (force simp: keys_def)
qed

lemma poll_induct:
  assumes "\<And>e. (e < 1800 \<Longrightarrow> P (poll_decommission sys fragment (e + 5))) \<Longrightarrow> P (poll_decommission sys fragment e)"
  shows "P (poll_decommission sys fragment elapsed)"
proof (induction elapsed rule: measure_induct_rule [where f = "\<lambda>e. 1805 - e"])
  case (less e)
  show ?case by (rule assms) (rule less, simp)
qed

context quiet_outside
begin

lemma keeps_poll [keeps_intros]: "keeps kv (poll_decommission sys fragment elapsed)"
proof (rule poll_induct)
  fix e
  assume "e < 1800 \<Longrightarrow> keeps kv (poll_decommission sys fragment (e + 5))"
  then show "keeps kv (poll_decommission sys fragment e)"
    unfolding poll_decommission.simps [of sys fragment e] decommission_state_def by (intro keeps_intros) auto
qed

lemma keeps_settle [keeps_intros]: "keeps kv (settle_rounds sys cfg fuel deadline pending)"
proof (induction fuel arbitrary: pending)
  case (Suc fuel)
  show ?case unfolding settle_rounds.simps settle_one_def peer_settled_def warn_unsettled_def
    by (intro keeps_intros Suc)
qed (simp add: keeps_intros)

lemma keeps_proxy [keeps_intros]: "keeps kv (proxy_rounds sys port fuel deadline ips)"
proof (induction fuel arbitrary: ips)
  case (Suc fuel)
  show ?case unfolding proxy_rounds.simps probe_one_def warn_stragglers_def Let_def
    by (intro keeps_intros Suc)
qed (simp add: keeps_intros)

lemma keeps_steps [keeps_intros]:
  "keeps kv (guard_pulsar sys name)" "keeps kv (guard_leader sys name ip)" "keeps kv (drain_pool sys ip)"
  "keeps kv (wait_minio_settled_after_remove sys fuel cfg ip timeout)" "keeps kv (remove_etcd_member sys ip)"
  "keeps kv (drain_survivors sys fuel ip)"
  unfolding guard_pulsar_def guard_leader_def drain_pool_def decommission_state_def start_decommission_def setting_defs
    wait_minio_settled_after_remove_def remove_etcd_member_def find_etcd_member_id_by_peer_url_def drain_survivors_def
    wait_milvus_proxy_settled_def Let_def
  by (intro keeps_intros)+

lemma check_removal_wp:
  assumes "prefix_free leased TOPOLOGY_PREFIX"
  shows "wp (check_removal sys is_leader ip)
    (\<lambda>name t. kv (st_world t) = kv (st_world s) \<and> is_leader \<and> has_ip (kv (st_world s)) ip name
       \<and> (\<exists>n. n \<noteq> name \<and> topo_view (kv (st_world s)) n \<noteq> None))
    (\<lambda>_ t. kv (st_world t) = kv (st_world s)) s"
  unfolding check_removal_def wp_bnd
proof (rule wp_mono [OF authoritative_spec [OF assms]], goal_cases)
  case (1 ps t)
  then have ps: "dict_ok ps" "mirrors ps (kv (st_world s))" and t: "kv (st_world t) = kv (st_world s)" by auto
  show ?case
  proof (cases "find_node_name_by_ip ps ip")
    case None
    then show ?thesis using t by (simp add: wp_raise)
  next
    case (Some name)
    then have h: "has_ip (kv (st_world s)) ip name"
      using registered_as_mirrors [OF ps, of ip] by (simp add: find_node_name_registered_as)
    have o': "\<exists>n. n \<noteq> name \<and> topo_view (kv (st_world s)) n \<noteq> None" if "\<not> length ps \<le> 1"
      using another_key [OF ps(1), of name] that ps(2) by (simp add: mirrors_def)
    have k: "keeps kv (bnd (guard_pulsar sys name) (\<lambda>_. bnd (guard_leader sys name ip) (\<lambda>_. ret name)))"
      by (intro keeps_intros)
    have n: "wp (bnd (guard_pulsar sys name) (\<lambda>_. bnd (guard_leader sys name ip) (\<lambda>_. ret name)))
        (\<lambda>x _. x = name) (\<lambda>_ _. True) s'" for s'
      unfolding wp_bnd wp_ret by (intro wp_all) auto
    show ?thesis using h o' t unfolding Some option.case log_line_def wp_bnd [of "call a g" for a g] wp_call
      by (auto simp: wp_raise intro!: wp_mono [OF wp_conj [OF keeps_wp [OF k] n]])
  qed
qed auto

lemma run_remove_node_wp:
  assumes "prefix_free leased TOPOLOGY_PREFIX"
  shows "wp (run_remove_node sys fuel cfg is_leader count params)
    (\<lambda>_ t. is_leader \<and> (\<exists>name. has_ip (kv (st_world s)) (or_empty (get_str params ''ip'')) name
       \<and> (\<exists>n. n \<noteq> name \<and> topo_view (kv (st_world s)) n \<noteq> None)
       \<and> kv (st_world t) = (kv (st_world s))(TOPOLOGY_PREFIX @ name := None)))
    (\<lambda>_ t. kv (st_world t) = kv (st_world s)
       \<or> is_leader \<and> (\<exists>name. has_ip (kv (st_world s)) (or_empty (get_str params ''ip'')) name
           \<and> (\<exists>n. n \<noteq> name \<and> topo_view (kv (st_world s)) n \<noteq> None)
           \<and> kv (st_world t) = (kv (st_world s))(TOPOLOGY_PREFIX @ name := None))) s"
proof (cases "truthy (get_str params ''ip'')")
  case False
  then show ?thesis by (simp add: run_remove_node_def wp_raise)
next
  case True
  let ?ip = "or_empty (get_str params ''ip'')" and ?m = "kv (st_world s)"
  let ?tail = "\<lambda>name. bnd (log_line (''waiting for the topology-watcher chain to settle on each survivor ''
            @ ''(rolling MinIO recreate excludes the decommissioned pool)...'')) (\<lambda>_.
         bnd (wait_minio_settled_after_remove sys fuel cfg ?ip 180) (\<lambda>_.
         bnd (log_line (''==> etcd member-remove for '' @ name)) (\<lambda>_.
         bnd (remove_etcd_member sys ?ip) (\<lambda>_.
         bnd (set_progress (95/100)) (\<lambda>_.
         bnd (drain_survivors sys fuel ?ip) (\<lambda>_.
         bnd (set_progress 1) (\<lambda>_.
           farewell name ?ip)))))))"
  let ?pre = "\<lambda>name. bnd (log_line (''removing peer '' @ name @ '' @ '' @ ?ip @ '' from cluster of '' @ str_of_nat count)) (\<lambda>_.
         bnd (set_progress (5/100)) (\<lambda>_.
         bnd (drain_pool sys ?ip) (\<lambda>_.
         bnd (set_progress (70/100)) (\<lambda>_.
           log_line (''==> deleting topology entry for '' @ name)))))"
  have eq: "run_remove_node sys fuel cfg is_leader count params = bnd (check_removal sys is_leader ?ip) (\<lambda>name.
      bnd (?pre name) (\<lambda>_. bnd (etcd_delete sys (TOPOLOGY_PREFIX @ name)) (\<lambda>_. ?tail name)))"
    using True by (simp add: run_remove_node_def delete_and_settle_def Let_def bnd_assoc)
  have pre: "keeps kv (?pre name)" and tail: "keeps kv (?tail name)" for name by (intro keeps_intros)+
  have L: "TOPOLOGY_PREFIX @ name \<notin> leased" for name using assms by (auto simp: prefix_free_def)
  show ?thesis
    unfolding eq wp_bnd [of "check_removal a b c" for a b c]
  proof (rule wp_mono [OF check_removal_wp [OF assms]], goal_cases)
    case (1 name t)
    have del: "wp (bnd (etcd_delete sys (TOPOLOGY_PREFIX @ name)) (\<lambda>_. ?tail name))
        (\<lambda>_ t. kv (st_world t) = ?m(TOPOLOGY_PREFIX @ name := None))
        (\<lambda>_ t. kv (st_world t) = ?m \<or> kv (st_world t) = ?m(TOPOLOGY_PREFIX @ name := None)) s'"
      if "kv (st_world s') = ?m" for s'
      unfolding wp_bnd [of "etcd_delete a b" for a b]
    proof (rule wp_mono [OF delete_spec [OF L]], goal_cases)
      case (1 u t')
      show ?case by (rule wp_mono [OF keeps_wp [OF tail]]) (simp_all only: 1 that simp_thms)
    next
      case (2 e t')
      then show ?case using that by auto
    qed
    show ?case
      unfolding wp_bnd [of "?pre name"]
      by (rule wp_mono [OF keeps_wp [OF pre]], rule wp_mono [OF del]) (use 1 in auto)
  qed auto
qed

end

text \<open>C34. A removal touches one entry: a run that succeeds was on the leader, found a peer with that address
  and at least one other peer, and deleted exactly that peer's topology entry from the store; a run
  that fails has left the store as it was or has deleted just that entry. Assumed: etcd behaves as
  documented, and commands, probes and requests to peers do not write its keys.\<close>

theorem remove_node_touches_one_entry:
  assumes "quiet_outside sys leased kv" and "prefix_free leased TOPOLOGY_PREFIX"
    and "run_remove_node sys fuel cfg is_leader count params s = (r, t)"
  shows "((\<exists>e. r = Inl e) \<and> kv (st_world t) = kv (st_world s)) \<or>
    is_leader \<and> (\<exists>name. has_ip (kv (st_world s)) (or_empty (get_str params ''ip'')) name
      \<and> (\<exists>n. n \<noteq> name \<and> topo_view (kv (st_world s)) n \<noteq> None)
      \<and> kv (st_world t) = (kv (st_world s))(TOPOLOGY_PREFIX @ name := None))"
  using quiet_outside.run_remove_node_wp [OF assms(1,2), of fuel cfg is_leader count params s] assms(3)
  by (cases r) (auto simp: wp_def)

text \<open>A world in which MinIO reports the pool of node-2 as drained, and the survivor is healthy. The ports are
  small because the evaluation counts in unary.\<close>

definition dq :: char where "dq = CHR 0x22"

definition quoted :: "string \<Rightarrow> string" where "quoted s = dq # s @ [dq]"

definition pool_status :: "string \<Rightarrow> string \<Rightarrow> string" where
  "pool_status ip info = ''[{'' @ quoted ''cmdline'' @ '':'' @ quoted (''http://'' @ ip @ '':9000/drive{1...4}'') @ '',''
     @ quoted ''decommissionInfo'' @ '':{'' @ info @ ''}}]''"

definition drained_world :: world where
  "drained_world = two_nodes\<lparr>
     w_runs := [(0, [], []), (0, pool_status ''10.0.0.2'' (quoted ''complete'' @ '':true''), []),
                (0, pool_status ''10.0.0.2'' (quoted ''complete'' @ '':true''), [])],
     w_files := [(''/repo/cluster.env'', ''MILVUS_PORT=9'' @ [nl] @ ''ETCD_PEER_PORT=8'' @ [nl])],
     w_https := [Http_response 200 None], w_tcps := [True, True, True]\<rparr>"

theorem remove_node_touches_one_entry_witness:
  "\<exists>t. run_remove_node mem_sys 80 quiet_cfg True 2 target_params (start drained_world) = (Inr (), t)
     \<and> (\<exists>name. has_ip (map_of (w_kv (st_world (start drained_world)))) ''10.0.0.2'' name
          \<and> map_of (w_kv (st_world t)) = (map_of (w_kv (st_world (start drained_world))))(TOPOLOGY_PREFIX @ name := None))"
proof -
  let ?r = "run_remove_node mem_sys 80 quiet_cfg True 2 target_params (start drained_world)"
  have "fst ?r = Inr ()" by code_simp
  then have r: "?r = (Inr (), snd ?r)" by (rule result_of)
  have f: "prefix_free lease_keys TOPOLOGY_PREFIX" by code_simp
  have ip: "or_empty (get_str target_params ''ip'') = ''10.0.0.2''" by code_simp
  from remove_node_touches_one_entry [OF mem_quiet.quiet_outside_axioms f r, unfolded ip] r show ?thesis by blast
qed

text \<open>A MinIO that does not answer counts as drained: the pool of node-2 is still draining when MinIO goes
  down and mc prints an error object in place of the list; the worker takes that as done and removes the
  peer and its data.\<close>

definition outage_world :: world where
  "outage_world = drained_world\<lparr>
     w_runs := [(0, [], []), (0, pool_status ''10.0.0.2'' (quoted ''startTime'' @ '':'' @ quoted ''2026-01-01''), []),
                (0, pool_status ''10.0.0.2'' (quoted ''startTime'' @ '':'' @ quoted ''2026-01-01''), []),
                (1, ''{'' @ quoted ''status'' @ '':'' @ quoted ''error'' @ ''}'', [])]\<rparr>"

theorem outage_counts_as_drained:
  "case run_remove_node mem_sys 80 quiet_cfg True 2 target_params (start outage_world) of
     (Inr _, t) \<Rightarrow> map_of (w_kv (st_world t)) ''/cluster/topology/peers/node-2'' = None
   | (Inl e, t) \<Rightarrow> False"
  by code_simp

lemma returns_decommission_state [returns_intros]: "returns (decommission_state sys fragment)"
proof -
  have h: "json_has v s \<noteq> Inl Diverges" for v s by (simp add: json_has_def split: json.split)
  have i: "info_state d \<noteq> Inl Diverges" for d by (simp add: info_state_def Let_def split: json.split option.split)
  have "find_pool fragment ps \<noteq> Inl Diverges" for ps
    using h i by (induction fragment ps rule: find_pool.induct) (auto split: sum.split bool.split json.split option.split)
  then have "read_status fragment x \<noteq> Inl Diverges" for x
    by (auto simp: read_status_def split: prod.splits option.splits json.splits if_splits)
  then show ?thesis unfolding decommission_state_def
    by (intro returns_intros) (auto intro!: returns_intros split: sum.split)
qed

lemma returns_poll [returns_intros]: "returns (poll_decommission sys fragment elapsed)"
proof (rule poll_induct)
  fix e
  assume "e < 1800 \<Longrightarrow> returns (poll_decommission sys fragment (e + 5))"
  then show "returns (poll_decommission sys fragment e)"
    unfolding poll_decommission.simps [of sys fragment e] by (intro returns_intros) auto
qed

context patient_clock
begin

lemma returns_settle:
  assumes "61 \<le> fuel"
  shows "returns (bnd (monotonic sys) (\<lambda>t. settle_rounds sys cfg fuel (t + of_int 180) p))"
proof (rule returns_deadline [where R = "\<lambda>n dl p. settle_rounds sys cfg n dl p" and d = 3 and D = "\<lambda>q. q = []"
      and B = "\<lambda>p. fold_io (settle_one sys cfg) p p" and E = warn_unsettled and F = "\<lambda>_. ret ()"])
  show "advances clk (fold_io (settle_one sys cfg) p p)" for p
    unfolding settle_one_def peer_settled_def by (intro advances_intros)
  show "returns (fold_io (settle_one sys cfg) p p)" "returns (warn_unsettled p)" for p
    unfolding settle_one_def peer_settled_def warn_unsettled_def by (intro returns_intros)+
qed (use assms in \<open>auto intro: returns_intros\<close>)

lemma returns_proxy:
  assumes "61 \<le> fuel"
  shows "returns (bnd (monotonic sys) (\<lambda>t. proxy_rounds sys port fuel (t + of_int 60) p))"
proof (rule returns_deadline [where R = "\<lambda>n dl p. proxy_rounds sys port n dl p" and d = 2 and D = "\<lambda>q. q = []"
      and B = "\<lambda>p. fold_io (probe_one sys port) (keys p) p" and E = warn_stragglers and F = "\<lambda>_. ret ()"])
  show "advances clk (fold_io (probe_one sys port) (keys p) p)" for p
    unfolding probe_one_def Let_def by (intro advances_intros)
  show "returns (fold_io (probe_one sys port) (keys p) p)" "returns (warn_stragglers p)" for p
    unfolding probe_one_def warn_stragglers_def Let_def by (intro returns_intros)+
qed (use assms in \<open>auto intro: returns_intros\<close>)

lemma returns_waits:
  assumes "61 \<le> fuel"
  shows "returns (wait_minio_settled_after_remove sys fuel cfg ip 180)" "returns (drain_survivors sys fuel ip)"
  unfolding wait_minio_settled_after_remove_def drain_survivors_def wait_milvus_proxy_settled_def setting_defs Let_def
  by (rule returns_bnd [OF returns_requests(1) returns_settle [OF assms]],
      rule returns_bnd [OF returns_requests(1)], rule returns_if, rule returns_ret, rule returns_bnd [OF returns_calls(9)],
      rule returns_bnd, (intro returns_intros)[1], rule returns_proxy [OF assms])

end

text \<open>C36. The worker returns: on a clock that does not go back, with 61 rounds allowed for each of the two settling
  loops, a removal ends in success or in a Python exception, whatever MinIO, the peers and etcd answer.
  The poll of the drain needs no bound: it stops by its own counter.\<close>

theorem remove_node_returns:
  assumes "patient_clock sys clk" and "61 \<le> fuel"
  shows "\<exists>r t. run_remove_node sys fuel cfg is_leader count params s = (r, t) \<and> r \<noteq> Inl Diverges"
proof -
  note waits = patient_clock.returns_waits [OF assms]
  have "returns (run_remove_node sys fuel cfg is_leader count params)"
    unfolding run_remove_node_def delete_and_settle_def check_removal_def guard_pulsar_def guard_leader_def drain_pool_def
      start_decommission_def setting_defs remove_etcd_member_def find_etcd_member_id_by_peer_url_def Let_def no_such_peer_def
    by (intro returns_intros waits) simp_all
  then show ?thesis unfolding returns_def by (metis fst_conv surj_pair)
qed

theorem remove_node_returns_witness:
  "\<exists>r t. run_remove_node mem_sys 61 quiet_cfg True 2 target_params (start two_nodes) = (r, t) \<and> r \<noteq> Inl Diverges"
  using remove_node_returns [OF mem_patient.patient_clock_axioms] by simp

section \<open>Progress\<close>

lemma climbs_poll:
  "climbs (min (6/10) (1/10 + of_nat e / 3600)) (70/100) (poll_decommission sys fragment e)"
proof (induction e rule: measure_induct_rule [where f = "\<lambda>e. 1805 - e"])
  case (less e)
  let ?v = "min (6/10) (1/10 + (of_nat e :: rat) / 3600)"
  have v: "?v \<le> 70/100" by (rule order_trans [OF min.cobounded1]) simp
  have step: "climbs ?v (70/100) (bnd (set_progress (min (6/10) (1/10 + of_nat e / 1800 * (1/2)))) (\<lambda>_.
      bnd (sleep sys 5) (\<lambda>_. poll_decommission sys fragment (e + 5))))" if "\<not> 1800 \<le> e"
  proof (rule climbs_set_bnd)
    have IH: "climbs (min (6/10) (1/10 + of_nat (e + 5) / 3600)) (70/100) (poll_decommission sys fragment (e + 5))"
      by (rule less) (use that in simp)
    show "climbs (min (6/10) (1/10 + of_nat e / 1800 * (1/2))) (70/100) (bnd (sleep sys 5) (\<lambda>_. poll_decommission sys fragment (e + 5)))"
      by (rule climbs_quiet_bnd, (intro only_intros; simp), rule climbs_from [OF _ IH]) (auto simp: min_def field_simps)
  qed simp
  show ?case
    unfolding poll_decommission.simps [of sys fragment e]
    by (rule climbs_quiet_bnd, (intro only_decommission_state, simp), intro climbs_if climbs_raise step climbs_log v)
qed

lemma silent_drain_parts:
  "only silent (decommission_state sys f)" "only silent (start_decommission sys pool st)"
  by (intro only_decommission_state only_start_decommission; simp)+

lemma climbs_remove_node: "climbs 0 1 (run_remove_node sys fuel cfg is_leader count params)"
proof -
  have check: "only silent (check_removal sys is_leader ip)" for ip
    unfolding check_removal_def guard_pulsar_def guard_leader_def by (intro only_intros) simp_all
  have drain: "climbs (5/100) (70/100) (drain_pool sys ip)" for ip
    unfolding drain_pool_def setting_defs
    by (intro climbs_quiet_bnd climbs_set_bnd climbs_from [OF _ climbs_poll] only_intros silent_drain_parts) simp_all
  have settle: "only silent (settle_rounds sys cfg fuel deadline pending)" for deadline pending
  proof (induction fuel arbitrary: pending)
    case (Suc fuel)
    show ?case unfolding settle_rounds.simps settle_one_def peer_settled_def warn_unsettled_def
      by (intro only_intros Suc.IH) simp_all
  qed (simp add: only_intros)
  have proxy: "only silent (proxy_rounds sys port fuel deadline pending)" for port deadline pending
  proof (induction fuel arbitrary: pending)
    case (Suc fuel)
    show ?case unfolding proxy_rounds.simps probe_one_def warn_stragglers_def Let_def
      by (intro only_intros Suc.IH) simp_all
  qed (simp add: only_intros)
  have waits: "only silent (wait_minio_settled_after_remove sys fuel cfg ip timeout)" "only silent (drain_survivors sys fuel ip)"
    "only silent (remove_etcd_member sys ip)" for ip timeout
    unfolding wait_minio_settled_after_remove_def drain_survivors_def wait_milvus_proxy_settled_def setting_defs Let_def
      remove_etcd_member_def find_etcd_member_id_by_peer_url_def
    by (intro only_intros settle proxy; simp)+
  show ?thesis
    unfolding run_remove_node_def delete_and_settle_def bnd_assoc Let_def
    by (intro climbs_if climbs_raise climbs_quiet_bnd check only_log climbs_set_bnd
        climbs_bnd [OF drain] waits only_etcd_delete climbs_silent farewell_rules) simp_all
qed

end
