(* ===== verification/Migrate_Pulsar.thy ===== *)
theory Migrate_Pulsar
  imports Remove_Node
begin

text \<open>
  \<open>src/daemon/workers/migrate_pulsar.py\<close>: the move of the Pulsar singleton to another peer. Preflight: every
  daemon must answer; then each peer is told in turn, the new host first, the old one last; then every
  peer is asked what it has. Probes that the code sends concurrently are sent here in the order in which
  it starts them; each is one request, and the answers are collected in that order.
\<close>

section \<open>Requests\<close>

text \<open>The peers with an address, in the order of the dictionary.\<close>

definition addressed :: "peers \<Rightarrow> (string \<times> string) list" where
  "addressed ps = map (\<lambda>(n, info). (n, or_empty (ip_of info))) (filter (\<lambda>(n, info). truthy (ip_of info)) ps)"

definition peer_label :: "string \<times> string \<Rightarrow> string" where
  "peer_label p = fst p @ ''@'' @ snd p"

definition probe_peer :: "'w sys \<Rightarrow> daemon_config \<Rightarrow> string \<times> string \<Rightarrow> string list \<Rightarrow> ('w, string list) io" where
  "probe_peer sys cfg p bad =
     bnd (peer_settled sys (snd p) (listen_port cfg) (cluster_token cfg)) (\<lambda>ok. ret (if ok then bad else bad @ [peer_label p]))"

definition preflight_peers_reachable :: "'w sys \<Rightarrow> daemon_config \<Rightarrow> peers \<Rightarrow> ('w, string list) io" where
  "preflight_peers_reachable sys cfg ps = fold_io (probe_peer sys cfg) (addressed ps) []"

definition get_host_call :: "daemon_config \<Rightarrow> string \<Rightarrow> http_call" where
  "get_host_call cfg ip = \<lparr>hc_method = GET, hc_ip = ip, hc_port = listen_port cfg, hc_path = ''/admin/get-pulsar-host'',
     hc_token = cluster_token cfg, hc_body = []\<rparr>"

text \<open>What a peer reports: nothing when it does not answer, answers with an error or reports no host.\<close>

definition reported_host :: "http_result \<Rightarrow> json option" where
  "reported_host r =
     (case r of
        Http_response st (Some d) \<Rightarrow> if st = 200 then (case dict_get d ''pulsar_host'' of Some JNull \<Rightarrow> None | v \<Rightarrow> v) else None
      | _ \<Rightarrow> None)"

definition verify_peer :: "'w sys \<Rightarrow> daemon_config \<Rightarrow> string \<Rightarrow> string \<times> string \<Rightarrow> (string \<times> string) list
    \<Rightarrow> ('w, (string \<times> string) list) io" where
  "verify_peer sys cfg expected p bad =
     bnd (http sys (get_host_call cfg (snd p))) (\<lambda>r. ret (if reported_host r = Some (JStr expected) then bad else bad @ [p]))"

definition verify_pulsar_host_everywhere :: "'w sys \<Rightarrow> daemon_config \<Rightarrow> peers \<Rightarrow> string \<Rightarrow> ('w, (string \<times> string) list) io" where
  "verify_pulsar_host_everywhere sys cfg ps expected = fold_io (verify_peer sys cfg expected) (addressed ps) []"

definition sync_host_call :: "daemon_config \<Rightarrow> string \<Rightarrow> string \<Rightarrow> http_call" where
  "sync_host_call cfg ip host = \<lparr>hc_method = POST, hc_ip = ip, hc_port = listen_port cfg, hc_path = ''/admin/sync-pulsar-host'',
     hc_token = cluster_token cfg, hc_body = [(''pulsar_host'', JStr host)]\<rparr>"

definition rpc_sync_pulsar_host :: "'w sys \<Rightarrow> daemon_config \<Rightarrow> string \<Rightarrow> string \<Rightarrow> ('w, unit) io" where
  "rpc_sync_pulsar_host sys cfg ip host =
     bnd (http sys (sync_host_call cfg ip host)) (\<lambda>r.
       case r of
         Http_error \<Rightarrow> raise (RuntimeError ''request failed'')
       | Http_response st b \<Rightarrow>
           if \<not> success st then raise (HTTPStatusError st)
           else (case b of
                   None \<Rightarrow> raise JSONDecodeError
                 | Some d \<Rightarrow> if field_true d ''applied'' then ret () else raise (RuntimeError ''peer did not apply'')))"

section \<open>The migration\<close>

text \<open>Who is told, in which order: the new host, the others by number, the old host.\<close>

definition sequenced :: "peers \<Rightarrow> string \<Rightarrow> string \<Rightarrow> string \<Rightarrow> string \<Rightarrow> bool \<Rightarrow> (string \<times> string \<times> string) list" where
  "sequenced ps to_node target_ip current_host current_ip skip_old =
     (''new pulsar host'', to_node, target_ip)
     # map (\<lambda>p. (''milvus-only peer'', p)) (filter (\<lambda>(n, ip). n \<noteq> to_node \<and> n \<noteq> current_host) (current_peer_ips_and_names ps))
     @ (if current_ip \<noteq> [] \<and> \<not> skip_old then [(''old pulsar host (now milvus-only)'', current_host, current_ip)] else [])"

definition apply_one :: "'w sys \<Rightarrow> daemon_config \<Rightarrow> string \<Rightarrow> rat \<Rightarrow> string \<times> string \<times> string \<Rightarrow> rat \<Rightarrow> ('w, rat) io" where
  "apply_one sys cfg host step entry progress =
     (case entry of (label, name, ip) \<Rightarrow>
        bnd (log_line (''==> '' @ label @ '': '' @ name @ '' @ '' @ ip)) (\<lambda>_.
        bnd (try_except (bnd (rpc_sync_pulsar_host sys cfg ip host) (\<lambda>_. log_line (''    '' @ name @ '' done'')))
               (\<lambda>e. raise (RuntimeError (''sync-pulsar-host on '' @ name @ '' ('' @ ip @ '') failed'')))) (\<lambda>_.
        bnd (set_progress (min (85/100) (progress + step))) (\<lambda>_. ret (progress + step)))))"

text \<open>The preflight and what it decides: whether the old host is dead and left out.\<close>

definition preflight :: "'w sys \<Rightarrow> daemon_config \<Rightarrow> peers \<Rightarrow> string \<Rightarrow> bool \<Rightarrow> ('w, bool) io" where
  "preflight sys cfg ps current_host force =
     bnd (preflight_peers_reachable sys cfg ps) (\<lambda>unreachable.
       let names = map (\<lambda>u. fst (partition_at (CHR ''@'') u)) unreachable in
       if force \<and> names = [current_host] then
         bnd (log_line (''preflight: only the OLD pulsar host '' @ current_host
           @ '' is unreachable; force_when_old_host_dead=true so the migration proceeds (the dead host'' @ CHR 0x27
           # ''s sync-pulsar-host call will be skipped, and post-verify excludes it)'')) (\<lambda>_. ret True)
       else if unreachable \<noteq> [] then raise (RuntimeError ''preflight: cannot reach daemon. Migration aborted before any side effects'')
       else bnd (log_line (''preflight: all '' @ str_of_nat (length ps) @ '' peers reachable'')) (\<lambda>_. ret False))"

definition apply_everywhere :: "'w sys \<Rightarrow> daemon_config \<Rightarrow> string \<Rightarrow> (string \<times> string \<times> string) list \<Rightarrow> ('w, unit) io" where
  "apply_everywhere sys cfg host ps =
     bnd (fold_io (apply_one sys cfg host (7/10 / of_nat (max 1 (length ps)))) ps (1/10)) (\<lambda>_. ret ())"

definition post_verify :: "'w sys \<Rightarrow> daemon_config \<Rightarrow> peers \<Rightarrow> string \<Rightarrow> string \<Rightarrow> bool \<Rightarrow> ('w, unit) io" where
  "post_verify sys cfg ps to_node current_host skip_old =
     bnd (log_line ''post-verify: confirming PULSAR_HOST on every peer'') (\<lambda>_.
     bnd (if skip_old then log_line (''post-verify excludes dead old host '' @ current_host @ '' (force_when_old_host_dead)'') else ret ()) (\<lambda>_.
     bnd (verify_pulsar_host_everywhere sys cfg (if skip_old then filter (\<lambda>(n, i). n \<noteq> current_host) ps else ps) to_node) (\<lambda>bad.
       if bad \<noteq> [] then raise (RuntimeError ''post-verify FAILED'') else ret ())))"

definition finished_line :: "string \<Rightarrow> string \<Rightarrow> string \<Rightarrow> string" where
  "finished_line to_node target_ip current_ip =
     ''migrate-pulsar finished. PULSAR_HOST='' @ to_node @ '' ('' @ target_ip @ '') on every peer. ''
     @ ''You can now `./milvus-onprem remove-node --ip='' @ current_ip @ ''` if removing the old host was the goal.''"

definition migrate :: "'w sys \<Rightarrow> daemon_config \<Rightarrow> peers \<Rightarrow> string \<Rightarrow> string \<Rightarrow> string \<Rightarrow> bool \<Rightarrow> ('w, unit) io" where
  "migrate sys cfg ps to_node target_ip current_host force =
     (let current_ip = or_empty (Option.bind (dict_get ps current_host) ip_of) in
      bnd (log_line (''migrating Pulsar: '' @ current_host @ '' ('' @ (if current_ip = [] then ''?'' else current_ip) @ '') -> ''
             @ to_node @ '' ('' @ target_ip @ '')'')) (\<lambda>_.
      bnd (set_progress (5/100)) (\<lambda>_.
      bnd (preflight sys cfg ps current_host force) (\<lambda>skip_old.
      bnd (set_progress (1/10)) (\<lambda>_.
      bnd (if skip_old then log_line (''skipping apply on dead old pulsar host '' @ current_host @ '' (force_when_old_host_dead)'') else ret ()) (\<lambda>_.
      bnd (apply_everywhere sys cfg to_node (sequenced ps to_node target_ip current_host current_ip skip_old)) (\<lambda>_.
      bnd (post_verify sys cfg ps to_node current_host skip_old) (\<lambda>_.
      bnd (log_line (finished_line to_node target_ip current_ip)) (\<lambda>_.
        set_progress 1)))))))))"

definition run_migrate_pulsar :: "'w sys \<Rightarrow> daemon_config \<Rightarrow> bool \<Rightarrow> obj \<Rightarrow> ('w, unit) io" where
  "run_migrate_pulsar sys cfg is_leader params =
     (let to_node = or_empty (get_str params ''to_node'') in
      if to_node = [] then raise (ValueError ''migrate-pulsar requires a to_node param'')
      else
        bnd (is_pulsar_deploy sys) (\<lambda>pulsar.
          if \<not> pulsar then raise (PermissionError ''migrate-pulsar is only meaningful on a 2.5 deploy'')
          else if \<not> is_leader then raise (PermissionError ''migrate-pulsar must run on the leader'')
          else
            bnd (authoritative_peers sys) (\<lambda>ps.
            bnd (log_line (''authoritative topology: '' @ str_of_nat (length ps) @ '' peers - '' @ py_list (sort (keys ps)))) (\<lambda>_.
              case dict_get ps to_node of
                None \<Rightarrow> raise (ValueError ''to_node is not in topology'')
              | Some info \<Rightarrow>
                  if \<not> truthy (ip_of info) then raise (ValueError ''topology entry has no ip'')
                  else
                    bnd (read_cluster_env_value sys ''PULSAR_HOST'' ''node-1'') (\<lambda>current_host.
                      if current_host = to_node then log_line (''PULSAR_HOST is already '' @ to_node @ ''; nothing to do'')
                      else migrate sys cfg ps to_node (or_empty (ip_of info)) current_host
                             (field_true params ''force_when_old_host_dead''))))))"

section \<open>Calls\<close>

lemma call_methods [simp]:
  "hc_method (health_call ip port tk) = GET" "hc_method (get_host_call cfg ip) = GET"
  "hc_method (sync_host_call cfg ip host) = POST"
  by (simp_all add: health_call_def get_host_call_def sync_host_call_def)

lemma only_preflight: "only (\<lambda>a. \<not> posts a) (preflight sys cfg ps current_host force)"
  unfolding preflight_def preflight_peers_reachable_def probe_peer_def peer_settled_def Let_def
  by (intro only_intros) simp_all

lemma only_post_verify: "only (\<lambda>a. \<not> posts a) (post_verify sys cfg ps to_node current_host skip_old)"
  unfolding post_verify_def verify_pulsar_host_everywhere_def verify_peer_def
  by (intro only_intros) simp_all

text \<open>The labels of the peers that do not answer.\<close>

definition down :: "'w sys \<Rightarrow> daemon_config \<Rightarrow> string \<Rightarrow> bool" where
  "down sys cfg ip \<longleftrightarrow>
     (\<forall>w. case fst (sys_http sys (health_call ip (listen_port cfg) (cluster_token cfg)) w) of
            Http_response st _ \<Rightarrow> st \<noteq> 200 | Http_error \<Rightarrow> True)"

lemma preflight_finds:
  assumes "down sys cfg ip" "(n, ip) \<in> set ps"
  shows "wp (fold_io (probe_peer sys cfg) ps bad) (\<lambda>u _. peer_label (n, ip) \<in> set u) (\<lambda>_ _. False) s"
proof -
  have r: "(case fst (sys_http sys (health_call ip (listen_port cfg) (cluster_token cfg)) w) of
      Http_response st _ \<Rightarrow> st = 200 | Http_error \<Rightarrow> False) = False" for w
    using assms(1) [unfolded down_def, rule_format, of w] by (simp split: http_result.splits)
  have "wp (fold_io (probe_peer sys cfg) ps bad) (\<lambda>u _. peer_label (n, ip) \<in> set u \<or> (n, ip) \<in> set []) (\<lambda>_ _. False) s"
  proof (rule wp_fold_io [where I = "\<lambda>xs u _. peer_label (n, ip) \<in> set u \<or> (n, ip) \<in> set xs"])
    fix x ys u s
    assume "peer_label (n, ip) \<in> set u \<or> (n, ip) \<in> set (x # ys)"
    then show "wp (probe_peer sys cfg x u) (\<lambda>u _. peer_label (n, ip) \<in> set u \<or> (n, ip) \<in> set ys) (\<lambda>_ _. False) s"
      using r by (cases "x = (n, ip)") (auto simp: probe_peer_def peer_settled_def http_def wp_bnd wp_call wp_ret)
  qed (use assms(2) in simp)
  then show ?thesis by simp
qed

text \<open>C11. A migration that cannot be completed is not begun: when the daemon of a peer of the topology does not
  answer its health check (and it is not the old host with the force flag set), the migration fails
  and no peer, the leader's own daemon included, has been asked to change anything.\<close>

theorem preflight_protects:
  assumes "(n, ip) \<in> set (addressed ps)" and "down sys cfg ip"
    and "CHR ''@'' \<notin> set n" and "\<not> (force \<and> n = current_host)"
  shows "only (\<lambda>a. \<not> posts a) (migrate sys cfg ps to_node target_ip current_host force)
    \<and> (\<exists>e t. migrate sys cfg ps to_node target_ip current_host force s = (Inl e, t))"
proof -
  have l: "fst (partition_at (CHR ''@'') (peer_label (n, ip))) = n"
    using partition_at_append [OF assms(3), of ip] by (simp add: peer_label_def)
  have "wp (preflight sys cfg ps current_host force) (\<lambda>_ _. False) (\<lambda>_ _. True) s'" for s'
    unfolding preflight_def wp_bnd preflight_peers_reachable_def Let_def
  proof (rule wp_mono [OF preflight_finds [OF assms(2,1)]], goal_cases)
    case (1 u t)
    then have "map (\<lambda>u. fst (partition_at (CHR ''@'') u)) u = [current_host] \<Longrightarrow> n = current_host"
      using l by (cases u) auto
    with 1 assms(4) show ?case by (auto simp: wp_raise)
  qed auto
  then have never: "never_ok (preflight sys cfg ps current_host force)"
    unfolding never_ok_def wp_def by (metis (mono_tags, lifting) case_prod_conv old.sum.simps(6))
  have "only (\<lambda>a. \<not> posts a) (migrate sys cfg ps to_node target_ip current_host force)"
    unfolding migrate_def Let_def
    by (intro only_bnd_never [OF only_preflight never] only_bnd only_log only_progress) simp_all
  moreover have "never_ok (migrate sys cfg ps to_node target_ip current_host force)"
    unfolding migrate_def Let_def by (rule never_ok_bnd, rule never_ok_bnd, rule never_ok_fail [OF never])
  ultimately show ?thesis unfolding never_ok_def
    by (cases "migrate sys cfg ps to_node target_ip current_host force s"; cases "fst (migrate sys cfg ps to_node target_ip current_host force s)") auto
qed

definition mute_sys :: "world sys" where
  "mute_sys = mem_sys\<lparr>sys_http := (\<lambda>c w. (Http_error, w))\<rparr>"

theorem preflight_protects_witness:
  "only (\<lambda>a. \<not> posts a) (migrate mute_sys quiet_cfg trio ''node-2'' ''10.0.0.2'' ''node-1'' False)"
proof -
  have m: "(''node-3'', ''10.0.0.3'') \<in> set (addressed trio)" by code_simp
  have d: "down mute_sys quiet_cfg ''10.0.0.3''" by (simp add: down_def mute_sys_def)
  have a: "CHR ''@'' \<notin> set ''node-3''" "\<not> (False \<and> ''node-3'' = ''node-1'')" by simp_all
  from preflight_protects [OF m d a] show ?thesis by blast
qed

section \<open>Success\<close>

text \<open>Peers report their Pulsar host truthfully, and asking does not change it.\<close>

locale pulsar_reports =
  fixes sys :: "'w sys" and cfg :: daemon_config and hosts :: "'w \<Rightarrow> string \<Rightarrow> string option"
  assumes report: "reported_host (fst (sys_http sys (get_host_call cfg ip) w)) = Some (JStr h) \<Longrightarrow> hosts w ip = Some h"
    and report_keeps: "hosts (snd (sys_http sys (get_host_call cfg ip) w)) = hosts w"
begin

lemma verify_wp:
  "wp (fold_io (verify_peer sys cfg h) ps []) (\<lambda>bad t. bad = [] \<longrightarrow> (\<forall>p \<in> set ps. hosts (st_world t) (snd p) = Some h)) (\<lambda>_ _. True) s"
proof -
  let ?I = "\<lambda>xs (bad :: (string \<times> string) list) (t :: 'w st). bad = [] \<longrightarrow> (\<forall>p \<in> set ps. p \<in> set xs \<or> hosts (st_world t) (snd p) = Some h)"
  have "wp (fold_io (verify_peer sys cfg h) ps []) (?I []) (\<lambda>_ _. True) s"
  proof (rule wp_fold_io [where I = ?I])
    fix x ys bad s
    assume "?I (x # ys) bad s"
    then show "wp (verify_peer sys cfg h x bad) (?I ys) (\<lambda>_ _. True) s"
      using report [of "snd x" "st_world s" h] report_keeps [of "snd x" "st_world s"]
      by (auto simp: verify_peer_def http_def wp_bnd wp_call wp_ret)
  qed simp
  then show ?thesis by simp
qed

lemma post_verify_wp:
  "wp (post_verify sys cfg ps to_node current_host skip_old)
     (\<lambda>_ t. \<forall>p \<in> set (addressed ps). skip_old \<and> fst p = current_host \<or> hosts (st_world t) (snd p) = Some to_node) (\<lambda>_ _. True) s"
proof -
  let ?vs = "if skip_old then filter (\<lambda>(n, i). n \<noteq> current_host) ps else ps"
  have a: "p \<in> set (addressed ps) \<Longrightarrow> skip_old \<and> fst p = current_host \<or> p \<in> set (addressed ?vs)" for p
    by (auto simp: addressed_def)
  have v: "wp (verify_pulsar_host_everywhere sys cfg ?vs to_node)
     (\<lambda>bad t. bad = [] \<longrightarrow> (\<forall>p \<in> set (addressed ?vs). hosts (st_world t) (snd p) = Some to_node)) (\<lambda>_ _. True) s'" for s'
    unfolding verify_pulsar_host_everywhere_def by (rule verify_wp)
  have last: "wp (bnd (verify_pulsar_host_everywhere sys cfg ?vs to_node) (\<lambda>bad. if bad \<noteq> [] then raise e else ret ()))
     (\<lambda>_ t. \<forall>p \<in> set (addressed ps). skip_old \<and> fst p = current_host \<or> hosts (st_world t) (snd p) = Some to_node) (\<lambda>_ _. True) s'" for s' e
    unfolding wp_bnd by (rule wp_mono [OF v]) (use a in \<open>auto simp: wp_raise wp_ret\<close>)
  show ?thesis unfolding post_verify_def
    by (subst wp_bnd, rule wp_all, subst wp_bnd, rule wp_all, rule last) simp_all
qed

end

lemma sends_apply_one: "sends (apply_one sys cfg host step (l, n, ip) q) [A_http (sync_host_call cfg ip host)]"
proof -
  have rpc: "sends (rpc_sync_pulsar_host sys cfg ip host) ([A_http (sync_host_call cfg ip host)] @ [])"
    unfolding rpc_sync_pulsar_host_def
  proof (rule sends_bnd [OF sends_post sends_only])
    fix r
    show "only (\<lambda>a. \<not> posts a) (case r of Http_error \<Rightarrow> raise (RuntimeError ''request failed'')
       | Http_response st b \<Rightarrow>
           if \<not> success st then raise (HTTPStatusError st)
           else (case b of
                   None \<Rightarrow> raise JSONDecodeError
                 | Some d \<Rightarrow> if field_true d ''applied'' then ret () else raise (RuntimeError ''peer did not apply'')))"
      by (cases r) (auto intro!: only_intros)
  qed simp
  have done': "sends (bnd (rpc_sync_pulsar_host sys cfg ip host) (\<lambda>_. log_line m)) (([A_http (sync_host_call cfg ip host)] @ []) @ [])" for m
    by (rule sends_bnd [OF rpc sends_only]) (intro only_intros, simp)
  have attempt: "sends (try_except (bnd (rpc_sync_pulsar_host sys cfg ip host) (\<lambda>_. log_line m)) (\<lambda>e. raise e'))
      [A_http (sync_host_call cfg ip host)]" for m e'
    using sends_try [OF done'] by simp
  have "sends (apply_one sys cfg host step (l, n, ip) q) ([A_http (sync_host_call cfg ip host)] @ [])"
    unfolding apply_one_def prod.case
    by (rule sends_quiet_bnd, (intro only_intros, simp), rule sends_bnd [OF attempt], rule sends_only, intro only_intros) simp
  then show ?thesis by simp
qed

lemma sends_apply_fold:
  "sends (fold_io (apply_one sys cfg host step) es q) (map (\<lambda>(l, n, ip). A_http (sync_host_call cfg ip host)) es)"
proof (induction es arbitrary: q)
  case Nil
  show ?case unfolding fold_io.simps by (simp add: sends_only only_ret)
next
  case (Cons e es)
  obtain l n ip where e: "e = (l, n, ip)" by (cases e)
  show ?case using sends_bnd [OF sends_apply_one Cons] unfolding e by simp
qed

lemma apply_everywhere_sends:
  "sends (apply_everywhere sys cfg host es) (map (\<lambda>(l, n, ip). A_http (sync_host_call cfg ip host)) es)"
proof -
  have "sends (apply_everywhere sys cfg host es) (map (\<lambda>(l, n, ip). A_http (sync_host_call cfg ip host)) es @ [])"
    unfolding apply_everywhere_def by (rule sends_bnd [OF sends_apply_fold]) (simp add: sends_only only_ret)
  then show ?thesis by simp
qed

text \<open>The order of a migration: the new host, the other peers by number, the old host unless it is dead.\<close>

definition migration_order :: "daemon_config \<Rightarrow> peers \<Rightarrow> string \<Rightarrow> string \<Rightarrow> string \<Rightarrow> bool \<Rightarrow> act list" where
  "migration_order cfg ps to_node target_ip current_host skip_old =
     map (\<lambda>(l, n, ip). A_http (sync_host_call cfg ip to_node))
       (sequenced ps to_node target_ip current_host (or_empty (Option.bind (dict_get ps current_host) ip_of)) skip_old)"

lemma preflight_skip: "wp (preflight sys cfg ps current_host force) (\<lambda>sk _. sk \<longrightarrow> force) (\<lambda>_ _. True) s"
  unfolding preflight_def wp_bnd Let_def
  by (rule wp_all) (auto simp: wp_raise wp_bnd wp_ret log_line_def wp_call)


section \<open>Progress\<close>

lemma climbs_apply_fold:
  assumes "0 \<le> step"
  shows "climbs (min (85/100) q) (85/100) (fold_io (apply_one sys cfg host step) es q)"
proof (induction es arbitrary: q)
  case Nil
  show ?case unfolding fold_io.simps by (intro climbs_silent only_ret) simp
next
  case (Cons e es)
  obtain l n ip where e: "e = (l, n, ip)" by (cases e)
  have m: "min (85/100) q \<le> min (85/100) (q + step)" using assms by (auto simp: min_def)
  have attempt: "only silent (try_except (bnd (rpc_sync_pulsar_host sys cfg ip host) (\<lambda>_. log_line msg)) (\<lambda>e. raise e'))" for msg e'
    unfolding rpc_sync_pulsar_host_def by (intro only_intros; simp split: http_result.split) (auto intro!: only_intros)
  have one: "apply_one sys cfg host step e q = bnd (bnd (log_line (''==> '' @ l @ '': '' @ n @ '' @ '' @ ip)) (\<lambda>_.
        bnd (try_except (bnd (rpc_sync_pulsar_host sys cfg ip host) (\<lambda>_. log_line (''    '' @ n @ '' done'')))
               (\<lambda>e. raise (RuntimeError (''sync-pulsar-host on '' @ n @ '' ('' @ ip @ '') failed'')))) (\<lambda>_.
        set_progress (min (85/100) (q + step))))) (\<lambda>_. ret (q + step))"
    by (simp only: apply_one_def e prod.case bnd_assoc)
  have rest: "bnd (ret (q + step)) (fold_io (apply_one sys cfg host step) es) = fold_io (apply_one sys cfg host step) es (q + step)"
    by (simp add: bnd_def ret_def)
  show ?case
    unfolding fold_io.simps one bnd_assoc rest
    by (rule climbs_quiet_bnd, (intro only_log, simp), rule climbs_quiet_bnd [OF attempt], rule climbs_set_bnd [OF m Cons])
qed

lemma climbs_migrate_pulsar: "climbs 0 1 (run_migrate_pulsar sys cfg is_leader params)"
proof -
  have applied: "climbs (1/10) (85/100) (apply_everywhere sys cfg host es)" for host es
  proof -
    have "climbs (min (85/100) (1/10)) (85/100) (fold_io (apply_one sys cfg host (7/10 / of_nat (max 1 (length es)))) es (1/10))"
      by (rule climbs_apply_fold) simp
    then have "climbs (1/10) (85/100) (fold_io (apply_one sys cfg host (7/10 / of_nat (max 1 (length es)))) es (1/10))" by simp
    then show ?thesis unfolding apply_everywhere_def by (rule climbs_bnd) (intro climbs_silent only_ret, simp)
  qed
  have pre: "only silent (preflight sys cfg ps current_host force)" for ps current_host force
    unfolding preflight_def preflight_peers_reachable_def probe_peer_def peer_settled_def Let_def by (intro only_intros) simp_all
  have post: "only silent (post_verify sys cfg ps to_node current_host sk)" for ps to_node current_host sk
    unfolding post_verify_def verify_pulsar_host_everywhere_def verify_peer_def by (intro only_intros) simp_all
  have mig: "climbs 0 1 (migrate sys cfg ps to_node target_ip current_host force)" for ps to_node target_ip current_host force
    unfolding migrate_def Let_def
    by (rule climbs_quiet_bnd, (intro only_log, simp), rule climbs_set_bnd, simp, rule climbs_quiet_bnd [OF pre],
        rule climbs_set_bnd, simp, rule climbs_quiet_bnd, (intro only_if only_log only_ret, simp), rule climbs_bnd [OF applied],
        rule climbs_quiet_bnd [OF post], rule climbs_quiet_bnd, (intro only_log, simp), rule climbs_set) simp_all
  have opt: "climbs 0 1 m \<Longrightarrow> (\<And>x. climbs 0 1 (g x)) \<Longrightarrow> climbs 0 1 (case o' of None \<Rightarrow> m | Some x \<Rightarrow> g x)"
    for m and g :: "obj \<Rightarrow> ('a, unit) io" and o' by (cases o') simp_all
  show ?thesis unfolding run_migrate_pulsar_def Let_def
    by (intro climbs_if climbs_raise climbs_quiet_bnd opt mig climbs_log only_is_pulsar only_env_value only_authoritative only_log)
      simp_all
qed

end
