(* ===== verification/Version_Upgrade.thy ===== *)
theory Version_Upgrade
  imports Worker
begin

text \<open>
  \<open>src/daemon/workers/version_upgrade.py\<close>: the rolling upgrade of the Milvus image. The leader upgrades
  itself first, then asks each follower in numeric order, and stops at the first failure; the version
  anchor in etcd is written when all are done. \<open>upgrade_self\<close> is the local procedure, also behind
  \<open>/upgrade-self\<close>. Its wait for the port counts the seconds slept and is a total function. The log lists
  of peers are lists of strings, as the endpoint sends them.
\<close>

section \<open>Versions\<close>

text \<open>\<open>^v\d+\.\d+\.\d+$\<close>, where \<open>$\<close> also accepts one trailing newline.\<close>

definition valid_version :: "string \<Rightarrow> bool" where
  "valid_version s \<longleftrightarrow> startswith s ''v''
     \<and> (case split_on (CHR ''.'') (tl s) of
          [a, b, c] \<Rightarrow> a \<noteq> [] \<and> list_all is_digit a \<and> b \<noteq> [] \<and> list_all is_digit b \<and> digits_eol c \<noteq> None
        | _ \<Rightarrow> False)"

text \<open>\<open>^v?(\d+\.\d+)\<close>.\<close>

definition major_minor :: "string \<Rightarrow> string option" where
  "major_minor tag =
     (let r = (if startswith tag ''v'' then tl tag else tag);
          a = takeWhile is_digit r; r1 = dropWhile is_digit r; b = takeWhile is_digit (tl r1) in
      if a \<noteq> [] \<and> startswith r1 ''.'' \<and> b \<noteq> [] then Some (a @ ''.'' @ b) else None)"

definition CLUSTER_VERSION_KEY :: string where
  "CLUSTER_VERSION_KEY = ''/cluster/milvus_version''"

section \<open>The local upgrade\<close>

definition run_repo :: "'w sys \<Rightarrow> string \<Rightarrow> ('w, int \<times> string \<times> string) io" where
  "run_repo sys cmd = run_cmd sys (''cd /repo && '' @ cmd)"

definition milvus_services_of_tag :: "'w sys \<Rightarrow> ('w, string list) io" where
  "milvus_services_of_tag sys =
     bnd (read_kv sys ''MILVUS_IMAGE_TAG'') (\<lambda>tag.
     bnd (read_kv sys ''MODE'') (\<lambda>m.
       ret (if startswith tag ''v2.5'' then [''mixcoord'', ''proxy'', ''querynode'', ''datanode'', ''indexnode'']
            else if m = ''distributed'' then [''mixcoord'', ''proxy'', ''querynode'', ''datanode'', ''streamingnode'']
            else [''milvus''])))"

definition set_tag_cmd :: "string \<Rightarrow> string" where
  "set_tag_cmd target = ''./milvus-onprem render --version >/dev/null 2>&1; sed -i '' @ CHR 0x27 # ''s|^MILVUS_IMAGE_TAG=.*|MILVUS_IMAGE_TAG=''
     @ target @ CHR ''|'' # CHR 0x27 # '' /repo/cluster.env''"

definition compose_cmd :: "string \<Rightarrow> string \<Rightarrow> string" where
  "compose_cmd node rest = ''docker compose --project-name '' @ node @ '' -f /repo/rendered/'' @ node @ ''/docker-compose.yml '' @ rest"

definition port_probe_cmd :: "int \<Rightarrow> string" where
  "port_probe_cmd port = ''timeout 2 bash -c '' @ CHR 0x27 # ''</dev/tcp/127.0.0.1/'' @ str_of_int port @ [CHR 0x27]"

function wait_port :: "'w sys \<Rightarrow> int \<Rightarrow> nat \<Rightarrow> ('w, unit) io" where
  "wait_port sys port elapsed =
     (if 180 \<le> elapsed then raise (RuntimeError ''milvus did not become reachable'')
      else bnd (run_repo sys (port_probe_cmd port)) (\<lambda>(rc, out, err).
        if rc = 0 then log_line (''milvus up on :'' @ str_of_int port @ '' ('' @ str_of_nat elapsed @ ''s)'')
        else bnd (sleep sys 3) (\<lambda>_. wait_port sys port (elapsed + 3))))"
  by pat_completeness auto

termination
  by (relation "measure (\<lambda>(sys, port, elapsed). 180 - elapsed)") auto

declare wait_port.simps [simp del]

definition upgrade_self :: "'w sys \<Rightarrow> string \<Rightarrow> ('w, unit) io" where
  "upgrade_self sys target =
     bnd (log_line (''updating MILVUS_IMAGE_TAG -> '' @ target @ '' in cluster.env'')) (\<lambda>_.
     bnd (run_repo sys (set_tag_cmd target)) (\<lambda>(rc, out, err).
     if rc \<noteq> 0 then raise (RuntimeError ''sed cluster.env failed'')
     else
       bnd (log_line ''re-rendering templates'') (\<lambda>_.
       bnd (run_repo sys ''./milvus-onprem render'') (\<lambda>(rc, out, err).
       if rc \<noteq> 0 then raise (RuntimeError ''render failed'')
       else
         bnd (read_kv sys ''NODE_NAME'') (\<lambda>node.
         bnd (milvus_services_of_tag sys) (\<lambda>services.
         bnd (log_line (''pulling image '' @ target @ '' for services: '' @ join_with '' '' services)) (\<lambda>_.
         bnd (run_repo sys (compose_cmd node (''pull '' @ join_with '' '' services))) (\<lambda>(rc, out, err).
         bnd (if rc \<noteq> 0 then log_line (''WARN: pull rc='' @ str_of_int rc @ '' ('' @ take 120 (strip err) @ ''); continuing'') else ret ()) (\<lambda>_.
         bnd (log_line (''recreating: '' @ join_with '' '' services)) (\<lambda>_.
         bnd (run_repo sys (compose_cmd node (''up -d --force-recreate --no-deps '' @ join_with '' '' services))) (\<lambda>(rc, out, err).
         if rc \<noteq> 0 then raise (RuntimeError ''docker compose up --force-recreate failed'')
         else
           bnd (log_line ''waiting for milvus to come back up'') (\<lambda>_.
           bnd (read_kv sys ''MILVUS_PORT'') (\<lambda>p.
           bnd (to_int (if p = [] then ''19530'' else p)) (\<lambda>port.
             wait_port sys port 0))))))))))))))"

section \<open>The rollout\<close>

definition upgrade_call :: "daemon_config \<Rightarrow> string \<Rightarrow> string \<Rightarrow> http_call" where
  "upgrade_call cfg target ip = \<lparr>hc_method = POST, hc_ip = ip, hc_port = listen_port cfg, hc_path = ''/upgrade-self'',
     hc_token = cluster_token cfg, hc_body = [(''milvus_version'', JStr target)]\<rparr>"

definition peer_log :: "obj \<Rightarrow> string list" where
  "peer_log d = (case dict_get d ''log'' of Some (JArr xs) \<Rightarrow> concat (map (\<lambda>x. case x of JStr l \<Rightarrow> [l] | _ \<Rightarrow> []) xs) | _ \<Rightarrow> [])"

text \<open>The answer of \<open>/upgrade-self\<close> and \<open>/rotate-self\<close>: an error status, a body that is not JSON and an error in
  the body all fail the worker.\<close>

definition peer_answer :: "string \<Rightarrow> http_result \<Rightarrow> ('w, unit) io" where
  "peer_answer tag r =
     (case r of
        Http_error \<Rightarrow> raise (RuntimeError ''POST failed'')
      | Http_response st b \<Rightarrow>
          if st \<noteq> 200 then raise (RuntimeError ''peer returned an error status'')
          else (case b of
                  None \<Rightarrow> raise (RuntimeError ''bad JSON'')
                | Some d \<Rightarrow>
                    bnd (fold_io (\<lambda>l _. log_line (''  ['' @ tag @ ''] '' @ l)) (peer_log d) ()) (\<lambda>_.
                      if field_true d ''error'' then raise (RuntimeError ''peer failed'') else ret ())))"

definition upgrade_remote :: "'w sys \<Rightarrow> daemon_config \<Rightarrow> string \<Rightarrow> string \<Rightarrow> ('w, unit) io" where
  "upgrade_remote sys cfg ip target =
     bnd (log_line (''POST http://'' @ ip @ '':'' @ str_of_int (listen_port cfg) @ ''/upgrade-self'')) (\<lambda>_.
     bnd (http sys (upgrade_call cfg target ip)) (peer_answer ip))"

text \<open>The leader first, then the others by number.\<close>

definition upgrade_order :: "daemon_config \<Rightarrow> peers \<Rightarrow> (string \<times> string) list" where
  "upgrade_order cfg ps = sort_key (\<lambda>p. if fst p = node_name cfg then 0 else 1 :: nat) (current_peer_ips_and_names ps)"

definition upgrade_one :: "'w sys \<Rightarrow> daemon_config \<Rightarrow> string \<Rightarrow> nat \<Rightarrow> string \<times> string \<Rightarrow> nat \<Rightarrow> ('w, nat) io" where
  "upgrade_one sys cfg target n p i =
     (let tag = ''['' @ str_of_nat (i + 1) @ ''/'' @ str_of_nat n @ ''] '' in
      bnd (log_line []) (\<lambda>_.
      bnd (log_line (tag @ ''upgrading '' @ fst p @ '' @ '' @ snd p)) (\<lambda>_.
      bnd (if fst p = node_name cfg then upgrade_self sys target else upgrade_remote sys cfg (snd p) target) (\<lambda>_.
      bnd (log_line (tag @ fst p @ '' OK'')) (\<lambda>_.
      bnd (set_progress (5/100 + 95/100 * of_nat (i + 1) / of_nat n)) (\<lambda>_. ret (i + 1)))))))"

definition write_anchor :: "'w sys \<Rightarrow> string \<Rightarrow> ('w, unit) io" where
  "write_anchor sys target =
     try_except
       (bnd (etcd_put sys CLUSTER_VERSION_KEY (Text target) None) (\<lambda>_. log_line (''updated cluster-version anchor at '' @ CLUSTER_VERSION_KEY @ '' -> '' @ target)))
       (\<lambda>e. log_line (''WARN failed to update cluster-version anchor: '' @ exn_message e))"

text \<open>The refusal of another major.minor; it applies only when both versions can be read.\<close>

definition crosses :: "string \<Rightarrow> string \<Rightarrow> bool" where
  "crosses current target \<longleftrightarrow> current \<noteq> target
     \<and> (case (major_minor current, major_minor target) of (Some c, Some t) \<Rightarrow> c \<noteq> t | _ \<Rightarrow> False)"

definition run_version_upgrade :: "'w sys \<Rightarrow> daemon_config \<Rightarrow> bool \<Rightarrow> peers \<Rightarrow> obj \<Rightarrow> ('w, unit) io" where
  "run_version_upgrade sys cfg is_leader ps params =
     (let target = or_empty (get_str params ''milvus_version'') in
      if target = [] then raise (ValueError ''version-upgrade requires a milvus_version param'')
      else if \<not> valid_version target then raise (ValueError ''invalid version'')
      else if \<not> is_leader then raise (PermissionError ''version-upgrade must run on the leader'')
      else
        bnd (read_kv sys ''MILVUS_IMAGE_TAG'') (\<lambda>tag.
        let current = (if tag = [] then ''(unknown)'' else tag) in
        bnd (log_line (''current MILVUS_IMAGE_TAG: '' @ current)) (\<lambda>_.
        bnd (log_line (''target  MILVUS_IMAGE_TAG: '' @ target)) (\<lambda>_.
        bnd (if current = target then log_line ''(already at target version - running rolling restart anyway)''
             else if current \<noteq> ''(unknown)'' \<and> crosses current target then raise (ValueError ''refusing cross-major upgrade'')
             else ret ()) (\<lambda>_.
        let order = upgrade_order cfg ps in
        bnd (log_line (''upgrade order: '' @ py_list (map fst order))) (\<lambda>_.
        bnd (set_progress (5/100)) (\<lambda>_.
        bnd (fold_io (upgrade_one sys cfg target (length order)) order 0) (\<lambda>_.
        bnd (log_line []) (\<lambda>_.
        bnd (log_line (''OK rolling upgrade to '' @ target @ '' complete on all '' @ str_of_nat (length order) @ '' peers.'')) (\<lambda>_.
          write_anchor sys target))))))))))"

section \<open>Calls\<close>

lemma bnd_value:
  assumes "\<And>s x t. m s = (Inr x, t) \<Longrightarrow> x = v"
  shows "bnd m f = bnd m (\<lambda>_. f v)"
proof
  fix s
  show "bnd m f s = bnd m (\<lambda>_. f v) s"
    using assms [of s] by (cases "m s"; cases "fst (m s)") (auto simp: bnd_def)
qed

lemma only_run_repo [only_intros]: "A (A_run (''cd /repo && '' @ c)) \<Longrightarrow> only A (run_repo sys c)"
  unfolding run_repo_def by (intro only_intros)

lemma only_read_kv [only_intros]: "A (A_read ''/repo/cluster.env'') \<Longrightarrow> only A (read_kv sys key)"
  unfolding read_kv_def by (intro only_intros)

lemma only_wait_port:
  assumes "\<And>l. A (A_log l)" "\<And>c. A (A_run c)" "\<And>d. A (A_sleep d)"
  shows "only A (wait_port sys port elapsed)"
proof (induction sys port elapsed rule: wait_port.induct)
  case (1 sys port elapsed)
  show ?case unfolding wait_port.simps [of sys port elapsed]
    by (intro only_intros assms) (auto intro: "1.IH")
qed

lemma only_upgrade_self:
  assumes "\<And>l. A (A_log l)" "\<And>c. A (A_run c)" "\<And>d. A (A_sleep d)" "A (A_read ''/repo/cluster.env'')"
  shows "only A (upgrade_self sys target)"
  unfolding upgrade_self_def milvus_services_of_tag_def
  by (intro only_intros only_wait_port assms)

lemma only_peer_answer:
  assumes "\<And>l. A (A_log l)"
  shows "only A (peer_answer tag r)"
  unfolding peer_answer_def by (cases r) (auto intro!: only_intros assms split: option.split)

lemma upgrade_call_POST [simp]: "hc_method (upgrade_call cfg target ip) = POST"
  by (simp add: upgrade_call_def)

text \<open>An answer that lets the worker go on.\<close>

definition peer_ok :: "http_result \<Rightarrow> bool" where
  "peer_ok r \<longleftrightarrow> (\<exists>d. r = Http_response 200 (Some d) \<and> \<not> field_true d ''error'')"

lemma peer_answer_ok: "\<not> peer_ok r \<Longrightarrow> never_ok (peer_answer tag r)"
  unfolding peer_answer_def peer_ok_def
  by (auto intro!: never_ok_raise never_ok_bnd split: http_result.split option.split)

section \<open>Properties\<close>

text \<open>A version with another major.minor is refused before anything happens: when both versions can be read
  and differ there, the worker fails having only read settings and written its log.\<close>

theorem cross_minor_refused:
  assumes "\<And>w. map_option (\<lambda>text. or_empty (text_value ''MILVUS_IMAGE_TAG'' text)) (fst (sys_read sys ''/repo/cluster.env'' w)) = Some tag"
    and "major_minor tag = Some c" and "major_minor (or_empty (get_str params ''milvus_version'')) = Some d" and "c \<noteq> d"
  shows "only (\<lambda>a. (\<exists>l. a = A_log l) \<or> a = A_read ''/repo/cluster.env'') (run_version_upgrade sys cfg is_leader ps params)
    \<and> (\<exists>e t. run_version_upgrade sys cfg is_leader ps params s = (Inl e, t))"
proof -
  let ?A = "\<lambda>a. (\<exists>l. a = A_log l) \<or> a = A_read ''/repo/cluster.env''"
  let ?target = "or_empty (get_str params ''milvus_version'')"
  have tag: "tag \<noteq> []" "tag \<noteq> ''(unknown)''" "tag \<noteq> ?target"
    using assms(2-4) by (auto simp: major_minor_def startswith_def is_digit_def ord_chr_def)
  have cr: "crosses tag ?target" using assms(2-4) tag by (simp add: crosses_def)
  have kv: "read_kv sys ''MILVUS_IMAGE_TAG'' s = (Inr v, t) \<Longrightarrow> v = tag" for s v t
    using assms(1) [of "st_world s"]
    by (auto simp: read_kv_def bnd_def read_file_def call_def ret_def split: option.splits)
  have known: "bnd (read_kv sys ''MILVUS_IMAGE_TAG'') f = bnd (read_kv sys ''MILVUS_IMAGE_TAG'') (\<lambda>_. f tag)" for f :: "string \<Rightarrow> ('a, unit) io"
    by (rule bnd_value) (rule kv)
  have stop: "(if tag = ?target then log_line m1
             else if tag \<noteq> ''(unknown)'' \<and> crosses tag ?target then raise (ValueError m2) else ret ()) = raise (ValueError m2)" for m1 m2
    using tag cr by simp
  have t0: "(if tag = [] then ''(unknown)'' else tag) = tag" using tag by simp
  have a: "only ?A (run_version_upgrade sys cfg is_leader ps params)"
    unfolding run_version_upgrade_def Let_def
    by (intro only_if only_raise, subst known, unfold t0 stop, rule only_bnd, (intro only_read_kv, simp), rule only_bnd,
        (intro only_log, simp), rule only_bnd, (intro only_log, simp), rule only_bnd_never [OF only_raise never_ok_raise])
  have b: "never_ok (run_version_upgrade sys cfg is_leader ps params)"
    unfolding run_version_upgrade_def Let_def
    by (intro never_ok_if never_ok_raise, subst known, unfold t0 stop, rule never_ok_bnd, rule never_ok_bnd, rule never_ok_bnd,
        rule never_ok_fail [OF never_ok_raise])
  show ?thesis using a b unfolding never_ok_def
    by (cases "run_version_upgrade sys cfg is_leader ps params s"; cases "fst (run_version_upgrade sys cfg is_leader ps params s)") auto
qed

definition tagged_sys :: "world sys" where
  "tagged_sys = mem_sys\<lparr>sys_read := (\<lambda>f w. (Some (''MILVUS_IMAGE_TAG=v2.5.4'' @ [nl]), w))\<rparr>"

definition upgrade_params :: "string \<Rightarrow> obj" where
  "upgrade_params v = [(''milvus_version'', JStr v)]"

theorem cross_minor_refused_witness:
  "\<exists>e t. run_version_upgrade tagged_sys quiet_cfg True trio (upgrade_params ''v2.6.0'') (start two_nodes) = (Inl e, t)"
proof -
  have "or_empty (text_value ''MILVUS_IMAGE_TAG'' (''MILVUS_IMAGE_TAG=v2.5.4'' @ [nl])) = ''v2.5.4''" by code_simp
  then have r: "map_option (\<lambda>text. or_empty (text_value ''MILVUS_IMAGE_TAG'' text)) (fst (sys_read tagged_sys ''/repo/cluster.env'' w)) = Some ''v2.5.4''" for w
    by (simp add: tagged_sys_def)
  have m: "major_minor ''v2.5.4'' = Some ''2.5''" "major_minor (or_empty (get_str (upgrade_params ''v2.6.0'') ''milvus_version'')) = Some ''2.6''"
    "''2.5'' \<noteq> ''2.6''" by code_simp+
  from cross_minor_refused [OF r m] show ?thesis by blast
qed

section \<open>The rollout in order\<close>

lemma upgrade_order_others:
  "filter (\<lambda>p. fst p \<noteq> node_name cfg) (upgrade_order cfg ps) = filter (\<lambda>p. fst p \<noteq> node_name cfg) (current_peer_ips_and_names ps)"
proof -
  let ?f = "\<lambda>p. if fst p = node_name cfg then 0 else 1 :: nat"
  have eq: "(\<lambda>p :: string \<times> string. fst p \<noteq> node_name cfg) = (\<lambda>p. ?f p = 1)" by auto
  show ?thesis unfolding upgrade_order_def eq by (rule sort_key_stable)
qed

lemma sends_upgrade_one:
  "sends (upgrade_one sys cfg target n p i)
     (if fst p = node_name cfg then [] else [A_http (upgrade_call cfg target (snd p))])"
proof -
  have self: "only (\<lambda>a. \<not> posts a) (upgrade_self sys target)" by (intro only_upgrade_self) simp_all
  have remote: "sends (upgrade_remote sys cfg (snd p) target) ([A_http (upgrade_call cfg target (snd p))] @ [])"
    unfolding upgrade_remote_def
    by (rule sends_quiet_bnd, (intro only_log, simp), rule sends_bnd [OF sends_post sends_only], simp, intro only_peer_answer) simp
  let ?cs = "if fst p = node_name cfg then [] else [A_http (upgrade_call cfg target (snd p))]"
  have mid: "sends (if fst p = node_name cfg then upgrade_self sys target else upgrade_remote sys cfg (snd p) target) ?cs"
    using sends_only [OF self] remote by simp
  have "sends (upgrade_one sys cfg target n p i) (?cs @ [])"
    unfolding upgrade_one_def Let_def
    by (rule sends_quiet_bnd, (intro only_log, simp), rule sends_quiet_bnd, (intro only_log, simp), rule sends_bnd [OF mid],
        rule sends_only, intro only_bnd only_log only_progress only_ret) simp_all
  then show ?thesis by simp
qed

lemma sends_rollout:
  "sends (fold_io (upgrade_one sys cfg target n) ps i)
     (map (\<lambda>p. A_http (upgrade_call cfg target (snd p))) (filter (\<lambda>p. fst p \<noteq> node_name cfg) ps))"
proof (induction ps arbitrary: i)
  case Nil
  show ?case unfolding fold_io.simps by (simp add: sends_only only_ret)
next
  case (Cons p ps)
  have "sends (fold_io (upgrade_one sys cfg target n) (p # ps) i)
      ((if fst p = node_name cfg then [] else [A_http (upgrade_call cfg target (snd p))])
       @ map (\<lambda>p. A_http (upgrade_call cfg target (snd p))) (filter (\<lambda>p. fst p \<noteq> node_name cfg) ps))"
    unfolding fold_io.simps by (rule sends_bnd [OF sends_upgrade_one Cons])
  then show ?case by (simp split: if_splits)
qed

lemma write_anchor_posts: "only (\<lambda>a. \<not> posts a) (write_anchor sys target)"
  unfolding write_anchor_def by (intro only_intros) simp_all

lemma rollout_sends:
  assumes "run_version_upgrade sys cfg is_leader ps params s = (Inr (), t)"
  shows "is_leader \<and> (\<exists>acts. st_trace t = st_trace s @ acts
    \<and> changes acts = map (\<lambda>p. A_http (upgrade_call cfg (or_empty (get_str params ''milvus_version'')) (snd p)))
        (filter (\<lambda>p. fst p \<noteq> node_name cfg) (current_peer_ips_and_names ps)))"
proof -
  let ?target = "or_empty (get_str params ''milvus_version'')"
  let ?cs = "map (\<lambda>p. A_http (upgrade_call cfg ?target (snd p))) (filter (\<lambda>p. fst p \<noteq> node_name cfg) (current_peer_ips_and_names ps))"
  have roll: "sends (fold_io (upgrade_one sys cfg ?target n) (upgrade_order cfg ps) 0) ?cs" for n
    using sends_rollout [of sys cfg ?target n "upgrade_order cfg ps" 0] unfolding upgrade_order_others .
  have raises: "sends (raise e) cs" for e and cs by (simp add: sends_def raise_def)
  have ifs: "sends m cs \<Longrightarrow> sends m' cs \<Longrightarrow> sends (if b then m else m') cs" for b m m' cs by simp
  have tail: "sends (bnd (log_line a) (\<lambda>_. bnd (log_line b) (\<lambda>_. write_anchor sys ?target))) []" for a b
    by (rule sends_only, intro only_bnd only_log write_anchor_posts) simp_all
  have "sends (run_version_upgrade sys cfg is_leader ps params) (?cs @ [])"
    unfolding run_version_upgrade_def Let_def
    by (intro ifs raises, rule sends_quiet_bnd, (intro only_read_kv, simp), rule sends_quiet_bnd, (intro only_log, simp),
        rule sends_quiet_bnd, (intro only_log, simp), rule sends_quiet_bnd, (intro only_if only_log only_raise only_ret, simp),
        rule sends_quiet_bnd, (intro only_log, simp), rule sends_quiet_bnd, (intro only_progress, simp),
        rule sends_bnd [OF roll tail])
  with assms have "\<exists>acts. st_trace t = st_trace s @ acts \<and> changes acts = ?cs" unfolding sends_def by auto
  moreover have "is_leader" using assms by (auto simp: run_version_upgrade_def Let_def raise_def split: if_splits)
  ultimately show ?thesis by blast
qed

text \<open>A rollout that succeeds asked every follower of the topology exactly once, in numeric order.\<close>

theorem rollout_in_order:
  assumes "run_version_upgrade sys cfg is_leader ps params s = (Inr (), t)"
  shows "is_leader \<and> (\<exists>acts. st_trace t = st_trace s @ acts
    \<and> changes acts = map (\<lambda>p. A_http (upgrade_call cfg (or_empty (get_str params ''milvus_version'')) (snd p)))
        (filter (\<lambda>p. fst p \<noteq> node_name cfg) (current_peer_ips_and_names ps)))"
  using assms by (rule rollout_sends)

definition upgrade_world :: world where
  "upgrade_world = two_nodes\<lparr>w_files := [(''/repo/cluster.env'', ''MILVUS_IMAGE_TAG=v2.5.4'' @ [nl] @ ''MILVUS_PORT=9'' @ [nl])],
     w_https := [Http_response 200 (Some []), Http_response 200 (Some [])]\<rparr>"

definition near_cfg :: daemon_config where
  "near_cfg = quiet_cfg\<lparr>listen_port := 9\<rparr>"

definition duo :: peers where
  "duo = [(''node-1'', node_entry ''10.0.0.1''), (''node-2'', node_entry ''10.0.0.2'')]"

theorem rollout_in_order_witness:
  "\<exists>t acts. run_version_upgrade mem_sys near_cfg True duo (upgrade_params ''v2.5.5'') (start upgrade_world) = (Inr (), t)
     \<and> st_trace t = st_trace (start upgrade_world) @ acts
     \<and> changes acts = [A_http (upgrade_call near_cfg ''v2.5.5'' ''10.0.0.2'')]"
proof -
  let ?r = "run_version_upgrade mem_sys near_cfg True duo (upgrade_params ''v2.5.5'') (start upgrade_world)"
  have "fst ?r = Inr ()" by code_simp
  then have r: "?r = (Inr (), snd ?r)" by (rule result_of)
  have v: "or_empty (get_str (upgrade_params ''v2.5.5'') ''milvus_version'') = ''v2.5.5''" by code_simp
  have "map snd (filter (\<lambda>p. fst p \<noteq> node_name near_cfg) (current_peer_ips_and_names duo)) = [''10.0.0.2'']" by code_simp
  then have m: "map (\<lambda>p. A_http (upgrade_call near_cfg ''v2.5.5'' (snd p))) (filter (\<lambda>p. fst p \<noteq> node_name near_cfg) (current_peer_ips_and_names duo))
      = [A_http (upgrade_call near_cfg ''v2.5.5'' ''10.0.0.2'')]"
    by (auto simp: map_eq_Cons_conv)
  from rollout_in_order [OF r] r show ?thesis unfolding v m by blast
qed

lemma never_ok_fold:
  assumes "x \<in> set xs" "\<And>b. never_ok (f x b)"
  shows "never_ok (fold_io f xs b)"
  using assms(1)
proof (induction xs arbitrary: b)
  case (Cons y ys)
  show ?case
  proof (cases "y = x")
    case True
    then show ?thesis using assms(2) by (simp add: never_ok_fail)
  next
    case False
    then show ?thesis using Cons by (simp add: never_ok_bnd)
  qed
qed simp

definition writes_key :: "act \<Rightarrow> bool" where
  "writes_key a \<longleftrightarrow> (\<exists>k v l. a = A_etcd (Put k v l))"

text \<open>C12. The version anchor moves only when every peer has confirmed: as long as some follower of the topology
  does not answer its upgrade request with success, the rollout fails and writes no key in etcd.\<close>

theorem anchor_waits_for_every_peer:
  assumes "(n, ip) \<in> set (current_peer_ips_and_names ps)" and "n \<noteq> node_name cfg"
    and "\<And>w. \<not> peer_ok (fst (sys_http sys (upgrade_call cfg (or_empty (get_str params ''milvus_version'')) ip) w))"
  shows "only (\<lambda>a. \<not> writes_key a) (run_version_upgrade sys cfg is_leader ps params)
    \<and> (\<exists>e t. run_version_upgrade sys cfg is_leader ps params s = (Inl e, t))"
proof -
  let ?target = "or_empty (get_str params ''milvus_version'')"
  let ?roll = "\<lambda>k. fold_io (upgrade_one sys cfg ?target k) (upgrade_order cfg ps) 0"
  have call: "never_ok (bnd (http sys (upgrade_call cfg ?target ip)) (peer_answer ip))"
  proof (rule never_ok_bnd_if)
    fix s r t
    assume "http sys (upgrade_call cfg ?target ip) s = (Inr r, t)"
    then have "\<not> peer_ok r" using assms(3) [of "st_world s"] by (auto simp: http_def call_def)
    then show "never_ok (peer_answer ip r)" by (rule peer_answer_ok)
  qed
  have one: "never_ok (upgrade_one sys cfg ?target k (n, ip) i)" for k i
    unfolding upgrade_one_def Let_def upgrade_remote_def
    by (rule never_ok_bnd, rule never_ok_bnd, rule never_ok_fail) (use assms(2) call in \<open>simp add: never_ok_bnd\<close>)
  have "(n, ip) \<in> set (upgrade_order cfg ps)" using assms(1) by (simp add: upgrade_order_def)
  then have roll: "never_ok (?roll k)" for k by (rule never_ok_fold) (rule one)
  have ow: "only (\<lambda>a. \<not> writes_key a) (?roll k)" for k
    unfolding upgrade_one_def upgrade_remote_def Let_def
    by (intro only_fold only_bnd only_log only_if only_upgrade_self only_http only_peer_answer only_progress only_ret)
      (simp_all add: writes_key_def)
  have a: "only (\<lambda>a. \<not> writes_key a) (run_version_upgrade sys cfg is_leader ps params)"
    unfolding run_version_upgrade_def Let_def
    by (intro only_if only_raise only_bnd_never [OF ow roll] only_bnd only_read_kv only_log only_ret only_progress)
      (simp_all add: writes_key_def)
  have b: "never_ok (run_version_upgrade sys cfg is_leader ps params)"
    unfolding run_version_upgrade_def Let_def
    by (intro never_ok_if never_ok_raise) (rule never_ok_bnd, rule never_ok_bnd, rule never_ok_bnd, rule never_ok_bnd,
        rule never_ok_bnd, rule never_ok_bnd, rule never_ok_fail [OF roll])
  show ?thesis using a b unfolding never_ok_def
    by (cases "run_version_upgrade sys cfg is_leader ps params s"; cases "fst (run_version_upgrade sys cfg is_leader ps params s)") auto
qed

definition deaf_sys :: "world sys" where
  "deaf_sys = mem_sys\<lparr>sys_http := (\<lambda>c w. (Http_error, w))\<rparr>"

theorem anchor_waits_for_every_peer_witness:
  "only (\<lambda>a. \<not> writes_key a) (run_version_upgrade deaf_sys quiet_cfg True trio (upgrade_params ''v2.5.5''))"
proof -
  have m: "(''node-2'', ''10.0.0.2'') \<in> set (current_peer_ips_and_names trio)" "''node-2'' \<noteq> node_name quiet_cfg" by code_simp+
  have f: "\<not> peer_ok (fst (sys_http deaf_sys c w))" for c w by (simp add: deaf_sys_def peer_ok_def)
  from anchor_waits_for_every_peer [OF m f] show ?thesis by blast
qed

section \<open>Progress\<close>

lemma climbs_rollout:
  "i + length ps = n \<Longrightarrow> climbs (5/100 + 95/100 * of_nat i / of_nat n) 1 (fold_io (upgrade_one sys cfg target n) ps i)"
proof (induction ps arbitrary: i)
  case Nil
  then have "(of_nat i :: rat) / of_nat n \<le> 1" by (cases "n = 0") simp_all
  then show ?case unfolding fold_io.simps by (intro climbs_silent only_ret) linarith
next
  case (Cons p ps)
  let ?v = "\<lambda>i. 5/100 + 95/100 * (of_nat i :: rat) / of_nat n"
  have v: "?v i \<le> ?v (i + 1)" by (simp add: divide_right_mono)
  have IH: "climbs (?v (i + 1)) 1 (fold_io (upgrade_one sys cfg target n) ps (i + 1))"
    by (rule Cons.IH) (use Cons.prems in simp)
  have work: "only silent (if fst p = node_name cfg then upgrade_self sys target else upgrade_remote sys cfg (snd p) target)"
    unfolding upgrade_remote_def by (intro only_if only_upgrade_self only_bnd only_log only_http only_peer_answer) simp_all
  have ret: "bnd (ret x) f = f x" for x and f :: "nat \<Rightarrow> ('a, nat) io" by (simp add: bnd_def ret_def)
  show ?case
    unfolding fold_io.simps upgrade_one_def [of sys cfg target n p i] Let_def bnd_assoc ret
    by (rule climbs_quiet_bnd, (intro only_log, simp), rule climbs_quiet_bnd, (intro only_log, simp), rule climbs_quiet_bnd [OF work],
        rule climbs_quiet_bnd, (intro only_log, simp), rule climbs_set_bnd [OF v], rule IH)
qed

lemma climbs_version_upgrade: "climbs 0 1 (run_version_upgrade sys cfg is_leader ps params)"
proof -
  let ?target = "or_empty (get_str params ''milvus_version'')" and ?n = "length (upgrade_order cfg ps)"
  have roll: "climbs (5/100) 1 (fold_io (upgrade_one sys cfg ?target ?n) (upgrade_order cfg ps) 0)"
    using climbs_rollout [of 0 "upgrade_order cfg ps" ?n sys cfg ?target] by simp
  have anchor: "only silent (write_anchor sys ?target)" unfolding write_anchor_def by (intro only_intros) simp_all
  have tail: "climbs 1 1 (bnd (log_line a) (\<lambda>_. bnd (log_line b) (\<lambda>_. write_anchor sys ?target)))" for a b
    by (intro climbs_silent only_bnd only_log anchor) simp_all
  show ?thesis unfolding run_version_upgrade_def Let_def
    by (intro climbs_if climbs_raise, simp, simp, simp, rule climbs_quiet_bnd, (intro only_read_kv, simp),
        rule climbs_quiet_bnd, (intro only_log, simp), rule climbs_quiet_bnd, (intro only_log, simp),
        rule climbs_quiet_bnd, (intro only_if only_log only_raise only_ret, simp), rule climbs_quiet_bnd, (intro only_log, simp),
        rule climbs_set_bnd, simp, rule climbs_bnd [OF roll tail])
qed

end
