(* ===== verification/Rotate_Token.thy ===== *)
theory Rotate_Token
  imports Version_Upgrade
begin

text \<open>
  \<open>src/daemon/workers/rotate_token.py\<close>: the rotation of the cluster token. The leader asks every follower in
  parallel, with the old token as credential, to write the new one, and rotates itself when all have
  answered; \<open>rotate_self\<close> is the local procedure, also behind \<open>/rotate-self\<close>. The requests of the fan-out
  are sent in the order of a schedule, an argument, each with its answer. The value of the environment
  variable \<open>MILVUS_ONPREM_IMAGE\<close> is an argument.
\<close>

definition sidecar_cmd :: "string \<Rightarrow> string" where
  "sidecar_cmd node = ''sleep 5 && docker compose --project-name '' @ node @ '' -f /repo/rendered/'' @ node
     @ ''/docker-compose.yml up -d --force-recreate --no-deps control-plane''"

definition spawn_cmd :: "string \<Rightarrow> string \<Rightarrow> string \<Rightarrow> string" where
  "spawn_cmd node host_root img =
     ''docker run -d --rm --name milvus-onprem-cp-recreate-'' @ node
     @ '' --network=host -v /var/run/docker.sock:/var/run/docker.sock -v '' @ host_root @ '':/repo --entrypoint /bin/sh ''
     @ img @ '' -c '' @ shlex_quote (sidecar_cmd node) @ '' >/tmp/rotate-recreate-sidecar.id 2>&1''"

definition rotate_self :: "'w sys \<Rightarrow> string option \<Rightarrow> string \<Rightarrow> ('w, unit) io" where
  "rotate_self sys img new_token =
     bnd (log_line ''updating CLUSTER_TOKEN in cluster.env'') (\<lambda>_.
     bnd (upsert_kv sys ''/repo/cluster.env'' ''CLUSTER_TOKEN'' new_token) (\<lambda>_.
     bnd (log_line ''re-rendering templates'') (\<lambda>_.
     bnd (run_repo sys ''./milvus-onprem render'') (\<lambda>(rc, out, err).
     if rc \<noteq> 0 then raise (RuntimeError ''render failed'')
     else
       bnd (read_kv sys ''NODE_NAME'') (\<lambda>node.
       if node = [] then raise (RuntimeError ''rotate-self: NODE_NAME missing from cluster.env after render'')
       else
         bnd (read_file sys (''/repo/rendered/'' @ node @ ''/docker-compose.yml'')) (\<lambda>compose.
         if compose = None then raise (RuntimeError ''rotate-self: rendered compose missing'')
         else
           bnd (read_kv sys ''HOST_REPO_ROOT'') (\<lambda>root.
           bnd (log_line ''spawning sidecar to recreate self in 5s'') (\<lambda>_.
           bnd (run_repo sys (spawn_cmd node (if root = [] then ''/repo'' else root)
                  (case img of Some i \<Rightarrow> i | None \<Rightarrow> ''milvus-onprem-cp:dev''))) (\<lambda>(rc, out, err).
             if rc \<noteq> 0 then raise (RuntimeError ''could not spawn recreate sidecar'') else ret ())))))))))"

definition rotate_call :: "daemon_config \<Rightarrow> string \<Rightarrow> string \<Rightarrow> http_call" where
  "rotate_call cfg new_token ip = \<lparr>hc_method = POST, hc_ip = ip, hc_port = listen_port cfg, hc_path = ''/rotate-self'',
     hc_token = cluster_token cfg, hc_body = [(''new_token'', JStr new_token)]\<rparr>"

definition rotate_remote :: "'w sys \<Rightarrow> daemon_config \<Rightarrow> string \<times> string \<Rightarrow> string \<Rightarrow> ('w, unit) io" where
  "rotate_remote sys cfg p new_token =
     bnd (log_line (''  ['' @ fst p @ ''] POST http://'' @ snd p @ '':'' @ str_of_int (listen_port cfg) @ ''/rotate-self'')) (\<lambda>_.
     bnd (http sys (rotate_call cfg new_token (snd p))) (peer_answer (fst p)))"

text \<open>One task of the fan-out: its exception is kept with the peer's name.\<close>

definition rotate_task :: "'w sys \<Rightarrow> daemon_config \<Rightarrow> string \<Rightarrow> string \<times> string \<Rightarrow> (string \<times> exn) list \<Rightarrow> ('w, (string \<times> exn) list) io" where
  "rotate_task sys cfg new_token p failures =
     try_except (bnd (rotate_remote sys cfg p new_token) (\<lambda>_. ret failures)) (\<lambda>e. ret (failures @ [(fst p, e)]))"

definition rotate_followers :: "'w sys \<Rightarrow> daemon_config \<Rightarrow> string \<Rightarrow> (string \<times> string) list \<Rightarrow> ('w, unit) io" where
  "rotate_followers sys cfg new_token fs =
     bnd (log_line []) (\<lambda>_.
     bnd (log_line ''==> rotating followers (parallel)'') (\<lambda>_.
     bnd (fold_io (rotate_task sys cfg new_token) fs []) (\<lambda>failures.
       if failures \<noteq> [] then
         bnd (fold_io (\<lambda>f _. log_line (''  ['' @ fst f @ ''] FAILED: '' @ exn_message (snd f))) failures ()) (\<lambda>_.
           raise (RuntimeError ''follower(s) failed to rotate; cluster left half-rotated''))
       else log_line (''  all '' @ str_of_nat (length fs) @ '' follower(s) rotated''))))"

text \<open>Everyone with an address but the leader, by name.\<close>

definition rotate_targets :: "daemon_config \<Rightarrow> peers \<Rightarrow> (string \<times> string) list" where
  "rotate_targets cfg ps = filter (\<lambda>(n, ip). n \<noteq> node_name cfg) (current_peer_ips_and_names ps)"

definition run_rotate_token :: "'w sys \<Rightarrow> daemon_config \<Rightarrow> bool \<Rightarrow> peers \<Rightarrow> string option
    \<Rightarrow> ((string \<times> string) list \<Rightarrow> (string \<times> string) list) \<Rightarrow> obj \<Rightarrow> ('w, unit) io" where
  "run_rotate_token sys cfg is_leader ps img schedule params =
     (let new_token = or_empty (get_str params ''new_token'') in
      if length new_token < 32 then raise (ValueError ''rotate-token requires new_token param of >= 32 chars'')
      else if \<not> is_leader then raise (PermissionError ''rotate-token must run on the leader'')
      else
        (let fs = rotate_targets cfg ps; n = length (current_peer_ips_and_names ps) in
         bnd (log_line (''rotating CLUSTER_TOKEN across '' @ str_of_nat n @ '' peer(s)'')) (\<lambda>_.
         bnd (log_line (''leader: '' @ node_name cfg @ ''; followers: '' @ py_list (map fst fs))) (\<lambda>_.
         bnd (set_progress (5/100)) (\<lambda>_.
         bnd (if fs = [] then ret () else rotate_followers sys cfg new_token (schedule fs)) (\<lambda>_.
         bnd (set_progress (85/100)) (\<lambda>_.
         bnd (log_line []) (\<lambda>_.
         bnd (log_line (''==> rotating leader ('' @ node_name cfg @ '')'')) (\<lambda>_.
         bnd (rotate_self sys img new_token) (\<lambda>_.
         bnd (set_progress 1) (\<lambda>_.
         bnd (log_line []) (\<lambda>_.
           log_line (''OK rotation complete on all '' @ str_of_nat n @ '' peer(s). Daemons will recreate with the new token in ~5s.'')))))))))))))"

section \<open>Calls\<close>

lemma rotate_call_POST [simp]: "hc_method (rotate_call cfg tk ip) = POST"
  by (simp add: rotate_call_def)

text \<open>What changes this peer itself: its files and its containers.\<close>

definition local_change :: "act \<Rightarrow> bool" where
  "local_change a \<longleftrightarrow> (\<exists>p c. a = A_write p c) \<or> (\<exists>c. a = A_run c)"

lemma local_change_simps [simp]:
  "\<not> local_change (A_log l)" "\<not> local_change (A_progress p)" "\<not> local_change (A_http h)" "\<not> local_change (A_read f)"
  by (simp_all add: local_change_def)

lemma only_rotate_self:
  assumes "\<And>l. A (A_log l)" "\<And>f. A (A_read f)" "\<And>p c. A (A_write p c)" "\<And>c. A (A_run c)"
  shows "only A (rotate_self sys img new_token)"
  unfolding rotate_self_def
  by (intro only_intros only_upsert assms)

lemma only_rotate_followers:
  assumes "\<And>l. A (A_log l)" "\<And>h. A (A_http h)"
  shows "only A (rotate_followers sys cfg new_token fs)"
  unfolding rotate_followers_def rotate_task_def rotate_remote_def
  by (intro only_intros only_peer_answer assms)

section \<open>Properties\<close>

text \<open>C33. The leader is the last to change: however a rotation ends, it first only sends requests and logs, and
  once it has touched its own files or containers it sends no request any more.\<close>

theorem leader_rotates_last:
  "in_stages [\<lambda>a. \<not> local_change a, \<lambda>a. \<not> posts a] (run_rotate_token sys cfg is_leader ps img schedule params)"
proof -
  let ?A = "\<lambda>a. \<not> local_change a" and ?B = "\<lambda>a. \<not> posts a"
  have self: "only ?B (bnd (rotate_self sys img tk) (\<lambda>_. bnd (set_progress 1) (\<lambda>_. bnd (log_line a) (\<lambda>_. log_line b))))" for tk a b
    by (intro only_bnd only_rotate_self only_progress only_log) simp_all
  have fan: "only ?A (if c then ret () else rotate_followers sys cfg tk fs)" for c tk fs
    by (intro only_if only_ret only_rotate_followers) simp_all
  show ?thesis
    unfolding run_rotate_token_def Let_def
    by (intro stages_if stages_only [OF only_raise], rule stages_bnd, (intro only_log, simp), rule stages_bnd, (intro only_log, simp),
        rule stages_bnd, (intro only_progress, simp), rule stages_bnd [OF fan], rule stages_bnd, (intro only_progress, simp),
        rule stages_bnd, (intro only_log, simp), rule stages_bnd, (intro only_log, simp), rule stages_next, rule stages_only [OF self])
qed

text \<open>The rotation asks the peers of the watcher's mirror and no one else: a peer whose address is not in
  the mirror is never told the new token, and no failure is reported for it.\<close>

lemma rotate_targets_ip:
  "p \<in> set (rotate_targets cfg ps) \<Longrightarrow> Option.bind (dict_get ps (fst p)) ip_of = Some (snd p)"
  by (auto simp: rotate_targets_def current_peer_ips_and_names_def truthy_def or_empty_def
      split: option.splits)

lemma rotation_asks_only_mirror:
  assumes "\<And>fs. set (schedule fs) = set fs"
    and "\<And>n. Option.bind (dict_get ps n) ip_of \<noteq> Some ip"
  shows "only (\<lambda>a. \<forall>h. a = A_http h \<longrightarrow> hc_ip h \<noteq> ip) (run_rotate_token sys cfg is_leader ps img schedule params)"
proof -
  let ?A = "\<lambda>a. \<forall>h. a = A_http h \<longrightarrow> hc_ip h \<noteq> ip"
  have task: "only ?A (rotate_task sys cfg tk p failures)" if "p \<in> set (schedule (rotate_targets cfg ps))" for tk p failures
    using that assms(2) [of "fst p"] rotate_targets_ip [of p cfg ps] unfolding rotate_task_def rotate_remote_def
    by (intro only_intros only_peer_answer) (auto simp: assms(1) rotate_call_def)
  have fan: "only ?A (rotate_followers sys cfg tk (schedule (rotate_targets cfg ps)))" for tk
    unfolding rotate_followers_def by (intro only_intros task) auto
  show ?thesis
    unfolding run_rotate_token_def Let_def
    by (intro only_intros fan only_rotate_self) auto
qed

text \<open>A follower that fails is on the list of failures.\<close>

lemma rotate_fold_fails:
  assumes "p \<in> set fs" and "\<And>w. \<not> peer_ok (fst (sys_http sys (rotate_call cfg tk (snd p)) w))"
  shows "wp (fold_io (rotate_task sys cfg tk) fs []) (\<lambda>failures _. failures \<noteq> []) (\<lambda>_ _. True) s"
proof -
  have call: "never_ok (rotate_remote sys cfg p tk)"
    unfolding rotate_remote_def
  proof (rule never_ok_bnd, rule never_ok_bnd_if)
    fix s r t
    assume "http sys (rotate_call cfg tk (snd p)) s = (Inr r, t)"
    then have "\<not> peer_ok r" using assms(2) [of "st_world s"] by (auto simp: http_def call_def)
    then show "never_ok (peer_answer (fst p) r)" by (rule peer_answer_ok)
  qed
  have task: "wp (rotate_task sys cfg tk q fl) (\<lambda>fl' _. (fl \<noteq> [] \<or> q = p) \<longrightarrow> fl' \<noteq> []) (\<lambda>_ _. True) s" for q fl s
  proof (cases "rotate_remote sys cfg q tk s")
    case (Pair r t)
    with call show ?thesis
      by (cases r) (auto simp: rotate_task_def wp_def try_except_def bnd_def ret_def never_ok_def)
  qed
  have "wp (fold_io (rotate_task sys cfg tk) fs []) (\<lambda>fl _. fl \<noteq> [] \<or> p \<in> set []) (\<lambda>_ _. True) s"
  proof (rule wp_fold_io [where I = "\<lambda>xs fl _. fl \<noteq> [] \<or> p \<in> set xs"])
    fix x ys and fl :: "(string \<times> exn) list" and s
    assume "fl \<noteq> [] \<or> p \<in> set (x # ys)"
    then show "wp (rotate_task sys cfg tk x fl) (\<lambda>fl _. fl \<noteq> [] \<or> p \<in> set ys) (\<lambda>_ _. True) s"
      by (intro wp_mono [OF task]) auto
  qed (use assms(1) in simp)
  then show ?thesis by simp
qed

lemma rotation_blocked:
  assumes "p \<in> set (rotate_targets cfg ps)" and "set (schedule (rotate_targets cfg ps)) = set (rotate_targets cfg ps)"
    and "\<And>w. \<not> peer_ok (fst (sys_http sys (rotate_call cfg (or_empty (get_str params ''new_token'')) (snd p)) w))"
  shows "only (\<lambda>a. \<not> local_change a) (run_rotate_token sys cfg is_leader ps img schedule params)
    \<and> (\<exists>e t. run_rotate_token sys cfg is_leader ps img schedule params s = (Inl e, t))"
proof -
  let ?tk = "or_empty (get_str params ''new_token'')" and ?fs = "rotate_targets cfg ps"
  have p: "p \<in> set (schedule ?fs)" using assms(1,2) by simp
  have "wp (bnd (fold_io (rotate_task sys cfg ?tk) (schedule ?fs) []) (\<lambda>failures. if failures \<noteq> [] then bnd (g failures) (\<lambda>_. raise e) else h))
      (\<lambda>_ _. False) (\<lambda>_ _. True) s" for g :: "(string \<times> exn) list \<Rightarrow> ('a, unit) io" and e and h :: "('a, unit) io" and s
    by (subst wp_bnd, rule wp_mono [OF rotate_fold_fails [OF p assms(3)]]) (simp, subst wp_bnd, rule wp_all, simp_all add: wp_raise)
  then have "never_ok (bnd (fold_io (rotate_task sys cfg ?tk) (schedule ?fs) [])
      (\<lambda>failures. if failures \<noteq> [] then bnd (g failures) (\<lambda>_. raise e) else h))"
    for g :: "(string \<times> exn) list \<Rightarrow> ('a, unit) io" and e and h :: "('a, unit) io"
    unfolding never_ok_def by (blast dest: wp_D_ok)
  then have fan: "never_ok (rotate_followers sys cfg ?tk (schedule ?fs))"
    unfolding rotate_followers_def by (rule never_ok_bnd [OF never_ok_bnd])
  have ne: "?fs \<noteq> []" using assms(1) by auto
  have fan': "never_ok (if ?fs = [] then ret () else rotate_followers sys cfg ?tk (schedule ?fs))"
    "only (\<lambda>a. \<not> local_change a) (if ?fs = [] then ret () else rotate_followers sys cfg ?tk (schedule ?fs))"
    using ne fan by (simp_all add: only_rotate_followers)
  have a: "only (\<lambda>a. \<not> local_change a) (run_rotate_token sys cfg is_leader ps img schedule params)"
    unfolding run_rotate_token_def Let_def
    by (intro only_if only_raise, rule only_bnd, (intro only_log, simp), rule only_bnd, (intro only_log, simp),
        rule only_bnd, (intro only_progress, simp), rule only_bnd_never [OF fan'(2,1)])
  have b: "never_ok (run_rotate_token sys cfg is_leader ps img schedule params)"
    unfolding run_rotate_token_def Let_def
    by (intro never_ok_if never_ok_raise) (rule never_ok_bnd, rule never_ok_bnd, rule never_ok_bnd, rule never_ok_fail [OF fan'(1)])
  show ?thesis using a b unfolding never_ok_def
    by (cases "run_rotate_token sys cfg is_leader ps img schedule params s";
        cases "fst (run_rotate_token sys cfg is_leader ps img schedule params s)") auto
qed

text \<open>One follower that does not confirm stops the rotation: as long as some follower answers its request with
  anything but success, the rotation fails and the leader keeps its token, its files and its containers.
  This holds for the retry as well, in particular when the follower refuses the old token because it
  has already been rotated.\<close>

theorem rotation_needs_every_follower:
  assumes "p \<in> set (rotate_targets cfg ps)" and "set (schedule (rotate_targets cfg ps)) = set (rotate_targets cfg ps)"
    and "\<And>w. \<not> peer_ok (fst (sys_http sys (rotate_call cfg (or_empty (get_str params ''new_token'')) (snd p)) w))"
  shows "only (\<lambda>a. \<not> local_change a) (run_rotate_token sys cfg is_leader ps img schedule params)
    \<and> (\<exists>e t. run_rotate_token sys cfg is_leader ps img schedule params s = (Inl e, t))"
  by (rule rotation_blocked [where schedule = schedule, OF assms])

theorem rotation_needs_every_follower_witness:
  "only (\<lambda>a. \<not> local_change a) (run_rotate_token deaf_sys quiet_cfg True trio None rev [(''new_token'', JStr (replicate 32 (CHR ''a'')))])"
proof -
  have m: "(''node-2'', ''10.0.0.2'') \<in> set (rotate_targets quiet_cfg trio)" by code_simp
  have s: "set (rev (rotate_targets quiet_cfg trio)) = set (rotate_targets quiet_cfg trio)" by simp
  have f: "\<not> peer_ok (fst (sys_http deaf_sys c w))" for c w by (simp add: deaf_sys_def peer_ok_def)
  from rotation_needs_every_follower [where schedule = rev, OF m s f] show ?thesis by blast
qed

section \<open>Progress\<close>

lemma climbs_rotate_token: "climbs 0 1 (run_rotate_token sys cfg is_leader ps img schedule params)"
proof -
  have fan: "only silent (if c then ret () else rotate_followers sys cfg tk fs)" for c tk fs
    by (intro only_if only_ret only_rotate_followers) simp_all
  have self: "only silent (rotate_self sys img tk)" for tk by (intro only_rotate_self) simp_all
  show ?thesis
    unfolding run_rotate_token_def Let_def
    by (intro climbs_if climbs_raise, simp, simp, rule climbs_quiet_bnd, (intro only_log, simp), rule climbs_quiet_bnd, (intro only_log, simp),
        rule climbs_set_bnd, simp, rule climbs_quiet_bnd [OF fan], rule climbs_set_bnd, simp, rule climbs_quiet_bnd, (intro only_log, simp),
        rule climbs_quiet_bnd, (intro only_log, simp), rule climbs_quiet_bnd [OF self], rule climbs_set_bnd, simp,
        intro climbs_silent only_bnd only_log) simp_all
qed

end
