(* ===== verification/Backups.thy ===== *)
theory Backups
  imports Worker
begin

text \<open>
  \<open>src/daemon/workers/_shell_helpers.py\<close> and the workers that only run the command line tool:
  \<open>create_backup.py\<close>, \<open>export_backup.py\<close>, \<open>restore_backup.py\<close> and \<open>backup_etcd.py\<close>. The output of the
  process is one answer of the shell here, and its lines are logged after it; the source logs them as
  they arrive. The owner of \<open>cluster.env\<close> (none when \<open>os.stat\<close> fails), the paths that exist and Python's
  \<open>str\<close> on a parameter are arguments.
\<close>

section \<open>Running the tool\<close>

definition command_line :: "string list \<Rightarrow> string" where
  "command_line args = join_with '' '' (map shlex_quote args)"

definition repo_cmd :: "string \<Rightarrow> string" where
  "repo_cmd cl = ''cd '' @ shlex_quote ''/repo'' @ '' && '' @ cl"

definition ownership_paths :: "string list" where
  "ownership_paths = [''.local'', ''logs'', ''rendered'', ''cluster.env'', ''cluster.env.bak'']"

definition chown_cmd :: "nat \<times> nat \<Rightarrow> string \<Rightarrow> string" where
  "chown_cmd owner p = ''chown -R '' @ str_of_nat (fst owner) @ '':'' @ str_of_nat (snd owner) @ '' /repo/'' @ p"

definition chown_artifacts :: "'w sys \<Rightarrow> (nat \<times> nat) option \<Rightarrow> (string \<Rightarrow> bool) \<Rightarrow> ('w, unit) io" where
  "chown_artifacts sys owner present =
     (case owner of
        None \<Rightarrow> raise FileNotFoundError
      | Some o' \<Rightarrow>
          fold_io (\<lambda>p _. if present p then bnd (run_cmd sys (chown_cmd o' p)) (\<lambda>_. ret ()) else ret ()) ownership_paths ())"

definition run_in_repo :: "'w sys \<Rightarrow> (nat \<times> nat) option \<Rightarrow> (string \<Rightarrow> bool) \<Rightarrow> string list \<Rightarrow> ('w, int) io" where
  "run_in_repo sys owner present args =
     bnd (log_line (''==> running: '' @ command_line args)) (\<lambda>_.
     bnd (run_cmd sys (repo_cmd (command_line args))) (\<lambda>(rc, out, err).
     bnd (fold_io (\<lambda>l _. log_line l) (readlines out) ()) (\<lambda>_.
     bnd (try_except (chown_artifacts sys owner present) (\<lambda>_. ret ())) (\<lambda>_.
       ret rc))))"

text \<open>Every worker fails when the tool does.\<close>

definition run_tool :: "'w sys \<Rightarrow> (nat \<times> nat) option \<Rightarrow> (string \<Rightarrow> bool) \<Rightarrow> string list \<Rightarrow> ('w, unit) io" where
  "run_tool sys owner present args =
     bnd (run_in_repo sys owner present args) (\<lambda>rc.
       if rc \<noteq> 0 then raise (RuntimeError ''CLI exited with an error, see job logs above'') else ret ())"

section \<open>The workers\<close>

text \<open>A parameter that is set and true, as text.\<close>

definition param :: "(json \<Rightarrow> string) \<Rightarrow> obj \<Rightarrow> string \<Rightarrow> string option" where
  "param str_of d k = (case dict_get d k of Some v \<Rightarrow> if json_truthy v then Some (str_of v) else None | None \<Rightarrow> None)"

definition opt_arg :: "(json \<Rightarrow> string) \<Rightarrow> obj \<Rightarrow> string \<Rightarrow> string \<Rightarrow> string list" where
  "opt_arg str_of d k flag = (case param str_of d k of Some v \<Rightarrow> [flag @ ''='' @ v] | None \<Rightarrow> [])"

definition flag_arg :: "obj \<Rightarrow> string \<Rightarrow> string \<Rightarrow> string list" where
  "flag_arg d k flag = (if field_true d k then [flag] else [])"

definition create_backup_args :: "(json \<Rightarrow> string) \<Rightarrow> obj \<Rightarrow> string \<Rightarrow> string list" where
  "create_backup_args str_of d name =
     [''./milvus-onprem'', ''create-backup'', ''--name='' @ name]
     @ opt_arg str_of d ''strategy'' ''--strategy'' @ opt_arg str_of d ''collections'' ''--collections''
     @ opt_arg str_of d ''milvus_backup_version'' ''--milvus-backup-version''"

definition run_create_backup :: "'w sys \<Rightarrow> (nat \<times> nat) option \<Rightarrow> (string \<Rightarrow> bool) \<Rightarrow> (json \<Rightarrow> string) \<Rightarrow> obj \<Rightarrow> ('w, unit) io" where
  "run_create_backup sys owner present str_of d =
     (case param str_of d ''name'' of
        None \<Rightarrow> raise (ValueError ''create-backup requires a name param'')
      | Some name \<Rightarrow> run_tool sys owner present (create_backup_args str_of d name))"

definition run_export_backup :: "'w sys \<Rightarrow> (nat \<times> nat) option \<Rightarrow> (string \<Rightarrow> bool) \<Rightarrow> (json \<Rightarrow> string) \<Rightarrow> obj \<Rightarrow> ('w, unit) io" where
  "run_export_backup sys owner present str_of d =
     (case (param str_of d ''name'', param str_of d ''to'') of
        (None, _) \<Rightarrow> raise (ValueError ''export-backup requires a name param'')
      | (Some name, None) \<Rightarrow> raise (ValueError ''export-backup requires a to param'')
      | (Some name, Some to) \<Rightarrow>
          run_tool sys owner present [''./milvus-onprem'', ''export-backup'', ''--name='' @ name, ''--to='' @ to])"

definition restore_backup_args :: "(json \<Rightarrow> string) \<Rightarrow> obj \<Rightarrow> string list" where
  "restore_backup_args str_of d =
     [''./milvus-onprem'', ''restore-backup'']
     @ opt_arg str_of d ''from'' ''--from'' @ opt_arg str_of d ''name'' ''--name''
     @ (if field_true d ''name'' \<and> \<not> field_true d ''from'' then [''--skip-upload''] else [])
     @ opt_arg str_of d ''rename'' ''--rename'' @ opt_arg str_of d ''collections'' ''--collections''
     @ flag_arg d ''no_restore_index'' ''--no-restore-index'' @ flag_arg d ''drop_existing'' ''--drop-existing''
     @ flag_arg d ''load'' ''--load''"

definition run_restore_backup :: "'w sys \<Rightarrow> (nat \<times> nat) option \<Rightarrow> (string \<Rightarrow> bool) \<Rightarrow> (json \<Rightarrow> string) \<Rightarrow> obj \<Rightarrow> ('w, unit) io" where
  "run_restore_backup sys owner present str_of d =
     (if \<not> field_true d ''from'' \<and> \<not> field_true d ''name'' then raise (ValueError ''restore-backup requires either from or name'')
      else run_tool sys owner present (restore_backup_args str_of d))"

definition run_backup_etcd :: "'w sys \<Rightarrow> (nat \<times> nat) option \<Rightarrow> (string \<Rightarrow> bool) \<Rightarrow> ('w, unit) io" where
  "run_backup_etcd sys owner present = run_tool sys owner present [''./milvus-onprem'', ''backup-etcd'']"

section \<open>What the shell reads\<close>

text \<open>POSIX word splitting of a command without expansions: blanks end a word, single quotes keep everything,
  double quotes everything but the three characters that expand there. Any other character with a meaning
  to the shell is refused, so that a result says that the text is nothing but these words.\<close>

abbreviation squo :: char where "squo \<equiv> CHR 0x27"
abbreviation dquo :: char where "dquo \<equiv> CHR 0x22"

fun words :: "string \<Rightarrow> string option \<Rightarrow> string list option"
  and in_single :: "string \<Rightarrow> string \<Rightarrow> string list option"
  and in_double :: "string \<Rightarrow> string \<Rightarrow> string list option" where
  "words [] w = Some (case w of None \<Rightarrow> [] | Some x \<Rightarrow> [x])"
| "words (c # cs) w =
     (if c = CHR '' '' then map_option (\<lambda>ws. (case w of None \<Rightarrow> ws | Some x \<Rightarrow> x # ws)) (words cs None)
      else if c = squo then in_single cs (or_empty w)
      else if c = dquo then in_double cs (or_empty w)
      else if shell_safe c then words cs (Some (or_empty w @ [c]))
      else None)"
| "in_single [] w = None"
| "in_single (c # cs) w = (if c = squo then words cs (Some w) else in_single cs (w @ [c]))"
| "in_double [] w = None"
| "in_double (c # cs) w =
     (if c = dquo then words cs (Some w)
      else if c \<in> {CHR 0x5C, CHR ''$'', CHR 0x60} then None else in_double cs (w @ [c]))"

definition sh_words :: "string \<Rightarrow> string list option" where
  "sh_words s = words s None"

lemma not_safe [simp]: "\<not> shell_safe (CHR '' '')" "\<not> shell_safe squo" "\<not> shell_safe dquo"
  by code_simp+

lemma words_safe: "list_all shell_safe a \<Longrightarrow> a \<noteq> [] \<or> w \<noteq> None \<Longrightarrow> words (a @ r) w = words r (Some (or_empty w @ a))"
proof (induction a arbitrary: w)
  case Nil
  then show ?case by (auto simp: or_empty_def)
next
  case (Cons c a)
  moreover from this have "c \<noteq> CHR '' '' \<and> c \<noteq> squo \<and> c \<noteq> dquo" by auto
  ultimately show ?case by (simp add: or_empty_def)
qed

lemma words_escaped:
  "in_single (concat (map (\<lambda>c. if c = squo then [squo, dquo, squo, dquo, squo] else [c]) a) @ squo # r) w = words r (Some (w @ a))"
  by (induction a arbitrary: w) (auto simp: or_empty_def)

lemma words_quoted: "words (shlex_quote a @ r) None = words r (Some a)"
  using words_safe [of a None r] words_escaped [of a r "[]"]
  by (auto simp: shlex_quote_def or_empty_def)

lemma words_space: "words (CHR '' '' # r) (Some a) = map_option ((#) a) (words r None)"
  by simp

lemma sh_words_command_line: "sh_words (command_line args) = Some args"
  unfolding sh_words_def command_line_def
proof (induction args rule: induct_list012)
  case (2 x)
  show ?case using words_quoted [of x "[]"] by simp
next
  case (3 x y zs)
  have "words (join_with '' '' (map shlex_quote (x # y # zs))) None = words (CHR '' '' # join_with '' '' (map shlex_quote (y # zs))) (Some x)"
    using words_quoted [of x "CHR '' '' # join_with '' '' (map shlex_quote (y # zs))"] by simp
  also have "\<dots> = Some (x # y # zs)" unfolding words_space 3(2) by simp
  finally show ?case .
qed simp

section \<open>Properties\<close>

text \<open>The commands of a run: the tool with exactly these arguments, and the change of owners.\<close>

definition runs :: "string list \<Rightarrow> act \<Rightarrow> bool" where
  "runs args a \<longleftrightarrow>
     (\<forall>c. a = A_run c \<longrightarrow>
        (\<exists>cl. c = repo_cmd cl \<and> sh_words cl = Some args) \<or> (\<exists>o' p. p \<in> set ownership_paths \<and> c = chown_cmd o' p))
     \<and> \<not> posts a \<and> (\<forall>p d. a \<noteq> A_write p d) \<and> (\<forall>rq. a \<noteq> A_etcd rq)"

lemma runs_simps [simp]: "runs args (A_log l)" "p \<in> set ownership_paths \<Longrightarrow> runs args (A_run (chown_cmd o' p))"
  "runs args (A_run (repo_cmd (command_line args)))"
  unfolding runs_def using sh_words_command_line [of args] by (simp_all del: split_paired_Ex) blast+

lemma only_fold_set:
  "(\<And>x b. x \<in> set xs \<Longrightarrow> only A (f x b)) \<Longrightarrow> only A (fold_io f xs b)"
  by (induction xs arbitrary: b) (auto intro!: only_intros)

lemma only_run_tool: "only (runs args) (run_tool sys owner present args)"
proof -
  have "only (runs args) (chown_artifacts sys owner present)"
    unfolding chown_artifacts_def by (intro only_intros only_fold_set) simp_all
  then show ?thesis unfolding run_tool_def run_in_repo_def by (intro only_intros) simp_all
qed

lemma only_create_backup:
  "only (runs (create_backup_args str_of d (or_empty (param str_of d ''name'')))) (run_create_backup sys owner present str_of d)"
  unfolding run_create_backup_def
  by (cases "param str_of d ''name''") (simp_all add: only_raise only_run_tool or_empty_def)

text \<open>C40. No parameter of a backup job reaches the shell as anything but a word: whatever the job's parameters are,
  quotes, blanks, semicolons and dollar signs included, the only commands a backup worker runs are the tool
  with exactly the intended arguments, as the shell splits the line, and the change of owners of fixed paths.\<close>

theorem backup_arguments_are_words:
  "only (runs (create_backup_args str_of d (or_empty (param str_of d ''name'')))) (run_create_backup sys owner present str_of d)
   \<and> only (runs [''./milvus-onprem'', ''export-backup'', ''--name='' @ or_empty (param str_of d ''name''),
               ''--to='' @ or_empty (param str_of d ''to'')]) (run_export_backup sys owner present str_of d)
   \<and> only (runs (restore_backup_args str_of d)) (run_restore_backup sys owner present str_of d)
   \<and> only (runs [''./milvus-onprem'', ''backup-etcd'']) (run_backup_etcd sys owner present)"
proof (intro conjI)
  show "only (runs (create_backup_args str_of d (or_empty (param str_of d ''name'')))) (run_create_backup sys owner present str_of d)"
    by (rule only_create_backup)
  show "only (runs [''./milvus-onprem'', ''export-backup'', ''--name='' @ or_empty (param str_of d ''name''),
               ''--to='' @ or_empty (param str_of d ''to'')]) (run_export_backup sys owner present str_of d)"
    unfolding run_export_backup_def
    by (cases "param str_of d ''name''"; cases "param str_of d ''to''") (simp_all add: only_raise only_run_tool or_empty_def)
  show "only (runs (restore_backup_args str_of d)) (run_restore_backup sys owner present str_of d)"
    unfolding run_restore_backup_def by (intro only_if only_raise only_run_tool)
  show "only (runs [''./milvus-onprem'', ''backup-etcd'']) (run_backup_etcd sys owner present)"
    unfolding run_backup_etcd_def by (rule only_run_tool)
qed

end
