(* ===== verification/Api.thy ===== *)
theory Api
  imports Migrate_Pulsar Rotate_Token Jobs
begin

text \<open>
  \<open>src/daemon/api.py\<close>: the HTTP surface of a daemon. Each route is a computation on the application's state
  (configuration, elector, topology mirror, job registry) that ends in a response or in an
  \<open>HTTPException\<close>; \<open>serve\<close> routes a request, checks the token where the source declares it, and turns
  exceptions into statuses as FastAPI does. Request bodies are JSON objects that have passed or failed
  the declared models; the log captured by \<open>/upgrade-self\<close> and \<open>/rotate-self\<close> are the lines the procedure
  wrote. The body of a GET holds its query parameters.
\<close>

record app =
  ap_config :: daemon_config
  ap_elector :: elector
  ap_peers :: peers
  ap_types :: "unit dict"
  ap_running :: "string list"
  ap_finished :: "string \<Rightarrow> bool"
  ap_environ :: "string \<Rightarrow> string option"
  ap_fuel :: nat

record response =
  rs_status :: nat
  rs_location :: "string option"
  rs_body :: obj

definition ok :: "obj \<Rightarrow> response" where
  "ok d = \<lparr>rs_status = 200, rs_location = None, rs_body = d\<rparr>"

definition field_or :: "obj \<Rightarrow> string \<Rightarrow> json \<Rightarrow> json" where
  "field_or d k dflt = (case dict_get d k of Some v \<Rightarrow> v | None \<Rightarrow> dflt)"

section \<open>Reading the cluster's state\<close>

definition health :: "app \<Rightarrow> response" where
  "health app = ok
     [(''status'', JStr ''ok''), (''node'', JStr (node_name (ap_config app))), (''ip'', JStr (local_ip (ap_config app))),
      (''is_leader'', JBool (el_is_leader (ap_elector app))), (''peer_count'', JNum (of_nat (peer_count (ap_peers app))))]"

definition version :: response where
  "version = ok [(''daemon'', JStr ''0.1.0'')]"

definition raw_text :: "etcd_value \<Rightarrow> string" where
  "raw_text v = (case v of Text s \<Rightarrow> s | Json d \<Rightarrow> [])"

definition get_leader :: "'w sys \<Rightarrow> ('w, response) io" where
  "get_leader sys =
     bnd (etcd_get sys LEADER_KEY) (\<lambda>raw.
       ret (ok [(''leader'',
         case raw of
           None \<Rightarrow> JNull
         | Some v \<Rightarrow> (case json_loads v of
             Some d \<Rightarrow> JObj d
           | None \<Rightarrow> JObj [(''raw'', JStr (raw_text v)), (''warning'', JStr ''unparsable'')]))]))"

definition get_topology :: "app \<Rightarrow> response" where
  "get_topology app = ok
     [(''peer_count'', JNum (of_nat (peer_count (ap_peers app)))), (''peers'', JObj (map (\<lambda>(n, d). (n, JObj d)) (ap_peers app)))]"

definition by_name :: "peers \<Rightarrow> peers" where
  "by_name ps = sort_key fst ps"

definition status_row :: "string \<times> obj \<Rightarrow> json" where
  "status_row p = JObj
     [(''name'', JStr (fst p)), (''ip'', field_or (snd p) ''ip'' JNull), (''joined_at'', field_or (snd p) ''joined_at'' JNull),
      (''role'', field_or (snd p) ''role'' (JStr ''peer''))]"

definition get_status :: "'w sys \<Rightarrow> app \<Rightarrow> ('w, response) io" where
  "get_status sys app =
     bnd (etcd_get sys LEADER_KEY) (\<lambda>raw.
       ret (ok
         [(''cluster_name'', JStr (cluster_name (ap_config app))),
          (''this_node'', JObj [(''name'', JStr (node_name (ap_config app))), (''ip'', JStr (local_ip (ap_config app))),
             (''is_leader'', JBool (el_is_leader (ap_elector app)))]),
          (''leader'',
             case raw of
               None \<Rightarrow> JNull
             | Some v \<Rightarrow> if v = Text [] then JNull
                         else (case json_loads v of Some d \<Rightarrow> JObj d | None \<Rightarrow> JObj [(''raw'', JStr (raw_text v))])),
          (''peer_count'', JNum (of_nat (peer_count (ap_peers app)))),
          (''peers'', JArr (map status_row (by_name (ap_peers app))))]))"

definition env_int :: "app \<Rightarrow> string \<Rightarrow> string \<Rightarrow> ('w, int) io" where
  "env_int app key dflt = to_int (case ap_environ app key of Some v \<Rightarrow> v | None \<Rightarrow> dflt)"

definition url_row :: "int \<Rightarrow> int \<Rightarrow> int \<Rightarrow> int \<Rightarrow> string \<times> obj \<Rightarrow> json list" where
  "url_row cp milvus lb minio p =
     (let ip = or_empty (ip_of (snd p)) in
      if ip = [] then []
      else [JObj
        [(''node'', JStr (fst p)), (''milvus'', JStr (ip @ '':'' @ str_of_int milvus)), (''lb'', JStr (ip @ '':'' @ str_of_int lb)),
         (''minio_api'', JStr (''http://'' @ ip @ '':'' @ str_of_int minio)),
         (''control_plane'', JStr (''http://'' @ ip @ '':'' @ str_of_int cp))]])"

definition get_urls :: "app \<Rightarrow> ('w, response) io" where
  "get_urls app =
     bnd (env_int app ''MILVUS_ONPREM_MILVUS_PORT'' ''19530'') (\<lambda>milvus.
     bnd (env_int app ''MILVUS_ONPREM_NGINX_LB_PORT'' ''19537'') (\<lambda>lb.
     bnd (env_int app ''MILVUS_ONPREM_MINIO_API_PORT'' ''9000'') (\<lambda>minio.
       ret (ok [(''peers'', JArr (concat (map (url_row (listen_port (ap_config app)) milvus lb minio) (by_name (ap_peers app)))))]))))"

section \<open>Writes go to the leader\<close>

text \<open>What a follower answers: a 307 to the address in the leader key, or a 503. The leader key is written by
  \<open>_cycle\<close> only, so its address is a string.\<close>

definition redirect :: "'w sys \<Rightarrow> app \<Rightarrow> string \<Rightarrow> string \<Rightarrow> ('w, response) io" where
  "redirect sys app path hint =
     bnd (etcd_get sys LEADER_KEY) (\<lambda>raw.
       case raw of
         None \<Rightarrow> raise (HTTPException 503 ''no leader currently; retry shortly'')
       | Some v \<Rightarrow>
           if v = Text [] then raise (HTTPException 503 ''no leader currently; retry shortly'')
           else (case Option.bind (json_loads v) (\<lambda>d. get_str d ''ip'') of
                   None \<Rightarrow> raise (HTTPException 503 ''leader info unparsable'')
                 | Some ip \<Rightarrow>
                     (let to = ''http://'' @ ip @ '':'' @ str_of_int (listen_port (ap_config app)) @ path in
                      ret \<lparr>rs_status = 307, rs_location = Some to,
                           rs_body = [(''redirect_to'', JStr to), (''leader'', JStr ip), (''hint'', JStr hint)]\<rparr>)))"

definition join_hint :: string where
  "join_hint = ''this peer is a follower; POST /join must reach the leader. retry against the URL in `redirect_to`, or use ''
     @ ''`curl --location-trusted -X POST ...` (the bash CLI does this automatically).''"

definition jobs_hint :: string where
  "jobs_hint = ''this peer is a follower; POST /jobs must reach the leader. retry against the URL in `redirect_to`, or use ''
     @ ''`curl --location-trusted -X POST ...` (the bash CLI does this automatically). Without -L curl swallows the ''
     @ ''redirect silently and your write is lost.''"

definition sweep_hint :: string where
  "sweep_hint = ''POST /admin/sweep must reach the leader; retry against `redirect_to` or use --location-trusted''"

definition join_body :: "join_result \<Rightarrow> obj" where
  "join_body r = [(''node_name'', JStr (jr_node_name r)), (''local_ip'', JStr (jr_local_ip r)),
     (''cluster_env'', JStr (jr_cluster_env r)), (''leader_ip'', JStr (jr_leader_ip r))]"

definition post_join :: "'w sys \<Rightarrow> app \<Rightarrow> string \<Rightarrow> string option \<Rightarrow> ('w, response) io" where
  "post_join sys app ip hostname =
     (if \<not> el_is_leader (ap_elector app) then redirect sys app ''/join'' join_hint
      else bnd (try_except (handle_join sys (ap_fuel app) (ap_config app) ip hostname)
                  (\<lambda>e. case e of JoinError m \<Rightarrow> raise (HTTPException 409 m) | _ \<Rightarrow> raise e)) (\<lambda>r.
             ret (ok (join_body r))))"

section \<open>Jobs\<close>

definition list_job_types :: "app \<Rightarrow> response" where
  "list_job_types app = ok [(''types'', JArr (map JStr (known_types (ap_types app))))]"

definition api_list_jobs :: "'w sys \<Rightarrow> string option \<Rightarrow> ('w, response) io" where
  "api_list_jobs sys flt =
     bnd (list_jobs sys flt) (\<lambda>js.
       ret (ok [(''count'', JNum (of_nat (length js))), (''jobs'', JArr (map (\<lambda>j. JObj (to_json j)) js))]))"

definition api_get_job :: "'w sys \<Rightarrow> string \<Rightarrow> ('w, response) io" where
  "api_get_job sys jid =
     bnd (get_job sys jid) (\<lambda>j.
       case j of None \<Rightarrow> raise (HTTPException 404 (''job '' @ jid @ '' not found'')) | Some job \<Rightarrow> ret (ok (to_json job)))"

definition post_job :: "'w sys \<Rightarrow> app \<Rightarrow> string \<Rightarrow> obj \<Rightarrow> ('w, response \<times> app) io" where
  "post_job sys app job_type params =
     (if \<not> el_is_leader (ap_elector app) then bnd (redirect sys app ''/jobs'' jobs_hint) (\<lambda>r. ret (r, app))
      else
        bnd (try_except
               (create_job sys (ap_types app) (el_is_leader (ap_elector app)) (node_name (ap_config app)) (ap_running app) job_type params)
               (\<lambda>e. case e of
                      ValueError m \<Rightarrow> raise (HTTPException 400 m)
                    | PermissionError m \<Rightarrow> raise (HTTPException 409 m)
                    | _ \<Rightarrow> raise e)) (\<lambda>(job, running).
          ret (ok (to_json job), app\<lparr>ap_running := running\<rparr>)))"

definition api_cancel_job :: "app \<Rightarrow> string \<Rightarrow> response" where
  "api_cancel_job app jid =
     ok [(''job_id'', JStr jid), (''cancelled'', JBool (cancel_job (ap_running app) (ap_finished app) jid))]"

section \<open>Administration\<close>

definition post_admin_sweep :: "'w sys \<Rightarrow> app \<Rightarrow> ('w, response) io" where
  "post_admin_sweep sys app =
     (if \<not> el_is_leader (ap_elector app) then redirect sys app ''/admin/sweep'' sweep_hint
      else
        bnd (prune_old sys (jobs_retention_s (ap_config app))) (\<lambda>n.
        bnd (prune_stuck_running sys (jobs_heartbeat_timeout_s (ap_config app))) (\<lambda>m.
          ret (ok [(''pruned_terminated'', JNum (of_nat n)), (''pruned_stuck_running'', JNum (of_nat m))]))))"

definition post_admin_step_down :: "'w sys \<Rightarrow> app \<Rightarrow> ('w, response \<times> app) io" where
  "post_admin_step_down sys app =
     (if \<not> el_is_leader (ap_elector app) then raise (HTTPException 409 ''not currently the leader; step-down rejected'')
      else bnd (step_down sys 20 (ap_elector app)) (\<lambda>(stepped, e).
             ret (ok [(''stepped_down'', JBool stepped)], app\<lparr>ap_elector := e\<rparr>)))"

definition api_get_pulsar_host :: "'w sys \<Rightarrow> ('w, response) io" where
  "api_get_pulsar_host sys = bnd (get_admin_pulsar_host sys) (\<lambda>h. ret (ok [(''pulsar_host'', JStr h)]))"

definition post_admin_sync_pulsar_host :: "'w sys \<Rightarrow> app \<Rightarrow> string \<Rightarrow> ('w, response) io" where
  "post_admin_sync_pulsar_host sys app host =
     try_except
       (bnd (apply_pulsar_host_change sys (ap_config app) host) (\<lambda>_. ret (ok [(''applied'', JBool True)])))
       (\<lambda>e. raise (HTTPException 500 (exn_text e)))"

text \<open>The answer models of the routes that daemons call on each other.\<close>

definition recreate_response :: "bool \<Rightarrow> string option \<Rightarrow> response" where
  "recreate_response healthy err = ok [(''healthy'', JBool healthy), (''error'', case err of None \<Rightarrow> JNull | Some e \<Rightarrow> JStr e)]"

definition self_response :: "string list \<Rightarrow> string option \<Rightarrow> response" where
  "self_response lines err = ok [(''log'', JArr (map JStr lines)), (''error'', case err of None \<Rightarrow> JNull | Some e \<Rightarrow> JStr e)]"

definition clock_response :: "time \<Rightarrow> response" where
  "clock_response t = ok [(''ts'', JNum t)]"

definition post_recreate_minio_self :: "'w sys \<Rightarrow> app \<Rightarrow> ('w, response) io" where
  "post_recreate_minio_self sys app =
     try_except
       (bnd (recreate_minio_local sys (ap_fuel app) (ap_config app) (ap_peers app)) (\<lambda>_.
          ret (recreate_response True None)))
       (\<lambda>e. ret (recreate_response False (Some (exn_text e))))"

text \<open>Run a procedure and collect its log; an exception is appended to the log and reported.\<close>

fun logged :: "act list \<Rightarrow> string list" where
  "logged [] = []"
| "logged (A_log l # as) = rstrip_by (\<lambda>c. c = CHR 0x0A) l # logged as"
| "logged (_ # as) = logged as"

definition captured :: "('w, unit) io \<Rightarrow> ('w, response) io" where
  "captured m = (\<lambda>s.
     case m s of (r, t) \<Rightarrow>
       (let lines = logged (drop (length (st_trace s)) (st_trace t)) in
        case r of
          Inr _ \<Rightarrow> (Inr (self_response lines None), t)
        | Inl e \<Rightarrow>
            if is_Exception e
            then (Inr (self_response (lines @ [''ERROR: '' @ exn_text e]) (Some (exn_text e))), t)
            else (Inl e, t)))"

definition post_upgrade_self :: "'w sys \<Rightarrow> string \<Rightarrow> ('w, response) io" where
  "post_upgrade_self sys target = captured (upgrade_self sys target)"

definition post_rotate_self :: "'w sys \<Rightarrow> app \<Rightarrow> string \<Rightarrow> ('w, response) io" where
  "post_rotate_self sys app new_token = captured (rotate_self sys (ap_environ app ''MILVUS_ONPREM_IMAGE'') new_token)"

definition get_peer_clock :: "'w sys \<Rightarrow> ('w, response) io" where
  "get_peer_clock sys = bnd (now sys) (\<lambda>t. ret (clock_response t))"

section \<open>Routing\<close>

text \<open>A body that does not fit the declared model.\<close>

definition unprocessable :: "('w, 'a) io" where
  "unprocessable = raise (HTTPException 422 ''unprocessable entity'')"

definition unchanged :: "app \<Rightarrow> ('w, response) io \<Rightarrow> ('w, response \<times> app) io" where
  "unchanged app m = bnd m (\<lambda>r. ret (r, app))"

text \<open>The request models: the parameters of the route, or \<open>None\<close> when the body does not fit.\<close>

definition join_request :: "obj \<Rightarrow> (string \<times> string option) option" where
  "join_request body =
     Option.bind (get_str body ''ip'') (\<lambda>ip.
       case field_or body ''hostname'' JNull of
         JNull \<Rightarrow> Some (ip, None)
       | JStr h \<Rightarrow> Some (ip, Some h)
       | _ \<Rightarrow> None)"

definition create_job_request :: "obj \<Rightarrow> (string \<times> obj) option" where
  "create_job_request body =
     Option.bind (get_str body ''type'') (\<lambda>ty.
       case field_or body ''params'' (JObj []) of JObj ps \<Rightarrow> Some (ty, ps) | _ \<Rightarrow> None)"

definition sync_pulsar_host_request :: "obj \<Rightarrow> string option" where
  "sync_pulsar_host_request body = get_str body ''pulsar_host''"

definition upgrade_self_request :: "obj \<Rightarrow> string option" where
  "upgrade_self_request body = get_str body ''milvus_version''"

definition rotate_self_request :: "obj \<Rightarrow> string option" where
  "rotate_self_request body =
     Option.bind (get_str body ''new_token'') (\<lambda>tk. if length tk < 32 then None else Some tk)"

lemmas request_models = join_request_def create_job_request_def sync_pulsar_host_request_def upgrade_self_request_def rotate_self_request_def

definition with_model :: "'m option \<Rightarrow> ('m \<Rightarrow> ('w, 'a) io) \<Rightarrow> ('w, 'a) io" where
  "with_model m f = (case m of None \<Rightarrow> unprocessable | Some v \<Rightarrow> f v)"

text \<open>The declared routes; FastAPI answers 404 on any other path and 405 when only the other method is declared.
  Its own documentation pages are not represented.\<close>

definition one_segment :: "string \<Rightarrow> bool" where
  "one_segment s \<longleftrightarrow> s \<noteq> [] \<and> CHR ''/'' \<notin> set s"

definition cancel_id :: "string \<Rightarrow> string" where
  "cancel_id path = (let r = removeprefix path ''/jobs/'' in take (length r - length ''/cancel'') r)"

definition declared :: "http_method \<Rightarrow> string \<Rightarrow> bool" where
  "declared meth path \<longleftrightarrow>
     (case meth of
        GET \<Rightarrow> path \<in> set [''/health'', ''/version'', ''/leader'', ''/topology'', ''/status'', ''/urls'', ''/jobs/types'', ''/jobs'',
                 ''/admin/get-pulsar-host'', ''/peer/clock'']
          \<or> startswith path ''/jobs/'' \<and> one_segment (removeprefix path ''/jobs/'')
      | POST \<Rightarrow> path \<in> set [''/join'', ''/jobs'', ''/admin/sweep'', ''/admin/step-down'', ''/admin/sync-pulsar-host'',
                 ''/recreate-minio-self'', ''/upgrade-self'', ''/rotate-self'']
          \<or> one_segment (cancel_id path) \<and> path = ''/jobs/'' @ cancel_id path @ ''/cancel'')"

definition is_open :: "http_method \<Rightarrow> string \<Rightarrow> bool" where
  "is_open meth path \<longleftrightarrow> meth = GET \<and> path \<in> set [''/health'', ''/version'']"

definition route_get :: "'w sys \<Rightarrow> app \<Rightarrow> string \<Rightarrow> obj \<Rightarrow> ('w, response) io" where
  "route_get sys app path body =
     (if path = ''/health'' then ret (health app)
      else if path = ''/version'' then ret version
      else if path = ''/leader'' then get_leader sys
      else if path = ''/topology'' then ret (get_topology app)
      else if path = ''/status'' then get_status sys app
      else if path = ''/urls'' then get_urls app
      else if path = ''/jobs/types'' then ret (list_job_types app)
      else if path = ''/jobs'' then api_list_jobs sys (get_str body ''state'')
      else if path = ''/admin/get-pulsar-host'' then api_get_pulsar_host sys
      else if path = ''/peer/clock'' then get_peer_clock sys
      else api_get_job sys (removeprefix path ''/jobs/''))"

definition route_post :: "'w sys \<Rightarrow> app \<Rightarrow> string \<Rightarrow> obj \<Rightarrow> ('w, response \<times> app) io" where
  "route_post sys app path body =
     (if path = ''/join'' then with_model (join_request body) (\<lambda>(ip, hostname). unchanged app (post_join sys app ip hostname))
      else if path = ''/jobs'' then with_model (create_job_request body) (\<lambda>(ty, params). post_job sys app ty params)
      else if path = ''/admin/sweep'' then unchanged app (post_admin_sweep sys app)
      else if path = ''/admin/step-down'' then post_admin_step_down sys app
      else if path = ''/admin/sync-pulsar-host'' then
        with_model (sync_pulsar_host_request body) (\<lambda>h. unchanged app (post_admin_sync_pulsar_host sys app h))
      else if path = ''/recreate-minio-self'' then unchanged app (post_recreate_minio_self sys app)
      else if path = ''/upgrade-self'' then with_model (upgrade_self_request body) (\<lambda>v. unchanged app (post_upgrade_self sys v))
      else if path = ''/rotate-self'' then with_model (rotate_self_request body) (\<lambda>tk. unchanged app (post_rotate_self sys app tk))
      else ret (api_cancel_job app (cancel_id path), app))"

definition serve :: "'w sys \<Rightarrow> app \<Rightarrow> string option \<Rightarrow> http_method \<Rightarrow> string \<Rightarrow> obj \<Rightarrow> ('w, response \<times> app) io" where
  "serve sys app authorization meth path body =
     (if \<not> declared meth path then
        raise (if declared GET path \<or> declared POST path then HTTPException 405 ''Method Not Allowed'' else HTTPException 404 ''Not Found'')
      else
        case (if is_open meth path then Inr () else require_token (ap_config app) authorization) of
          Inl e \<Rightarrow> raise e
        | Inr _ \<Rightarrow> if meth = GET then unchanged app (route_get sys app path body) else route_post sys app path body)"

text \<open>What the client sees.\<close>

definition to_http :: "exn + response \<times> app \<Rightarrow> http_result" where
  "to_http r =
     (case r of
        Inr (rs, _) \<Rightarrow> Http_response (rs_status rs) (Some (rs_body rs))
      | Inl (HTTPException n d) \<Rightarrow> Http_response n (Some [(''detail'', JStr d)])
      | Inl _ \<Rightarrow> Http_response 500 None)"

section \<open>Properties\<close>

lemma serve_refuses:
  assumes "require_token (ap_config app) authorization \<noteq> Inr ()" and "\<not> is_open meth path"
  shows "\<exists>e. serve sys app authorization meth path body s = (Inl e, s)
    \<and> ((\<exists>n m. n \<in> {401, 403, 404, 405} \<and> e = HTTPException n m) \<or> (\<exists>m. e = TypeError m))"
proof (cases "declared meth path")
  case True
  from assms(1) obtain e where e: "require_token (ap_config app) authorization = Inl e"
    by (cases "require_token (ap_config app) authorization") auto
  then have "(\<exists>n m. n \<in> {401, 403, 404, 405} \<and> e = HTTPException n m) \<or> (\<exists>m. e = TypeError m)"
    by (auto simp: require_token_def compare_digest_def Let_def split: option.splits if_splits)
  with e True assms(2) show ?thesis by (simp add: serve_def raise_def)
qed (auto simp: serve_def raise_def)


text \<open>A request with a token, as the daemons send it to each other.\<close>

definition bearer :: "string \<Rightarrow> string option" where
  "bearer tk = Some (''Bearer '' @ tk)"

lemma bearer_accepted:
  "require_token cfg (bearer tk) = Inr () \<longleftrightarrow> strip tk = cluster_token cfg \<and> ascii (cluster_token cfg)"
proof -
  have l: "lower ''Bearer'' = ''bearer''" by code_simp
  have "sc = ''Bearer'' \<and> r = tk" if "''Bearer'' @ CHR '' '' # tk = sc @ CHR '' '' # r" "lower sc = ''bearer''" for sc r
  proof -
    have "length sc = length ''Bearer''" using that(2) lower_length [of sc] by simp
    then show ?thesis using that(1) append_eq_append_conv [of "''Bearer''" sc] by auto
  qed
  with l have split: "''Bearer '' @ tk = sc @ CHR '' '' # r \<and> lower sc = ''bearer'' \<longleftrightarrow> sc = ''Bearer'' \<and> r = tk" for sc r
    by auto
  show ?thesis unfolding bearer_def require_token_accepts by (simp only: conj_assoc [symmetric] split) auto
qed

definition duo_app :: app where
  "duo_app = \<lparr>ap_config = near_cfg, ap_elector = new_elector, ap_peers = duo, ap_types = [], ap_running = [],
     ap_finished = (\<lambda>_. False), ap_environ = (\<lambda>_. None), ap_fuel = 5\<rparr>"


text \<open>The requests that must reach the leader.\<close>

definition leader_paths :: "string list" where
  "leader_paths = [''/join'', ''/jobs'', ''/admin/sweep'']"

lemma only_redirect:
  assumes "A (A_etcd (Range LEADER_KEY None))" "\<And>d. A (A_sleep d)"
  shows "only A (redirect sys app path hint)"
  unfolding redirect_def
  by (intro only_bnd only_etcd_get assms) (auto intro!: only_intros split: option.split simp: Let_def)

lemma redirect_outcome:
  assumes "redirect sys app path hint s = (Inr rs, t)"
  shows "\<exists>d ip. fst (etcd_get sys LEADER_KEY s) = Inr (Some (Json d)) \<and> get_str d ''ip'' = Some ip
    \<and> rs_status rs = 307 \<and> rs_location rs = Some (''http://'' @ ip @ '':'' @ str_of_int (listen_port (ap_config app)) @ path)"
proof -
  from assms obtain raw u where g: "etcd_get sys LEADER_KEY s = (Inr raw, u)"
    by (auto simp: redirect_def bnd_def split: prod.splits sum.splits)
  with assms obtain v where v: "raw = Some v" by (cases raw) (auto simp: redirect_def bnd_def raise_def)
  with assms g obtain d ip where "json_loads v = Some d" "get_str d ''ip'' = Some ip"
    by (auto simp: redirect_def bnd_def raise_def split: if_splits option.splits bind_splits)
  moreover from this have "v = Json d" by (cases v) auto
  ultimately show ?thesis using assms g v by (auto simp: redirect_def bnd_def raise_def ret_def Let_def)
qed

text \<open>What a follower does with such a request.\<close>

lemma follower_redirects:
  assumes "path \<in> set leader_paths" and "\<not> el_is_leader (ap_elector app)"
  obtains h where "route_post sys app path body = bnd (redirect sys app path h) (\<lambda>r. ret (r, app))"
    | "route_post sys app path body = unprocessable"
proof -
  from assms(1) consider "path = ''/join''" | "path = ''/jobs''" | "path = ''/admin/sweep''"
    by (auto simp: leader_paths_def)
  then show thesis
  proof cases
    case 1
    with assms(2) show ?thesis
      by (cases "join_request body") (auto simp: route_post_def with_model_def unchanged_def post_join_def intro: that)
  next
    case 2
    with assms(2) show ?thesis
      by (cases "create_job_request body") (auto simp: route_post_def with_model_def post_job_def intro: that)
  next
    case 3
    with assms(2) show ?thesis by (auto simp: route_post_def unchanged_def post_admin_sweep_def intro: that)
  qed
qed

text \<open>A follower changes nothing: a join, a job or a sweep sent to it makes it read the leader key and nothing else,
  and a response is a 307 to the same path at the address that the leader key holds; so while the key
  holds what the leader wrote there, the request is sent on to the leader.\<close>

theorem follower_sends_writes_on:
  assumes "path \<in> set leader_paths" and "\<not> el_is_leader (ap_elector app)"
  shows "only (\<lambda>a. a = A_etcd (Range LEADER_KEY None) \<or> (\<exists>d. a = A_sleep d)) (serve sys app authorization POST path body)
    \<and> (\<forall>rs app' t. serve sys app authorization POST path body s = (Inr (rs, app'), t) \<longrightarrow>
         app' = app \<and> rs_status rs = 307
         \<and> (\<exists>d ip. fst (etcd_get sys LEADER_KEY s) = Inr (Some (Json d)) \<and> get_str d ''ip'' = Some ip
              \<and> rs_location rs = Some (''http://'' @ ip @ '':'' @ str_of_int (listen_port (ap_config app)) @ path))
         \<and> (\<forall>cfg since l. fst (etcd_get sys LEADER_KEY s) = Inr (Some (leader_value cfg since l)) \<longrightarrow>
              rs_location rs = Some (''http://'' @ local_ip cfg @ '':'' @ str_of_int (listen_port (ap_config app)) @ path)))"
proof -
  let ?A = "\<lambda>a. a = A_etcd (Range LEADER_KEY None) \<or> (\<exists>d. a = A_sleep d)"
  have pass: "only ?A (serve sys app authorization POST path body)" if "only ?A (route_post sys app path body)"
    unfolding serve_def using that by (auto intro!: only_if only_raise only_sum)
  have through: "route_post sys app path body s = (Inr (rs, app'), t)"
    if "serve sys app authorization POST path body s = (Inr (rs, app'), t)" for rs app' t
    using that by (auto simp: serve_def raise_def is_open_def split: if_splits sum.splits)
  have lv: "get_str d ''ip'' = Some (local_ip cfg)" if "Json d = leader_value cfg since l" for d cfg since l
    using that by (auto simp: leader_value_def get_str_def dict_get_def)
  show ?thesis
  proof (rule follower_redirects [OF assms, of sys body], goal_cases)
    case (1 h)
    have o: "only ?A (route_post sys app path body)"
      unfolding 1 by (intro only_bnd only_redirect only_ret) auto
    have r: "redirect sys app path h s = (Inr rs, t) \<and> app' = app"
      if "serve sys app authorization POST path body s = (Inr (rs, app'), t)" for rs app' t
      using through [OF that] unfolding 1 by (auto simp: bnd_def ret_def split: prod.splits sum.splits)
    show ?case using pass [OF o] r redirect_outcome lv by (smt (verit) Inr_inject option.inject)
  next
    case 2
    have "only ?A (route_post sys app path body)" unfolding 2 unprocessable_def by (rule only_raise)
    then show ?case using pass through unfolding 2 by (auto simp: unprocessable_def raise_def)
  qed
qed

theorem follower_sends_writes_on_witness:
  "\<exists>rs t. serve mem_sys duo_app (bearer ''secret'') POST ''/admin/sweep'' []
       (start (world0\<lparr>w_kv := [(''/cluster/leader'', leader_value (near_cfg\<lparr>local_ip := ''10.0.0.2''\<rparr>) 0 1)]\<rparr>)) = (Inr (rs, duo_app), t)
     \<and> rs_location rs = Some ''http://10.0.0.2:9/admin/sweep''"
proof -
  let ?s = "start (world0\<lparr>w_kv := [(''/cluster/leader'', leader_value (near_cfg\<lparr>local_ip := ''10.0.0.2''\<rparr>) 0 1)]\<rparr>)"
  let ?r = "serve mem_sys duo_app (bearer ''secret'') POST ''/admin/sweep'' [] ?s"
  have m: "''/admin/sweep'' \<in> set leader_paths" "\<not> el_is_leader (ap_elector duo_app)" by code_simp+
  have v: "fst (etcd_get mem_sys LEADER_KEY ?s) = Inr (Some (leader_value (near_cfg\<lparr>local_ip := ''10.0.0.2''\<rparr>) 0 1))" by code_simp
  have ok: "(case fst ?r of Inr _ \<Rightarrow> True | Inl _ \<Rightarrow> False)" by code_simp
  then obtain rs app' t where r: "?r = (Inr (rs, app'), t)"
    by (cases ?r; cases "fst ?r") auto
  from follower_sends_writes_on [OF m] r v
  have "app' = duo_app" "rs_location rs = Some (''http://'' @ local_ip (near_cfg\<lparr>local_ip := ''10.0.0.2''\<rparr>) @ '':''
      @ str_of_int (listen_port (ap_config duo_app)) @ ''/admin/sweep'')" by blast+
  moreover have "''http://'' @ local_ip (near_cfg\<lparr>local_ip := ''10.0.0.2''\<rparr>) @ '':''
      @ str_of_int (listen_port (ap_config duo_app)) @ ''/admin/sweep'' = ''http://10.0.0.2:9/admin/sweep''" by code_simp
  ultimately show ?thesis using r by auto
qed

end
