(* ===== verification/Fleet.thy ===== *)
theory Fleet
  imports Api
begin

text \<open>
  Several daemons at once. In a fleet each host has its own files and containers, all hosts share etcd
  and the clock, and a request that one daemon sends to another is answered by \<open>serve\<close> of that
  host's daemon. Interpreting the workers' assumptions about peers on this world discharges them
  against \<open>src/daemon/api.py\<close>.
\<close>

record fleet =
  fl_etcd :: world
  fl_hosts :: "(string \<times> world) list"

text \<open>The world as a host sees it, and the fleet after the host has acted.\<close>

definition at_host :: "fleet \<Rightarrow> string \<Rightarrow> world" where
  "at_host fl ip =
     (let h = (case map_of (fl_hosts fl) ip of None \<Rightarrow> world0 | Some h \<Rightarrow> h)
      in (fl_etcd fl)\<lparr>w_files := w_files h, w_runs := w_runs h, w_https := w_https h, w_tcps := w_tcps h\<rparr>)"

definition after_host :: "fleet \<Rightarrow> string \<Rightarrow> world \<Rightarrow> fleet" where
  "after_host fl ip w = fl\<lparr>fl_etcd := w, fl_hosts := AList.update ip w (fl_hosts fl)\<rparr>"

lemma at_after [simp]: "at_host (after_host fl ip w) ip = w"
  by (simp add: at_host_def after_host_def update_conv')

lemma files_elsewhere: "ip \<noteq> ip' \<Longrightarrow> w_files (at_host (after_host fl ip w) ip') = w_files (at_host fl ip')"
  by (simp add: at_host_def after_host_def update_conv' Let_def split: option.split)

definition local_call :: "string \<Rightarrow> (world \<Rightarrow> 'a \<times> world) \<Rightarrow> fleet \<Rightarrow> 'a \<times> fleet" where
  "local_call me f fl = (let (a, w) = f (at_host fl me) in (a, after_host fl me w))"

text \<open>A request to the daemon at an address: no daemon or another port is no connection.\<close>

definition remote_call :: "(string \<Rightarrow> app option) \<Rightarrow> http_call \<Rightarrow> fleet \<Rightarrow> http_result \<times> fleet" where
  "remote_call apps c fl =
     (case apps (hc_ip c) of
        None \<Rightarrow> (Http_error, fl)
      | Some app \<Rightarrow>
          if hc_port c \<noteq> listen_port (ap_config app) then (Http_error, fl)
          else
            (let (r, t) = serve mem_sys app (bearer (hc_token c)) (hc_method c) (hc_path c) (hc_body c) (start (at_host fl (hc_ip c)))
             in (to_http r, after_host fl (hc_ip c) (st_world t))))"

definition fleet_sys :: "(string \<Rightarrow> app option) \<Rightarrow> string \<Rightarrow> fleet sys" where
  "fleet_sys apps me =
     \<lparr>sys_etcd = (\<lambda>u rq. local_call me (sys_etcd mem_sys u rq)),
      sys_time = local_call me (sys_time mem_sys),
      sys_monotonic = local_call me (sys_monotonic mem_sys),
      sys_sleep = (\<lambda>d fl. after_host fl me (sys_sleep mem_sys d (at_host fl me))),
      sys_uuid4 = local_call me (sys_uuid4 mem_sys),
      sys_run = (\<lambda>c. local_call me (sys_run mem_sys c)),
      sys_http = remote_call apps,
      sys_tcp = (\<lambda>ip p. local_call me (sys_tcp mem_sys ip p)),
      sys_read = (\<lambda>p. local_call me (sys_read mem_sys p)),
      sys_write = (\<lambda>p c fl. after_host fl me (sys_write mem_sys p c (at_host fl me)))\<rparr>"

lemma fleet_http [simp]: "sys_http (fleet_sys apps me) = remote_call apps"
  by (simp add: fleet_sys_def)

section \<open>Pulsar hosts\<close>

text \<open>The Pulsar host in the settings of a host, as \<open>get-pulsar-host\<close> reads them.\<close>

definition pulsar_setting :: "world \<Rightarrow> string" where
  "pulsar_setting w =
     (case map_of (w_files w) ''/repo/cluster.env'' of
        Some text \<Rightarrow> (case text_value ''PULSAR_HOST'' text of Some v \<Rightarrow> v | None \<Rightarrow> ''node-1'')
      | None \<Rightarrow> ''node-1'')"

definition fleet_hosts :: "(string \<Rightarrow> app option) \<Rightarrow> fleet \<Rightarrow> string \<Rightarrow> string option" where
  "fleet_hosts apps fl ip =
     (if apps ip = None then None else Some (pulsar_setting (at_host fl ip)))"

lemma serve_pulsar_host:
  assumes "serve mem_sys app auth GET ''/admin/get-pulsar-host'' body s = (r, t)"
  shows "st_world t = st_world s"
    and "r = Inr (ok [(''pulsar_host'', JStr (pulsar_setting (st_world s)))], app) \<or> (\<exists>e. r = Inl e)"
proof -
  have d: "declared GET ''/admin/get-pulsar-host''" "\<not> is_open GET ''/admin/get-pulsar-host''" by code_simp+
  have g: "route_get mem_sys app ''/admin/get-pulsar-host'' body = api_get_pulsar_host mem_sys" by (simp add: route_get_def)
  have "r = Inr (ok [(''pulsar_host'', JStr (pulsar_setting (st_world s)))], app) \<and> st_world t = st_world s
     \<or> (\<exists>e. r = Inl e) \<and> t = s"
    using assms unfolding serve_def if_not_P [OF d(2)] g
    by (cases "require_token (ap_config app) auth")
      (auto simp: d raise_def unchanged_def api_get_pulsar_host_def get_admin_pulsar_host_def bnd_def ret_def read_file_def call_def
         pulsar_setting_def)
  then show "st_world t = st_world s" "r = Inr (ok [(''pulsar_host'', JStr (pulsar_setting (st_world s)))], app) \<or> (\<exists>e. r = Inl e)"
    by auto
qed

lemma remote_pulsar_host:
  "reported_host (fst (remote_call apps (get_host_call cfg ip) fl)) = Some (JStr h) \<Longrightarrow> fleet_hosts apps fl ip = Some h"
  "fleet_hosts apps (snd (remote_call apps (get_host_call cfg ip) fl)) = fleet_hosts apps fl"
proof -
  let ?c = "get_host_call cfg ip"
  have "(reported_host (fst (remote_call apps ?c fl)) = Some (JStr h) \<longrightarrow> fleet_hosts apps fl ip = Some h)
      \<and> fleet_hosts apps (snd (remote_call apps ?c fl)) = fleet_hosts apps fl"
  proof (cases "apps ip")
    case None
    then show ?thesis by (simp add: remote_call_def get_host_call_def reported_host_def)
  next
    case (Some app)
    show ?thesis
    proof (cases "listen_port cfg = listen_port (ap_config app)")
      case False
      then show ?thesis using Some by (simp add: remote_call_def get_host_call_def reported_host_def)
    next
      case True
      obtain r t where rt: "serve mem_sys app (bearer (cluster_token cfg)) GET ''/admin/get-pulsar-host'' [] (start (at_host fl ip)) = (r, t)"
        by (cases "serve mem_sys app (bearer (cluster_token cfg)) GET ''/admin/get-pulsar-host'' [] (start (at_host fl ip))")
      have c: "remote_call apps ?c fl = (to_http r, after_host fl ip (at_host fl ip))"
        using Some True rt serve_pulsar_host(1) [OF rt] by (simp add: remote_call_def get_host_call_def start_def)
      have "w_files (at_host (after_host fl ip (at_host fl ip)) ip') = w_files (at_host fl ip')" for ip'
        using files_elsewhere [of ip ip' fl "at_host fl ip"] by (cases "ip = ip'") simp_all
      then have "fleet_hosts apps (after_host fl ip (at_host fl ip)) = fleet_hosts apps fl"
        by (simp add: fleet_hosts_def pulsar_setting_def fun_eq_iff)
      moreover have "fleet_hosts apps fl ip = Some h" if "reported_host (to_http r) = Some (JStr h)"
      proof -
        have "r = Inr (ok [(''pulsar_host'', JStr (pulsar_setting (at_host fl ip)))], app) \<or> (\<exists>e. r = Inl e)"
          using serve_pulsar_host(2) [OF rt] by (simp add: start_def)
        with that Some show ?thesis
          by (auto simp: to_http_def ok_def reported_host_def dict_get_def fleet_hosts_def split: exn.splits if_splits)
      qed
      ultimately show ?thesis using c by simp
    qed
  qed
  then show "reported_host (fst (remote_call apps ?c fl)) = Some (JStr h) \<Longrightarrow> fleet_hosts apps fl ip = Some h"
    and "fleet_hosts apps (snd (remote_call apps ?c fl)) = fleet_hosts apps fl" by blast+
qed

text \<open>The daemons' own answers meet the migration's assumption about its peers.\<close>

interpretation fleet_reports: pulsar_reports "fleet_sys apps me" cfg "fleet_hosts apps" for apps me cfg
  by unfold_locales (simp_all add: remote_pulsar_host)

section \<open>A migration that completes\<close>

lemma set_addressed: "p \<in> set (addressed ps) \<longleftrightarrow> (\<exists>info. (fst p, info) \<in> set ps \<and> ip_of info = Some (snd p) \<and> snd p \<noteq> [])"
  by (cases p) (force simp: addressed_def truthy_def or_empty_def split: option.splits)

text \<open>The order of a migration without a dead host is a sequence of all peers.\<close>

lemma sequenced_covers:
  assumes "dict_ok ps" "Option.bind (dict_get ps h) ip_of = Some target_ip" "target_ip \<noteq> []"
  shows "snd ` set (sequenced ps h target_ip current_host (or_empty (Option.bind (dict_get ps current_host) ip_of)) False) = set (addressed ps)"
proof -
  have get: "(n, info) \<in> set ps \<longleftrightarrow> dict_get ps n = Some info" for n info
    using assms(1) by (simp add: dict_ok_def dict_get_def keys_def)
  have a: "(n, ip) \<in> set (addressed ps) \<longleftrightarrow> Option.bind (dict_get ps n) ip_of = Some ip \<and> ip \<noteq> []" for n ip
    by (auto simp: set_addressed get bind_eq_Some_conv)
  have set: "set (current_peer_ips_and_names ps) = set (addressed ps)"
  proof (rule set_eqI)
    fix p :: "string \<times> string"
    obtain n ip where p: "p = (n, ip)" by (cases p)
    have "n \<in> set (keys ps)" if "dict_get ps n = Some info" for info
      using that get [of n info] by (force simp: keys_def)
    then show "p \<in> set (current_peer_ips_and_names ps) \<longleftrightarrow> p \<in> set (addressed ps)"
      unfolding p a by (auto simp: current_peer_ips_and_names_def truthy_def or_empty_def split: option.splits)
        (auto simp: bind_eq_Some_conv)
  qed
  let ?cur = "or_empty (Option.bind (dict_get ps current_host) ip_of)"
  have cur: "?cur = ip \<and> ip \<noteq> [] \<longleftrightarrow> (current_host, ip) \<in> set (addressed ps)" for ip
    by (auto simp: a or_empty_def split: option.splits)
  have "snd ` set (sequenced ps h target_ip current_host ?cur False)
      = insert (h, target_ip) ({p \<in> set (addressed ps). fst p \<noteq> h \<and> fst p \<noteq> current_host}
        \<union> (if ?cur \<noteq> [] then {(current_host, ?cur)} else {}))"
    unfolding sequenced_def by (simp add: set image_Un image_image case_prod_beta)
  also have "\<dots> = set (addressed ps)"
  proof (rule set_eqI)
    fix p :: "string \<times> string"
    obtain n ip where p: "p = (n, ip)" by (cases p)
    have "p \<in> (if ?cur \<noteq> [] then {(current_host, ?cur)} else {}) \<longleftrightarrow> n = current_host \<and> p \<in> set (addressed ps)"
      using cur [of ip] unfolding p by auto
    moreover have "n = h \<Longrightarrow> p \<in> set (addressed ps) \<longleftrightarrow> p = (h, target_ip)" using assms(2,3) unfolding p a by auto
    ultimately show "p \<in> insert (h, target_ip) ({p \<in> set (addressed ps). fst p \<noteq> h \<and> fst p \<noteq> current_host}
        \<union> (if ?cur \<noteq> [] then {(current_host, ?cur)} else {})) \<longleftrightarrow> p \<in> set (addressed ps)"
      unfolding p Un_iff insert_iff mem_Collect_eq fst_conv by blast
  qed
  finally show ?thesis .
qed

lemma wp_log_bnd: "wp (bnd (log_line l) f) Q E s = wp (f ()) Q E (s\<lparr>st_trace := st_trace s @ [A_log l]\<rparr>)"
  by (simp add: wp_bnd log_line_def wp_call)

lemma wp_progress_bnd: "wp (bnd (set_progress q) f) Q E s = wp (f ()) Q E (s\<lparr>st_trace := st_trace s @ [A_progress q]\<rparr>)"
  by (simp add: wp_bnd set_progress_def wp_call)

text \<open>Peers that are up, apply what they are told and report what they have.\<close>

locale obedient_peers =
  fixes sys :: "'w sys" and cfg :: daemon_config and ips :: "string set" and ready :: "'w \<Rightarrow> bool"
    and hosts :: "'w \<Rightarrow> string \<Rightarrow> string option" and h :: string
  assumes health: "ready w \<Longrightarrow> ip \<in> ips \<Longrightarrow>
      \<exists>b w'. sys_http sys (health_call ip (listen_port cfg) (cluster_token cfg)) w = (Http_response 200 b, w') \<and> ready w'"
    and sync: "ready w \<Longrightarrow> ip \<in> ips \<Longrightarrow>
      \<exists>d w'. sys_http sys (sync_host_call cfg ip h) w = (Http_response 200 (Some d), w') \<and> field_true d ''applied''
        \<and> ready w' \<and> hosts w' = (hosts w)(ip \<mapsto> h)"
    and report: "ready w \<Longrightarrow> ip \<in> ips \<Longrightarrow>
      \<exists>r w'. sys_http sys (get_host_call cfg ip) w = (r, w') \<and> reported_host r = map_option JStr (hosts w ip)
        \<and> ready w' \<and> hosts w' = hosts w"
begin

lemma preflight_ok:
  assumes "ready (st_world s)" "snd ` set (addressed ps) \<subseteq> ips"
  shows "wp (preflight sys cfg ps current_host force) (\<lambda>skip t. \<not> skip \<and> ready (st_world t)) (\<lambda>_ _. False) s"
proof -
  have "wp (fold_io (probe_peer sys cfg) (addressed ps) []) (\<lambda>u t. u = [] \<and> ready (st_world t)) (\<lambda>_ _. False) s"
  proof (rule wp_fold_io [where I = "\<lambda>xs u t. snd ` set xs \<subseteq> ips \<and> u = [] \<and> ready (st_world t)", THEN wp_mono])
    fix p :: "string \<times> string" and ys and u :: "string list" and s :: "'w st"
    assume "snd ` set (p # ys) \<subseteq> ips \<and> u = [] \<and> ready (st_world s)"
    moreover from this obtain b w' where
      "sys_http sys (health_call (snd p) (listen_port cfg) (cluster_token cfg)) (st_world s) = (Http_response 200 b, w')" "ready w'"
      using health [of "st_world s" "snd p"] by auto
    ultimately show "wp (probe_peer sys cfg p u) (\<lambda>u t. snd ` set ys \<subseteq> ips \<and> u = [] \<and> ready (st_world t)) (\<lambda>_ _. False) s"
      by (simp add: probe_peer_def peer_settled_def http_def wp_bnd wp_call wp_ret)
  qed (use assms in auto)
  then show ?thesis unfolding preflight_def preflight_peers_reachable_def wp_bnd
    by (rule wp_mono) (auto simp: wp_bnd wp_call wp_ret log_line_def)
qed

lemma apply_ok:
  assumes "ready (st_world s)" "\<forall>(l, n, ip) \<in> set es. ip \<in> ips"
  shows "wp (apply_everywhere sys cfg h es)
    (\<lambda>_ t. ready (st_world t) \<and> (\<forall>(l, n, ip) \<in> set es. hosts (st_world t) ip = Some h)) (\<lambda>_ _. False) s"
proof -
  let ?I = "\<lambda>xs (q :: rat) (t :: 'w st). (\<forall>(l, n, ip) \<in> set xs. ip \<in> ips) \<and> ready (st_world t)
      \<and> (\<forall>e \<in> set es. e \<in> set xs \<or> hosts (st_world t) (snd (snd e)) = Some h)"
  have "wp (fold_io (apply_one sys cfg h step) es q) (?I []) (\<lambda>_ _. False) s" for step q
  proof (rule wp_fold_io [where I = ?I])
    fix e ys q s
    assume a: "?I (e # ys) q s"
    obtain l n ip where e: "e = (l, n, ip)" by (cases e)
    with a obtain d w' where "sys_http sys (sync_host_call cfg ip h) (st_world s) = (Http_response 200 (Some d), w')"
      "field_true d ''applied''" "ready w'" "hosts w' = (hosts (st_world s))(ip \<mapsto> h)"
      using sync [of "st_world s" ip] by auto
    with a e show "wp (apply_one sys cfg h step e q) (?I ys) (\<lambda>_ _. False) s"
      by (auto simp: apply_one_def rpc_sync_pulsar_host_def http_def wp_bnd wp_call wp_ret wp_try_except log_line_def set_progress_def success_def)
  qed (use assms in auto)
  then show ?thesis unfolding apply_everywhere_def wp_bnd wp_ret by (rule wp_mono) auto
qed

lemma verify_ok:
  assumes "ready (st_world s)" "snd ` set (addressed ps) \<subseteq> ips" "\<forall>p \<in> set (addressed ps). hosts (st_world s) (snd p) = Some h"
  shows "wp (post_verify sys cfg ps h current_host False)
    (\<lambda>_ t. \<forall>p \<in> set (addressed ps). hosts (st_world t) (snd p) = Some h) (\<lambda>_ _. False) s"
proof -
  let ?I = "\<lambda>xs (bad :: (string \<times> string) list) (t :: 'w st). set xs \<subseteq> set (addressed ps) \<and> bad = [] \<and> ready (st_world t)
      \<and> (\<forall>p \<in> set (addressed ps). hosts (st_world t) (snd p) = Some h)"
  have v: "wp (fold_io (verify_peer sys cfg h) (addressed ps) []) (?I []) (\<lambda>_ _. False) s'"
    if "ready (st_world s')" "\<forall>p \<in> set (addressed ps). hosts (st_world s') (snd p) = Some h" for s'
  proof (rule wp_fold_io [where I = ?I])
    fix p ys bad s
    assume a: "?I (p # ys) bad s"
    then obtain r w' where "sys_http sys (get_host_call cfg (snd p)) (st_world s) = (r, w')"
      "reported_host r = map_option JStr (hosts (st_world s) (snd p))" "ready w'" "hosts w' = hosts (st_world s)"
      using report [of "st_world s" "snd p"] assms(2) by auto
    with a show "wp (verify_peer sys cfg h p bad) (?I ys) (\<lambda>_ _. False) s"
      by (auto simp: verify_peer_def http_def wp_bnd wp_call wp_ret)
  qed (use that in auto)
  show ?thesis
    unfolding post_verify_def verify_pulsar_host_everywhere_def
    by (simp add: wp_bnd wp_call log_line_def wp_ret, rule wp_mono [OF v]) (use assms in \<open>auto simp: wp_ret\<close>)
qed

lemma migrate_ok:
  assumes "ready (st_world s)" "dict_ok ps" "Option.bind (dict_get ps h) ip_of = Some target_ip" "target_ip \<noteq> []"
    and "snd ` set (addressed ps) \<subseteq> ips"
  shows "wp (migrate sys cfg ps h target_ip current_host force)
    (\<lambda>_ t. \<forall>p \<in> set (addressed ps). hosts (st_world t) (snd p) = Some h) (\<lambda>_ _. False) s"
proof -
  let ?cur = "or_empty (Option.bind (dict_get ps current_host) ip_of)"
  let ?es = "sequenced ps h target_ip current_host ?cur False"
  have es: "snd ` set ?es = set (addressed ps)" by (rule sequenced_covers [OF assms(2-4)])
  have each: "(\<forall>(l, n, ip) \<in> set ?es. P ip) \<longleftrightarrow> (\<forall>p \<in> set (addressed ps). P (snd p))" for P
    unfolding es [symmetric] ball_simps(9) case_prod_beta ..
  have i: "\<forall>(l, n, ip) \<in> set ?es. ip \<in> ips" unfolding each using assms(5) by (rule image_subset_iff [THEN iffD1])
  have last: "wp (bnd (post_verify sys cfg ps h current_host False) (\<lambda>_. bnd (log_line l) (\<lambda>_. set_progress 1)))
      (\<lambda>_ t. \<forall>p \<in> set (addressed ps). hosts (st_world t) (snd p) = Some h) (\<lambda>_ _. False) s'"
    if "ready (st_world s')" "\<forall>p \<in> set (addressed ps). hosts (st_world s') (snd p) = Some h" for s' l
    by (subst wp_bnd, rule wp_mono [OF verify_ok [OF that(1) assms(5) that(2)]]) (simp_all add: wp_bnd wp_call log_line_def set_progress_def)
  have rest: "wp (bnd (apply_everywhere sys cfg h ?es) (\<lambda>_. bnd (post_verify sys cfg ps h current_host False)
        (\<lambda>_. bnd (log_line l) (\<lambda>_. set_progress 1))))
      (\<lambda>_ t. \<forall>p \<in> set (addressed ps). hosts (st_world t) (snd p) = Some h) (\<lambda>_ _. False) s'"
    if "ready (st_world s')" for s' l
    by (subst wp_bnd, rule wp_mono [OF apply_ok [OF that i]], unfold each) (use last in auto)
  show ?thesis
    unfolding migrate_def Let_def
  proof (subst wp_log_bnd, subst wp_progress_bnd, subst wp_bnd, rule wp_mono [OF preflight_ok [OF _ assms(5)]], goal_cases)
    case (2 skip t)
    then show ?case by (simp add: wp_progress_bnd, subst wp_bnd, unfold wp_ret, intro rest) simp
  qed (use assms(1) in simp_all)
qed

end

section \<open>Fleets whose daemons obey\<close>

text \<open>The daemon at the address listens where the leader asks and accepts its token; the host's name is a plain
  word. A fleet is ready when every daemon finds a tidy \<open>cluster.env\<close> and its shell commands succeed
  (an empty script).\<close>

definition trusted :: "(string \<Rightarrow> app option) \<Rightarrow> daemon_config \<Rightarrow> string \<Rightarrow> string \<Rightarrow> bool" where
  "trusted apps cfg h ip \<longleftrightarrow> plain h \<and>
     (case apps ip of
        None \<Rightarrow> False
      | Some app \<Rightarrow> listen_port (ap_config app) = listen_port cfg \<and> require_token (ap_config app) (bearer (cluster_token cfg)) = Inr ())"

definition host_ready :: "world \<Rightarrow> bool" where
  "host_ready w \<longleftrightarrow> w_runs w = [] \<and>
     (case map_of (w_files w) ''/repo/cluster.env'' of None \<Rightarrow> False | Some text \<Rightarrow> tidy ''PULSAR_HOST'' text)"

definition fleet_ready :: "(string \<Rightarrow> app option) \<Rightarrow> fleet \<Rightarrow> bool" where
  "fleet_ready apps fl \<longleftrightarrow> (\<forall>ip. apps ip \<noteq> None \<longrightarrow> host_ready (at_host fl ip))"

lemma fleet_ready_after:
  assumes "fleet_ready apps fl" "host_ready w"
  shows "fleet_ready apps (after_host fl ip w)"
  unfolding fleet_ready_def
proof (intro allI impI)
  fix ip'
  assume a: "apps ip' \<noteq> None"
  show "host_ready (at_host (after_host fl ip w) ip')"
  proof (cases "ip = ip'")
    case False
    then have "w_runs (at_host (after_host fl ip w) ip') = w_runs (at_host fl ip')"
      by (simp add: at_host_def after_host_def update_conv' Let_def split: option.split)
    with False a assms(1) show ?thesis by (simp add: fleet_ready_def host_ready_def files_elsewhere)
  qed (use assms(2) in simp)
qed

lemma trusted_call:
  assumes "trusted apps cfg h ip" "hc_ip c = ip" "hc_port c = listen_port cfg" "hc_token c = cluster_token cfg"
    and "declared (hc_method c) (hc_path c)"
  obtains app where "apps ip = Some app"
    and "\<And>fl r t. (if hc_method c = GET then unchanged app (route_get mem_sys app (hc_path c) (hc_body c))
            else route_post mem_sys app (hc_path c) (hc_body c)) (start (at_host fl ip)) = (r, t)
          \<Longrightarrow> remote_call apps c fl = (to_http r, after_host fl ip (st_world t))"
proof -
  from assms(1) obtain app where app: "apps ip = Some app" "listen_port (ap_config app) = listen_port cfg"
    "require_token (ap_config app) (bearer (cluster_token cfg)) = Inr ()"
    by (auto simp: trusted_def split: option.splits)
  show thesis
    by (rule that [OF app(1)]) (use app assms(2-5) in \<open>simp add: remote_call_def serve_def\<close>)
qed

lemma plain_value: "plain v \<Longrightarrow> one_line v" "plain v \<Longrightarrow> clean_value v = v"
  using plain_join(1,2) [of "[v]"] by simp_all

text \<open>What \<open>sync-pulsar-host\<close> does on a host that is ready.\<close>

lemma sync_on_host:
  assumes "host_ready (st_world s)" "plain h"
  obtains t where "post_admin_sync_pulsar_host mem_sys app h s = (Inr (ok [(''applied'', JBool True)]), t)"
    and "host_ready (st_world t)" and "pulsar_setting (st_world t) = h"
proof -
  from assms(1) obtain tx where w: "w_runs (st_world s) = []"
    and f: "map_of (w_files (st_world s)) ''/repo/cluster.env'' = Some tx" and ti: "tidy ''PULSAR_HOST'' tx"
    by (auto simp: host_ready_def split: option.splits)
  have k: "key_ok ''PULSAR_HOST''" by code_simp
  have e: "universal_nl tx = [] \<or> last (universal_nl tx) = nl" using ti by (simp add: tidy_def)
  note v = plain_value [OF assms(2)]
  let ?new = "upsert_text ''PULSAR_HOST'' h tx"
  have none: "to_recreate xs [] = []" for xs by (simp add: to_recreate_def)
  let ?r = "post_admin_sync_pulsar_host mem_sys app h s"
  have "fst ?r = Inr (ok [(''applied'', JBool True)]) \<and> w_runs (st_world (snd ?r)) = []
      \<and> map_of (w_files (st_world (snd ?r))) ''/repo/cluster.env'' = Some ?new"
    by (simp add: post_admin_sync_pulsar_host_def apply_pulsar_host_change_def try_except_def bnd_def upsert_kv_def read_file_def
        write_file_def call_def run_cmd_def w f pop_script_def none ret_def update_conv' Let_def)
  moreover have "tidy ''PULSAR_HOST'' ?new" by (rule tidy_upsert [OF k v(1) ti k e])
  moreover have "text_value ''PULSAR_HOST'' ?new = Some h" using tidy_read(1) [OF k v(1) ti] v(2) by simp
  ultimately show thesis
    by (intro that [of "snd ?r"]) (auto simp: host_ready_def pulsar_setting_def prod_eq_iff)
qed

lemma fleet_hosts_after:
  "apps ip \<noteq> None \<Longrightarrow> fleet_hosts apps (after_host fl ip w) = (fleet_hosts apps fl)(ip \<mapsto> pulsar_setting w)"
  by (auto simp: fleet_hosts_def fun_eq_iff pulsar_setting_def files_elsewhere)

interpretation fleet_obeys: obedient_peers "fleet_sys apps me" cfg "{ip. trusted apps cfg h ip}" "fleet_ready apps" "fleet_hosts apps" h
  for apps me cfg h
proof (unfold_locales, unfold mem_Collect_eq fleet_http, goal_cases)
  case (1 w ip)
  have d: "declared GET ''/health''" by code_simp
  obtain app where app: "apps ip = Some app" and c: "\<And>fl r t. unchanged app (route_get mem_sys app ''/health'' []) (start (at_host fl ip)) = (r, t)
      \<Longrightarrow> remote_call apps (health_call ip (listen_port cfg) (cluster_token cfg)) fl = (to_http r, after_host fl ip (st_world t))"
    by (rule trusted_call [OF 1(2), of "health_call ip (listen_port cfg) (cluster_token cfg)"]) (simp_all add: health_call_def d)
  have "unchanged app (route_get mem_sys app ''/health'' []) (start (at_host w ip)) = (Inr (health app, app), start (at_host w ip))"
    by (simp add: unchanged_def route_get_def bnd_def ret_def)
  from c [OF this] show ?case
    using fleet_ready_after [OF 1(1), of "at_host w ip" ip] 1(1) app
    by (auto simp: to_http_def health_def ok_def start_def fleet_ready_def)
next
  case (2 w ip)
  have d: "declared POST ''/admin/sync-pulsar-host''" by code_simp
  obtain app where app: "apps ip = Some app" and c: "\<And>fl r t. route_post mem_sys app ''/admin/sync-pulsar-host'' [(''pulsar_host'', JStr h)]
        (start (at_host fl ip)) = (r, t)
      \<Longrightarrow> remote_call apps (sync_host_call cfg ip h) fl = (to_http r, after_host fl ip (st_world t))"
    by (rule trusted_call [OF 2(2), of "sync_host_call cfg ip h"]) (simp_all add: sync_host_call_def d)
  have hr: "host_ready (st_world (start (at_host w ip)))" using 2(1) app by (auto simp: fleet_ready_def start_def)
  have "plain h" using 2(2) by (simp add: trusted_def)
  from sync_on_host [OF hr this] obtain t where t: "post_admin_sync_pulsar_host mem_sys app h (start (at_host w ip))
      = (Inr (ok [(''applied'', JBool True)]), t)" "host_ready (st_world t)" "pulsar_setting (st_world t) = h" by blast
  have "route_post mem_sys app ''/admin/sync-pulsar-host'' [(''pulsar_host'', JStr h)] (start (at_host w ip))
      = (Inr (ok [(''applied'', JBool True)], app), t)"
    by (simp add: route_post_def with_model_def request_models get_str_def dict_get_def unchanged_def bnd_def t(1) ret_def)
  from c [OF this] show ?case
    using fleet_ready_after [OF 2(1) t(2)] fleet_hosts_after [of apps ip w "st_world t"] t(3) app
    by (auto simp: to_http_def ok_def field_true_def dict_get_def)
next
  case (3 w ip)
  have d: "declared GET ''/admin/get-pulsar-host''" by code_simp
  obtain app where app: "apps ip = Some app" and c: "\<And>fl r t. unchanged app (route_get mem_sys app ''/admin/get-pulsar-host'' []) (start (at_host fl ip)) = (r, t)
      \<Longrightarrow> remote_call apps (get_host_call cfg ip) fl = (to_http r, after_host fl ip (st_world t))"
    by (rule trusted_call [OF 3(2), of "get_host_call cfg ip"]) (simp_all add: get_host_call_def d)
  let ?s = "start (at_host w ip)"
  have "unchanged app (route_get mem_sys app ''/admin/get-pulsar-host'' []) ?s
      = (Inr (ok [(''pulsar_host'', JStr (pulsar_setting (at_host w ip)))], app), ?s\<lparr>st_trace := [A_read ''/repo/cluster.env'']\<rparr>)"
    by (simp add: unchanged_def route_get_def api_get_pulsar_host_def get_admin_pulsar_host_def bnd_def ret_def read_file_def call_def
        pulsar_setting_def start_def)
  from c [OF this] show ?case
    using fleet_ready_after [OF 3(1), of "at_host w ip" ip] fleet_hosts_after [of apps ip w "at_host w ip"] 3(1) app
    by (auto simp: to_http_def ok_def reported_host_def dict_get_def start_def fleet_ready_def fleet_hosts_def fun_eq_iff)
qed

lemma migration_runs:
  assumes "fleet_ready apps (st_world s)" and "dict_ok ps"
    and "Option.bind (dict_get ps to_node) ip_of = Some target_ip" and "target_ip \<noteq> []"
    and "\<And>p. p \<in> set (addressed ps) \<Longrightarrow> trusted apps cfg to_node (snd p)"
  shows "\<exists>t. migrate (fleet_sys apps me) cfg ps to_node target_ip current_host force s = (Inr (), t)
    \<and> (\<forall>p \<in> set (addressed ps). fleet_hosts apps (st_world t) (snd p) = Some to_node)"
proof -
  have "snd ` set (addressed ps) \<subseteq> {ip. trusted apps cfg to_node ip}" using assms(5) by blast
  from fleet_obeys.migrate_ok [OF assms(1-4) this, of me current_host force]
  show ?thesis unfolding wp_def
    by (cases "migrate (fleet_sys apps me) cfg ps to_node target_ip current_host force s";
        cases "fst (migrate (fleet_sys apps me) cfg ps to_node target_ip current_host force s)") auto
qed


text \<open>Two hosts, with node-1 as Pulsar host in their settings.\<close>

definition duo_file :: string where
  "duo_file = ''MQ_TYPE=pulsar'' @ [nl] @ ''PULSAR_HOST=node-1'' @ [nl]"

definition duo_apps :: "string \<Rightarrow> app option" where
  "duo_apps ip = (if ip = ''10.0.0.1'' \<or> ip = ''10.0.0.2'' then Some duo_app else None)"

definition duo_fleet :: fleet where
  "duo_fleet = \<lparr>fl_etcd = world0, fl_hosts =
     [(''10.0.0.1'', world0\<lparr>w_files := [(''/repo/cluster.env'', duo_file)]\<rparr>),
      (''10.0.0.2'', world0\<lparr>w_files := [(''/repo/cluster.env'', duo_file)]\<rparr>)]\<rparr>"

definition fleet_start :: "fleet \<Rightarrow> fleet st" where
  "fleet_start fl = \<lparr>st_endpoints = [''http://10.0.0.1:2379''], st_idx = 0, st_trace = [], st_world = fl\<rparr>"

lemma duo_fleet_ready: "fleet_ready duo_apps (st_world (fleet_start duo_fleet))"
proof -
  have "host_ready (at_host duo_fleet ''10.0.0.1'')" "host_ready (at_host duo_fleet ''10.0.0.2'')" by code_simp+
  then show ?thesis by (auto simp: fleet_ready_def duo_apps_def fleet_start_def split: if_splits)
qed

lemma duo_trusted:
  assumes "p \<in> set (addressed duo)"
  shows "trusted duo_apps near_cfg ''node-2'' (snd p)"
proof -
  have "list_all (\<lambda>p. trusted duo_apps near_cfg ''node-2'' (snd p)) (addressed duo)" by code_simp
  with assms show ?thesis by (simp add: list_all_iff)
qed

lemma duo_target:
  "dict_ok duo" "Option.bind (dict_get duo ''node-2'') ip_of = Some ''10.0.0.2''" "''10.0.0.2'' \<noteq> []"
  by code_simp+

lemma duo_addressed: "(''node-1'', ''10.0.0.1'') \<in> set (addressed duo)" "(''node-2'', ''10.0.0.2'') \<in> set (addressed duo)"
  by code_simp+



section \<open>Rotating the token again\<close>

text \<open>A rotation that failed halfway cannot be finished by the retry that its error message asks for: as long as
  one follower's daemon already runs with the new token while the leader still has the old one, that
  follower refuses the leader's request, so the retry fails as well and the leader never changes.\<close>

theorem half_rotated_retry_fails:
  assumes "p \<in> set (rotate_targets cfg ps)" and "set (schedule (rotate_targets cfg ps)) = set (rotate_targets cfg ps)"
    and "apps (snd p) = Some app"
    and "cluster_token (ap_config app) = or_empty (get_str params ''new_token'')"
    and "strip (cluster_token cfg) \<noteq> cluster_token (ap_config app)"
  shows "only (\<lambda>a. \<not> local_change a) (run_rotate_token (fleet_sys apps me) cfg is_leader ps img schedule params)
    \<and> (\<exists>e t. run_rotate_token (fleet_sys apps me) cfg is_leader ps img schedule params s = (Inl e, t))"
proof -
  have tok: "require_token (ap_config app) (bearer (cluster_token cfg)) \<noteq> Inr ()" using assms(5) by (simp add: bearer_accepted)
  have "\<not> is_open POST ''/rotate-self''" by (simp add: is_open_def)
  note ref = serve_refuses [OF tok this]
  have "\<not> peer_ok (fst (remote_call apps (rotate_call cfg tk (snd p)) w))" for tk w
    using assms(3) ref [of mem_sys "[(''new_token'', JStr tk)]" "start (at_host w (snd p))"]
    by (auto simp: remote_call_def rotate_call_def peer_ok_def to_http_def Let_def)
  then have "\<not> peer_ok (fst (sys_http (fleet_sys apps me) (rotate_call cfg (or_empty (get_str params ''new_token'')) (snd p)) w))" for w
    by simp
  from rotation_blocked [where schedule = schedule, OF assms(1,2) this] show ?thesis .
qed

definition new_token :: string where
  "new_token = replicate 32 (CHR ''a'')"

theorem half_rotated_retry_fails_witness:
  "\<exists>e t. run_rotate_token (fleet_sys (duo_apps(''10.0.0.2'' := Some (duo_app\<lparr>ap_config := near_cfg\<lparr>cluster_token := new_token\<rparr>\<rparr>))) ''10.0.0.1'')
     near_cfg True duo None id [(''new_token'', JStr new_token)] (fleet_start duo_fleet) = (Inl e, t)"
proof -
  let ?app = "duo_app\<lparr>ap_config := near_cfg\<lparr>cluster_token := new_token\<rparr>\<rparr>"
  have m: "(''node-2'', ''10.0.0.2'') \<in> set (rotate_targets near_cfg duo)" by code_simp
  have i: "set (id (rotate_targets near_cfg duo)) = set (rotate_targets near_cfg duo)" by simp
  have a: "(duo_apps(''10.0.0.2'' := Some ?app)) (snd (''node-2'', ''10.0.0.2'')) = Some ?app" unfolding snd_conv fun_upd_same ..
  have t: "cluster_token (ap_config ?app) = or_empty (get_str [(''new_token'', JStr new_token)] ''new_token'')"
    "strip (cluster_token near_cfg) \<noteq> cluster_token (ap_config ?app)" by code_simp+
  from half_rotated_retry_fails [where schedule = id and apps = "duo_apps(''10.0.0.2'' := Some ?app)", OF m i a t] show ?thesis by blast
qed

end
