(* ===== verification/Lifecycle.thy ===== *)
theory Lifecycle
  imports Jobs Leader Version_Upgrade
begin

text \<open>
  \<open>src/daemon/main.py\<close>: what a daemon does on its own between start and shutdown. It registers itself in
  the topology and the cluster's version in etcd, each only if absent and without failing the start;
  its two sweep loops tick on every daemon but act only on the leader. A sweep loop is given the leader flags it sees at its ticks; the stop event ends it.
\<close>

section \<open>Registration\<close>

text \<open>The first line that starts with the key; its value is stripped of blanks, quotes are kept.\<close>

fun image_tag :: "string list \<Rightarrow> string option" where
  "image_tag [] = None"
| "image_tag (line # ls) =
     (if startswith line ''MILVUS_IMAGE_TAG='' then Some (strip (snd (partition_at (CHR ''='') line))) else image_tag ls)"

definition register_cluster_version :: "'w sys \<Rightarrow> ('w, unit) io" where
  "register_cluster_version sys =
     bnd (read_file sys ''/repo/cluster.env'') (\<lambda>c.
       case c of
         None \<Rightarrow> ret ()
       | Some text \<Rightarrow>
           (case image_tag (readlines (universal_nl text)) of
              None \<Rightarrow> ret ()
            | Some tag \<Rightarrow> bnd (put_if_absent sys CLUSTER_VERSION_KEY (Text tag) None) (\<lambda>_. ret ())))"

definition self_entry :: "daemon_config \<Rightarrow> time \<Rightarrow> obj" where
  "self_entry cfg t = [(''name'', JStr (node_name cfg)), (''ip'', JStr (local_ip cfg)), (''joined_at'', JNum t), (''role'', JStr ''peer'')]"

definition register_self_if_absent :: "'w sys \<Rightarrow> daemon_config \<Rightarrow> ('w, unit) io" where
  "register_self_if_absent sys cfg =
     (let key = TOPOLOGY_PREFIX @ node_name cfg in
      bnd (etcd_get sys key) (\<lambda>existing.
        if existing \<noteq> None then ret ()
        else bnd (now sys) (\<lambda>t. bnd (put_if_absent sys key (Json (self_entry cfg t)) None) (\<lambda>_. ret ()))))"

text \<open>The part of \<open>lifespan\<close> before the background tasks start.\<close>

definition startup :: "'w sys \<Rightarrow> daemon_config \<Rightarrow> ('w, unit) io" where
  "startup sys cfg =
     bnd (try_except (register_self_if_absent sys cfg) (\<lambda>_. ret ())) (\<lambda>_.
       try_except (register_cluster_version sys) (\<lambda>_. ret ()))"

section \<open>Sweeps\<close>

fun retention_loop :: "'w sys \<Rightarrow> daemon_config \<Rightarrow> bool list \<Rightarrow> ('w, unit) io" where
  "retention_loop sys cfg [] = ret ()"
| "retention_loop sys cfg (is_leader # ticks) =
     bnd (if is_leader then try_except (bnd (prune_old sys (jobs_retention_s cfg)) (\<lambda>_. ret ())) (\<lambda>_. ret ()) else ret ()) (\<lambda>_.
       retention_loop sys cfg ticks)"

fun stuck_sweep_loop :: "'w sys \<Rightarrow> daemon_config \<Rightarrow> bool list \<Rightarrow> ('w, unit) io" where
  "stuck_sweep_loop sys cfg [] = ret ()"
| "stuck_sweep_loop sys cfg (is_leader # ticks) =
     bnd (if is_leader then try_except (bnd (prune_stuck_running sys (jobs_heartbeat_timeout_s cfg)) (\<lambda>_. ret ())) (\<lambda>_. ret ()) else ret ())
       (\<lambda>_. stuck_sweep_loop sys cfg ticks)"

section \<open>Properties\<close>

text \<open>A registration step: existing keys stay as they are, and only one key may appear.\<close>

definition adds_only :: "string \<Rightarrow> (etcd_value \<Rightarrow> bool) \<Rightarrow> (string \<rightharpoonup> etcd_value) \<Rightarrow> (string \<rightharpoonup> etcd_value) \<Rightarrow> bool" where
  "adds_only key P m m' \<longleftrightarrow> m' = m \<or> m key = None \<and> (\<exists>v. P v \<and> m' = m(key \<mapsto> v))"

definition own_entry :: "daemon_config \<Rightarrow> etcd_value \<Rightarrow> bool" where
  "own_entry cfg v \<longleftrightarrow> (\<exists>t. v = Json (self_entry cfg t))"

lemma adds_only_intros [simp]:
  "adds_only key P m m" "m key = None \<Longrightarrow> P v \<Longrightarrow> adds_only key P m (m(key \<mapsto> v))" "own_entry cfg (Json (self_entry cfg t))"
  by (auto simp: adds_only_def own_entry_def)

context kv_store
begin

lemma register_self_wp:
  assumes k: "TOPOLOGY_PREFIX @ node_name cfg \<notin> leased"
  shows "wp (register_self_if_absent sys cfg)
    (\<lambda>_ t. adds_only (TOPOLOGY_PREFIX @ node_name cfg) (own_entry cfg) (kv (st_world s)) (kv (st_world t))
       \<and> kv (st_world t) (TOPOLOGY_PREFIX @ node_name cfg) \<noteq> None)
    (\<lambda>e t. is_Exception e \<and> adds_only (TOPOLOGY_PREFIX @ node_name cfg) (own_entry cfg) (kv (st_world s)) (kv (st_world t))) s"
  unfolding register_self_if_absent_def Let_def wp_bnd
proof (rule wp_mono [OF get_spec [OF k]], goal_cases)
  case (1 r t)
  then show ?case
    by (auto simp: wp_ret wp_bnd now_def wp_call clock_spec split: if_splits
        intro!: wp_mono [OF put_if_absent_spec [OF k]])
qed simp

lemma register_version_wp:
  assumes k: "CLUSTER_VERSION_KEY \<notin> leased"
  shows "wp (register_cluster_version sys)
    (\<lambda>_ t. adds_only CLUSTER_VERSION_KEY (\<lambda>v. \<exists>tag. v = Text tag) (kv (st_world s)) (kv (st_world t)))
    (\<lambda>e t. is_Exception e \<and> adds_only CLUSTER_VERSION_KEY (\<lambda>v. \<exists>tag. v = Text tag) (kv (st_world s)) (kv (st_world t))) s"
  unfolding register_cluster_version_def wp_bnd read_file_def wp_call
  by (auto simp: wp_ret wp_bnd clock_spec split: option.splits if_splits
      intro!: wp_mono [OF put_if_absent_spec [OF k]])

lemma startup_wp:
  assumes k: "TOPOLOGY_PREFIX @ node_name cfg \<notin> leased" "CLUSTER_VERSION_KEY \<notin> leased"
  shows "wp (startup sys cfg)
    (\<lambda>_ t. \<exists>m. adds_only (TOPOLOGY_PREFIX @ node_name cfg) (own_entry cfg) (kv (st_world s)) m
       \<and> adds_only CLUSTER_VERSION_KEY (\<lambda>v. \<exists>tag. v = Text tag) m (kv (st_world t))) (\<lambda>_ _. False) s"
proof -
  let ?P = "adds_only (TOPOLOGY_PREFIX @ node_name cfg) (own_entry cfg) (kv (st_world s))"
  have a: "wp (try_except (register_self_if_absent sys cfg) (\<lambda>_. ret ())) (\<lambda>_ t. ?P (kv (st_world t))) (\<lambda>_ _. False) s"
    unfolding wp_try_except wp_ret by (rule wp_mono [OF register_self_wp [OF k(1)]]) auto
  have b: "wp (try_except (register_cluster_version sys) (\<lambda>_. ret ()))
      (\<lambda>_ u. adds_only CLUSTER_VERSION_KEY (\<lambda>v. \<exists>tag. v = Text tag) (kv (st_world t)) (kv (st_world u))) (\<lambda>_ _. False) t" for t
    unfolding wp_try_except wp_ret by (rule wp_mono [OF register_version_wp [OF k(2)]]) auto
  show ?thesis unfolding startup_def wp_bnd
    by (rule wp_mono [OF a], rule wp_mono [OF b]) auto
qed

end

text \<open>C37. A daemon's start never fails for etcd's sake and overwrites nothing: whatever etcd does, \<open>startup\<close> returns;
  every key that was set keeps its value; the only keys that may appear are the daemon's own topology
  entry, with its name and address, and the version anchor.\<close>

theorem startup_registers_once:
  assumes "etcd_gateway sys leased kv"
    and "TOPOLOGY_PREFIX @ node_name cfg \<notin> leased" and "CLUSTER_VERSION_KEY \<notin> leased"
  shows "\<exists>t. startup sys cfg s = (Inr (), t)
    \<and> (\<forall>k v. kv (st_world s) k = Some v \<longrightarrow> kv (st_world t) k = Some v)
    \<and> (\<forall>k v. kv (st_world s) k = None \<and> kv (st_world t) k = Some v \<longrightarrow>
         (k = TOPOLOGY_PREFIX @ node_name cfg \<and> (\<exists>since. v = Json (self_entry cfg since)))
         \<or> (k = CLUSTER_VERSION_KEY \<and> (\<exists>tag. v = Text tag)))"
proof -
  obtain r t where rt: "startup sys cfg s = (r, t)" by (cases "startup sys cfg s")
  from kv_store.startup_wp [OF etcd_gateway.client [OF assms(1)] assms(2,3), of s]
  obtain m where r: "r = Inr ()" and m: "adds_only (TOPOLOGY_PREFIX @ node_name cfg) (own_entry cfg) (kv (st_world s)) m"
    "adds_only CLUSTER_VERSION_KEY (\<lambda>v. \<exists>tag. v = Text tag) m (kv (st_world t))"
    unfolding wp_def rt by (cases r) auto
  have "kv (st_world t) k = Some v" if "kv (st_world s) k = Some v" for k v
    using m that by (auto simp: adds_only_def)
  moreover have "(k = TOPOLOGY_PREFIX @ node_name cfg \<and> (\<exists>since. v = Json (self_entry cfg since)))
         \<or> (k = CLUSTER_VERSION_KEY \<and> (\<exists>tag. v = Text tag))"
    if "kv (st_world s) k = None" "kv (st_world t) k = Some v" for k v
    using m that by (auto simp: adds_only_def own_entry_def split: if_splits)
  ultimately show ?thesis using rt r by blast
qed

theorem startup_registers_once_witness:
  "\<exists>t. startup mem_sys quiet_cfg (start two_nodes) = (Inr (), t)
     \<and> map_of (w_kv (st_world t)) ''/cluster/topology/peers/node-1'' = Some (Json (node_entry ''10.0.0.1''))"
proof -
  have k: "TOPOLOGY_PREFIX @ node_name quiet_cfg \<notin> lease_keys" "CLUSTER_VERSION_KEY \<notin> lease_keys" by code_simp+
  have e: "map_of (w_kv (st_world (start two_nodes))) ''/cluster/topology/peers/node-1'' = Some (Json (node_entry ''10.0.0.1''))"
    by code_simp
  from startup_registers_once [OF mem.etcd_gateway_axioms k, of "start two_nodes"] e show ?thesis by blast
qed

text \<open>The anchor keeps quotes that every reader of the same file drops.\<close>

definition quoted_tag_file :: string where
  "quoted_tag_file = ''MILVUS_IMAGE_TAG='' @ [CHR 0x22] @ ''v2.5.4'' @ [CHR 0x22, nl]"

lemma anchor_keeps_quotes:
  "image_tag (readlines (universal_nl quoted_tag_file)) = Some ([CHR 0x22] @ ''v2.5.4'' @ [CHR 0x22])
   \<and> text_value ''MILVUS_IMAGE_TAG'' quoted_tag_file = Some ''v2.5.4''"
  by code_simp

end
