(* ===== verification/Job_Types.thy ===== *)
theory Job_Types
  imports Jobs Lifecycle
begin

text \<open>
  The typing of the stored jobs: what \<open>src/daemon/jobs.py\<close> promises of every entry under its prefix, and that
  creation, execution and both sweeps keep it, whether they succeed or fail.
\<close>

section \<open>Well-typed jobs\<close>

definition job_states :: "string list" where
  "job_states = [''pending'', ''running'', ''done'', ''failed'', ''cancelled'']"

text \<open>A known state, a progress between 0 and 1, a bounded log, and a finish time exactly when it has ended.\<close>

definition typed_job :: "job \<Rightarrow> bool" where
  "typed_job j \<longleftrightarrow> j_state j \<in> set job_states \<and> 0 \<le> j_progress j \<and> j_progress j \<le> 1 \<and> length (j_logs j) \<le> LOG_TAIL_LINES
     \<and> (terminal (j_state j) \<longleftrightarrow> j_finished_at j \<noteq> None)"

definition jobs_typed :: "(string \<rightharpoonup> etcd_value) \<Rightarrow> bool" where
  "jobs_typed m \<longleftrightarrow> (\<forall>jid j. job_view m jid = Some j \<longrightarrow> j_id j = jid \<and> typed_job j)"

lemma jobs_typed_put [intro]: "jobs_typed m \<Longrightarrow> typed_job j \<Longrightarrow> jobs_typed (m(job_key (j_id j) \<mapsto> Json (to_json j)))"
  by (simp add: jobs_typed_def)

lemma jobs_typed_delete [intro]: "jobs_typed m \<Longrightarrow> jobs_typed (m(job_key jid := None))"
  by (simp add: jobs_typed_def)

lemma jobs_typed_listed: "jobs_typed m \<Longrightarrow> listed m j \<Longrightarrow> typed_job j"
  by (auto simp: jobs_typed_def listed_def)

lemma jobs_typed_wf: "jobs_typed m \<Longrightarrow> jobs_wf m"
  by (auto simp: jobs_typed_def jobs_wf_def)

text \<open>The steps of a job's life keep its type.\<close>

lemma state_names: "''running'' \<in> set job_states" "''done'' \<in> set job_states" "''failed'' \<in> set job_states"
  "''cancelled'' \<in> set job_states" "''pending'' \<in> set job_states"
  "terminal ''done''" "terminal ''failed''" "terminal ''cancelled''" "\<not> terminal ''running''" "\<not> terminal ''pending''"
  by code_simp+

lemma typed_job_log [simp]: "typed_job j \<Longrightarrow> typed_job (log_writer l j)"
  by (simp add: typed_job_def log_writer_def Let_def) arith

lemma typed_job_progress [simp]: "typed_job j \<Longrightarrow> typed_job (progress_setter p j)"
  by (simp add: typed_job_def progress_setter_def)

lemma typed_job_heartbeat [simp]: "typed_job j \<Longrightarrow> typed_job (j\<lparr>j_last_heartbeat := h\<rparr>)"
  by (simp add: typed_job_def)

lemma typed_job_stuck: "typed_job j \<Longrightarrow> typed_job (j\<lparr>j_state := ''failed'', j_finished_at := Some t, j_error := e\<rparr>)"
  by (simp add: typed_job_def state_names)

lemma typed_job_running: "typed_job j \<Longrightarrow> \<not> terminal (j_state j) \<Longrightarrow> typed_job (j\<lparr>j_state := ''running'', j_last_heartbeat := h\<rparr>)"
  by (simp add: typed_job_def state_names)

lemma typed_job_outcome: "typed_job j \<Longrightarrow> typed_job ((set_outcome out j)\<lparr>j_finished_at := Some t\<rparr>)"
  by (cases out) (simp_all add: typed_job_def state_names)

text \<open>What a worker does to the store besides reporting keeps the jobs typed.\<close>

definition worker_typed :: "('w \<Rightarrow> string \<rightharpoonup> etcd_value) \<Rightarrow> 'w tick list \<Rightarrow> bool" where
  "worker_typed kv ticks \<longleftrightarrow> (\<forall>f w. T_work f \<in> set ticks \<longrightarrow> jobs_typed (kv w) \<longrightarrow> jobs_typed (kv (f w)))"

section \<open>Operations that keep an invariant of the store\<close>

definition preserves :: "('w \<Rightarrow> string \<rightharpoonup> etcd_value) \<Rightarrow> ((string \<rightharpoonup> etcd_value) \<Rightarrow> bool) \<Rightarrow> ('w, 'a) io \<Rightarrow> ('a \<Rightarrow> bool) \<Rightarrow> bool" where
  "preserves kv I m P \<longleftrightarrow> (\<forall>s. I (kv (st_world s)) \<longrightarrow> wp m (\<lambda>x t. I (kv (st_world t)) \<and> P x) (\<lambda>_ t. I (kv (st_world t))) s)"

named_theorems preserves_intros \<open>composition of operations that keep an invariant\<close>

lemma preserves_ret [preserves_intros]: "P x \<Longrightarrow> preserves kv I (ret x) P"
  by (simp add: preserves_def wp_ret)

lemma preserves_raise [preserves_intros]: "preserves kv I (raise e) P"
  by (simp add: preserves_def wp_raise)

lemma preserves_bnd: "preserves kv I m Q \<Longrightarrow> (\<And>x. Q x \<Longrightarrow> preserves kv I (f x) P) \<Longrightarrow> preserves kv I (bnd m f) P"
  unfolding preserves_def wp_bnd by (blast intro: wp_mono)

lemma preserves_seq [preserves_intros]: "preserves kv I m (\<lambda>_. True) \<Longrightarrow> (\<And>x. preserves kv I (f x) P) \<Longrightarrow> preserves kv I (bnd m f) P"
  by (rule preserves_bnd)

lemma preserves_try [preserves_intros]: "preserves kv I m P \<Longrightarrow> (\<And>e. preserves kv I (h e) P) \<Longrightarrow> preserves kv I (try_except m h) P"
  unfolding preserves_def wp_try_except by (auto intro: wp_mono)

lemma preserves_if [preserves_intros]: "(b \<Longrightarrow> preserves kv I m P) \<Longrightarrow> (\<not> b \<Longrightarrow> preserves kv I n P) \<Longrightarrow> preserves kv I (if b then m else n) P"
  by simp

lemma preserves_option [preserves_intros]:
  "preserves kv I m P \<Longrightarrow> (\<And>x. preserves kv I (f x) P) \<Longrightarrow> preserves kv I (case o' of None \<Rightarrow> m | Some x \<Rightarrow> f x) P"
  by (simp split: option.split)

lemma preserves_fold:
  assumes "\<And>x b. x \<in> set xs \<Longrightarrow> P b \<Longrightarrow> preserves kv I (f x b) P" and "P b"
  shows "preserves kv I (fold_io f xs b) P"
  using assms
proof (induction xs arbitrary: b)
  case (Cons x xs)
  then show ?case unfolding fold_io.simps by (intro preserves_bnd [of _ _ _ P]) auto
qed (simp add: preserves_ret)

lemma preserves_snd: "preserves kv I m P \<Longrightarrow> I (kv (st_world s)) \<Longrightarrow> I (kv (st_world (snd (m s))))"
  unfolding preserves_def wp_def by (cases "m s"; cases "fst (m s)") (force dest: spec [of _ s])+

context kv_store
begin

lemma preserves_clock [preserves_intros]: "preserves kv I (now sys) (\<lambda>_. True)" "preserves kv I (uuid4 sys) (\<lambda>_. True)"
  by (simp_all add: preserves_def now_def uuid4_def wp_call clock_spec)

lemma preserves_put:
  assumes "k \<notin> leased" "\<And>m. I m \<Longrightarrow> I (m(k \<mapsto> v))"
  shows "preserves kv I (etcd_put sys k v None) (\<lambda>_. True)"
  unfolding preserves_def using assms(2) by (auto intro!: wp_mono [OF put_spec [OF assms(1)]])

lemma preserves_delete:
  assumes "k \<notin> leased" "\<And>m. I m \<Longrightarrow> I (m(k := None))"
  shows "preserves kv I (etcd_delete sys k) (\<lambda>_. True)"
  unfolding preserves_def using assms(2) by (auto intro!: wp_mono [OF delete_spec [OF assms(1)]])

lemma job_key_free: "prefix_free leased JOBS_PREFIX \<Longrightarrow> job_key jid \<notin> leased"
  using job_key_simps(2) by (auto simp: prefix_free_def)

lemma preserves_put_job:
  assumes "prefix_free leased JOBS_PREFIX" "typed_job j" "jid = j_id j"
  shows "preserves kv jobs_typed (etcd_put sys (job_key jid) (Json (to_json j)) None) (\<lambda>_. True)"
  using assms by (intro preserves_put job_key_free) auto

lemma preserves_create:
  assumes L: "prefix_free leased JOBS_PREFIX"
  shows "preserves kv jobs_typed (create_job sys hs is_leader node running job_type params)
    (\<lambda>(j, _). typed_job j \<and> \<not> terminal (j_state j))"
proof -
  have ok: "typed_job \<lparr>j_id = jid, j_type = job_type, j_params = params, j_state = ''pending'', j_progress = 0, j_started_at = t,
      j_finished_at = None, j_error = None, j_owner = node, j_logs = [], j_last_heartbeat = None\<rparr>" for jid t
    by (simp add: typed_job_def state_names)
  show ?thesis unfolding create_job_def Let_def
    by (intro preserves_intros preserves_put_job [OF L ok]) (use ok in \<open>simp_all add: state_names\<close>)
qed

lemma preserves_list:
  assumes L: "prefix_free leased JOBS_PREFIX"
  shows "preserves kv jobs_typed (list_jobs sys flt) (\<lambda>js. list_all typed_job js)"
  unfolding preserves_def list_all_iff
  by (intro allI impI wp_mono [OF list_jobs_wp [OF L]]) (auto intro: jobs_typed_listed)

lemma preserves_prune_old:
  assumes L: "prefix_free leased JOBS_PREFIX"
  shows "preserves kv jobs_typed (prune_old sys retention_s) (\<lambda>_. True)"
proof -
  have one: "preserves kv jobs_typed (prune_one sys cutoff j n) (\<lambda>_. True)" for cutoff j n
    unfolding prune_one_def by (intro preserves_intros preserves_delete job_key_free [OF L] jobs_typed_delete) simp_all
  show ?thesis unfolding prune_old_def
    by (intro preserves_seq preserves_clock preserves_bnd [OF preserves_list [OF L]] preserves_fold one) simp
qed

lemma preserves_prune_stuck:
  assumes L: "prefix_free leased JOBS_PREFIX"
  shows "preserves kv jobs_typed (prune_stuck_running sys timeout_s) (\<lambda>_. True)"
proof -
  have one: "preserves kv jobs_typed (mark_stuck sys timeout_s cutoff j n) (\<lambda>_. True)" if "typed_job j" for cutoff j n
    unfolding mark_stuck_def Let_def
    by (intro preserves_intros preserves_put_job [OF L typed_job_stuck [OF that]]) simp_all
  show ?thesis unfolding prune_stuck_running_def
    by (intro preserves_seq preserves_clock preserves_bnd [OF preserves_list [OF L]] preserves_fold one) (auto simp: list_all_iff)
qed

lemma preserves_execute:
  assumes L: "prefix_free leased JOBS_PREFIX" and j: "typed_job j0" "\<not> terminal (j_state j0)"
    and work: "worker_typed kv ticks"
  shows "preserves kv jobs_typed (execute sys ticks out j0) (\<lambda>(j, _). typed_job j)"
proof -
  have tick: "preserves kv jobs_typed (exec_tick sys tk j) typed_job" if "tk \<in> set ticks" "typed_job j" for tk j
  proof (cases tk)
    case (T_work f)
    with that work show ?thesis by (auto simp: preserves_def wp_def worker_typed_def)
  next
    case T_flush
    then show ?thesis unfolding T_flush exec_tick.simps Let_def
      by (intro preserves_intros preserves_put_job [OF L]) (simp_all add: that)
  qed (simp_all add: preserves_ret that)
  show ?thesis unfolding execute_def Let_def
    by (intro preserves_seq preserves_clock preserves_put_job [OF L] preserves_bnd [OF preserves_fold [where P = typed_job]] tick preserves_try preserves_ret)
      (simp_all add: typed_job_running [OF j] typed_job_outcome)
qed

end


lemma job_world_typed: "jobs_typed (map_of (w_kv (st_world (start job_world))))"
proof -
  have "typed_job (sample_job ''a'' ''done'' 10)" "typed_job (sample_job ''b'' ''running'' 20)" by code_simp+
  then show ?thesis by (auto simp: jobs_typed_def job_world_view sample_job_def split: if_splits)
qed


section \<open>The sweep loops\<close>

lemma loops_idle:
  "True \<notin> set ticks \<Longrightarrow> retention_loop sys cfg ticks s = (Inr (), s)"
  "True \<notin> set ticks \<Longrightarrow> stuck_sweep_loop sys cfg ticks s = (Inr (), s)"
  by (induction ticks) (auto simp: ret_def bnd_def)

context kv_store
begin

lemma guarded_sweep:
  assumes "preserves kv jobs_typed m (\<lambda>_. True)" "wp m (\<lambda>_ _. True) (\<lambda>e _. is_Exception e) s" "jobs_typed (kv (st_world s))"
  shows "wp (if b then try_except (bnd m (\<lambda>_. ret ())) (\<lambda>_. ret ()) else ret ()) (\<lambda>_ t. jobs_typed (kv (st_world t))) (\<lambda>_ _. False) s"
proof -
  have "wp m (\<lambda>_ t. jobs_typed (kv (st_world t))) (\<lambda>e t. is_Exception e \<and> jobs_typed (kv (st_world t))) s"
    using assms(1) [unfolded preserves_def, rule_format, OF assms(3)] assms(2)
    by (auto simp: wp_def split: prod.splits sum.splits)
  then show ?thesis using assms(3) by (auto simp: wp_try_except wp_bnd wp_ret intro: wp_mono)
qed

lemma retention_loop_wp:
  assumes L: "prefix_free leased JOBS_PREFIX" and ty: "jobs_typed (kv (st_world s))"
  shows "wp (retention_loop sys cfg ticks) (\<lambda>_ t. jobs_typed (kv (st_world t))) (\<lambda>_ _. False) s"
  using ty
proof (induction ticks arbitrary: s)
  case (Cons b ticks)
  have "wp (prune_old sys (jobs_retention_s cfg)) (\<lambda>_ _. True) (\<lambda>e _. is_Exception e) s"
    by (rule wp_mono [OF prune_old_wp [OF L jobs_typed_wf [OF Cons.prems]]]) simp_all
  from guarded_sweep [OF preserves_prune_old [OF L] this Cons.prems]
  show ?case unfolding retention_loop.simps wp_bnd by (rule wp_mono) (use Cons.IH in auto)
qed (simp add: wp_ret)

lemma stuck_sweep_loop_wp:
  assumes L: "prefix_free leased JOBS_PREFIX" and ty: "jobs_typed (kv (st_world s))"
  shows "wp (stuck_sweep_loop sys cfg ticks) (\<lambda>_ t. jobs_typed (kv (st_world t))) (\<lambda>_ _. False) s"
  using ty
proof (induction ticks arbitrary: s)
  case (Cons b ticks)
  have "wp (prune_stuck_running sys (jobs_heartbeat_timeout_s cfg)) (\<lambda>_ _. True) (\<lambda>e _. is_Exception e) s"
    by (rule wp_mono [OF prune_stuck_wp [OF L jobs_typed_wf [OF Cons.prems]]]) simp_all
  from guarded_sweep [OF preserves_prune_stuck [OF L] this Cons.prems]
  show ?case unfolding stuck_sweep_loop.simps wp_bnd by (rule wp_mono) (use Cons.IH in auto)
qed (simp add: wp_ret)

end

text \<open>The sweep loops of a daemon survive every failure and act on the leader only: whatever etcd does, both loops
  end normally when the stop event comes, with all stored jobs still well typed; a daemon that is never
  leader at a tick does nothing at all.\<close>

theorem sweep_loops_robust:
  assumes "etcd_gateway sys leased kv" and "prefix_free leased JOBS_PREFIX" and "jobs_typed (kv (st_world s))"
  shows "(\<exists>t. retention_loop sys cfg ticks s = (Inr (), t) \<and> jobs_typed (kv (st_world t)) \<and> (True \<notin> set ticks \<longrightarrow> t = s))
    \<and> (\<exists>t. stuck_sweep_loop sys cfg ticks s = (Inr (), t) \<and> jobs_typed (kv (st_world t)) \<and> (True \<notin> set ticks \<longrightarrow> t = s))"
proof -
  have ends: "\<exists>t. m s = (Inr (), t) \<and> jobs_typed (kv (st_world t))"
    if "wp m (\<lambda>_ t. jobs_typed (kv (st_world t))) (\<lambda>_ _. False) s" for m
    using that unfolding wp_def by (cases "m s"; cases "fst (m s)") auto
  note store = etcd_gateway.client [OF assms(1)]
  from ends [OF kv_store.retention_loop_wp [OF store assms(2,3)], of cfg ticks]
    ends [OF kv_store.stuck_sweep_loop_wp [OF store assms(2,3)], of cfg ticks]
  show ?thesis using loops_idle [of ticks sys cfg s] by auto
qed

theorem sweep_loops_robust_witness:
  "\<exists>t. stuck_sweep_loop mem_sys quiet_cfg [False, True] (start job_world) = (Inr (), t) \<and> jobs_typed (map_of (w_kv (st_world t)))"
proof -
  have L: "prefix_free lease_keys JOBS_PREFIX" by code_simp
  from sweep_loops_robust [OF mem.etcd_gateway_axioms L job_world_typed] show ?thesis by blast
qed

end
