(* ===== verification/Watch.thy ===== *)
theory Watch
  imports Topology
begin

text \<open>
  The watch of the topology over its connections: \<open>EtcdClient.watch_prefix\<close> of
  \<open>src/daemon/etcd_client.py\<close> with its reconnect loop, and \<open>TopologyWatcher.run\<close> of
  \<open>src/daemon/topology.py\<close> on top of it. The watch service of etcd is a parameter: a function from the
  create request to the connections it serves, one after the other, until the daemon stops. A
  connection is the lines that arrive on it and the way it ends. Every connection is opened with the
  same request, and the topology watch passes no start revision, so what etcd commits while no
  connection is open is never reported.
\<close>

section \<open>Connections\<close>

record watch_request =
  wr_key :: string
  wr_range_end :: string
  wr_start_revision :: "string option"

definition create_request :: "string \<Rightarrow> nat option \<Rightarrow> watch_request" where
  "create_request p start_revision =
     \<lparr>wr_key = p, wr_range_end = prefix_end p,
      wr_start_revision = map_option str_of_nat start_revision\<rparr>"

text \<open>The server ends the stream in good order, or the transport fails: on connecting, by a status
  outside 200 to 299, or between two lines.\<close>

datatype ending = Closed | Broken

record connection =
  cn_lines :: "watch_line list"
  cn_end :: ending

text \<open>The generator with the loop body of its consumer. A broken connection moves the client on to the
  next endpoint and waits two seconds; after a closed one it reconnects at once.\<close>

fun watch_prefix :: "'w sys \<Rightarrow> (event \<Rightarrow> 'a \<Rightarrow> ('w, 'a) io) \<Rightarrow> connection list \<Rightarrow> 'a \<Rightarrow> ('w, 'a) io" where
  "watch_prefix sys body [] x = ret x"
| "watch_prefix sys body (cn # cns) x =
     bnd (fold_io body (watch_events (cn_lines cn)) x) (\<lambda>y.
     bnd (case cn_end cn of Closed \<Rightarrow> ret () | Broken \<Rightarrow> bnd bump_idx (\<lambda>_. sleep sys 2)) (\<lambda>_.
       watch_prefix sys body cns y))"

type_synonym watch_service = "watch_request \<Rightarrow> connection list"

definition watch_topology ::
  "'w sys \<Rightarrow> 'w handler list \<Rightarrow> watch_service \<Rightarrow> peers \<Rightarrow> ('w, peers) io" where
  "watch_topology sys hs service ps =
     bnd (seed sys ps)
       (watch_prefix sys (apply_event hs) (service (create_request TOPOLOGY_PREFIX None)))"

section \<open>What the connections report and what they miss\<close>

definition reported :: "connection list \<Rightarrow> event list" where
  "reported cns = concat (map (\<lambda>cn. watch_events (cn_lines cn)) cns)"

text \<open>A history of etcd after the seed, cut at the connections: each comes with the writes that were
  committed before it was opened and after the one before it ended.\<close>

type_synonym session = "(event list \<times> connection) list"

definition committed :: "session \<Rightarrow> event list" where
  "committed ss = concat (map (\<lambda>(gap, cn). gap @ watch_events (cn_lines cn)) ss)"

definition missed :: "session \<Rightarrow> event list" where
  "missed ss = concat (map fst ss)"

abbreviation store_after :: "(string \<rightharpoonup> etcd_value) \<Rightarrow> event list \<Rightarrow> (string \<rightharpoonup> etcd_value)" where
  "store_after \<equiv> foldl (\<lambda>m ev. store_event ev m)"

abbreviation mirror_after :: "peers \<Rightarrow> event list \<Rightarrow> peers" where
  "mirror_after \<equiv> foldl (\<lambda>ps ev. fst (mirror_event ev ps))"

text \<open>The value at a key is decided by the events of that key.\<close>

lemma store_after_key:
  "store_after m evs k = store_after m (filter (\<lambda>ev. ev_key ev = k) evs) k"
proof -
  have "store_after m evs k = store_after m' (filter (\<lambda>ev. ev_key ev = k) evs) k"
    if "m k = m' k" for m m'
    using that
  proof (induction evs arbitrary: m m')
    case (Cons ev evs)
    show ?case
    proof (cases "ev_key ev = k")
      case True
      then have "store_event ev m k = store_event ev m' k" by (simp add: store_event_def)
      with Cons.IH [of "store_event ev m" "store_event ev m'"] show ?thesis using True by simp
    next
      case False
      then have "store_event ev m k = m' k" using Cons.prems by (simp add: store_event_def)
      with Cons.IH [of "store_event ev m" m'] show ?thesis using False by simp
    qed
  qed simp
  then show ?thesis by simp
qed

lemma store_after_untouched:
  "\<forall>ev \<in> set evs. ev_key ev \<noteq> k \<Longrightarrow> store_after m evs k = m k"
  by (subst store_after_key) (simp add: filter_False)

lemma committed_key:
  assumes "\<forall>ev \<in> set (missed ss). ev_key ev \<noteq> k"
  shows "filter (\<lambda>ev. ev_key ev = k) (committed ss) = filter (\<lambda>ev. ev_key ev = k) (reported (map snd ss))"
  using assms by (induction ss) (auto simp: committed_def missed_def reported_def filter_False)

text \<open>One node of the mirror follows the events of its own key.\<close>

lemma mirror_event_at:
  assumes "ev_key ev = TOPOLOGY_PREFIX @ name \<Longrightarrow> wf_event ev"
    and "dict_get ps name = topo_view m name"
  shows "dict_get (fst (mirror_event ev ps)) name = topo_view (store_event ev m) name"
proof (cases "startswith (ev_key ev) TOPOLOGY_PREFIX")
  case True
  then obtain n where "ev_key ev = TOPOLOGY_PREFIX @ n" by (rule startswithE)
  then show ?thesis
    using assms by (cases "n = name") (auto simp: mirror_event_def store_event_def wf_event_def
        topo_view_def Let_def split: option.split)
next
  case False
  then have "TOPOLOGY_PREFIX @ name \<noteq> ev_key ev" by (metis startswith_append)
  then show ?thesis
    using assms(2) False by (simp add: mirror_event_def store_event_def topo_view_def)
qed

lemma mirror_after_at:
  assumes "\<forall>ev \<in> set evs. ev_key ev = TOPOLOGY_PREFIX @ name \<longrightarrow> wf_event ev"
    and "dict_get ps name = topo_view m name"
  shows "dict_get (mirror_after ps evs) name = topo_view (store_after m evs) name"
  using assms
proof (induction evs arbitrary: ps m)
  case (Cons ev evs)
  then show ?case using mirror_event_at [of ev name ps m] by simp
qed simp

section \<open>The watch as a computation\<close>

lemma wp_apply_events:
  "wp (fold_io (apply_event hs) evs ps) (\<lambda>ps' _. ps' = mirror_after ps evs) (\<lambda>e _. \<not> is_Exception e) s"
  by (rule wp_mono [OF wp_fold_io [where I = "\<lambda>r ps' _. mirror_after ps' r = mirror_after ps evs"]])
    (auto intro!: wp_mono [OF wp_apply_event])

lemma wp_watch_prefix:
  "wp (watch_prefix sys (apply_event hs) cns ps)
     (\<lambda>ps' _. ps' = mirror_after ps (reported cns)) (\<lambda>e _. \<not> is_Exception e) s"
proof (induction cns arbitrary: ps s)
  case Nil
  then show ?case by (simp add: wp_simps reported_def)
next
  case (Cons cn cns)
  have r: "reported (cn # cns) = watch_events (cn_lines cn) @ reported cns"
    by (simp add: reported_def)
  have next_one: "wp (bnd (case cn_end cn of Closed \<Rightarrow> ret () | Broken \<Rightarrow> bnd bump_idx (\<lambda>_. sleep sys 2))
        (\<lambda>_. watch_prefix sys (apply_event hs) cns (mirror_after ps (watch_events (cn_lines cn)))))
      (\<lambda>ps' _. ps' = mirror_after ps (reported (cn # cns))) (\<lambda>e _. \<not> is_Exception e) t" for t
    using Cons.IH by (cases "cn_end cn") (simp_all add: wp_simps call_defs r)
  show ?case
    unfolding watch_prefix.simps wp_bnd [of "fold_io _ _ _"]
    by (rule wp_mono [OF wp_apply_events]) (use next_one in auto)
qed

context kv_store
begin

text \<open>The seed and the reported events decide the mirror, node by node.\<close>

lemma watch_topology_at:
  assumes "prefix_free leased TOPOLOGY_PREFIX"
    and "\<forall>ev \<in> set (reported cns). ev_key ev = TOPOLOGY_PREFIX @ name \<longrightarrow> wf_event ev"
    and "service (create_request TOPOLOGY_PREFIX None) = cns"
  shows "wp (watch_topology sys hs service [])
    (\<lambda>ps _. dict_get ps name = topo_view (store_after (kv (st_world s)) (reported cns)) name)
    (\<lambda>_ _. True) s"
  unfolding watch_topology_def wp_bnd assms(3)
proof (rule wp_mono [OF seed_spec [OF assms(1)]], goal_cases)
  case (1 d t)
  then have "dict_get d name = topo_view (kv (st_world s)) name" by (simp split: option.splits)
  from mirror_after_at [OF assms(2) this] show ?case
    by (auto intro!: wp_mono [OF wp_watch_prefix])
qed auto

end

section \<open>Properties\<close>


definition peer_put :: "string \<Rightarrow> string \<Rightarrow> int \<Rightarrow> raw_event" where
  "peer_put name ip n =
     \<lparr>re_type = None,
      re_kv = Some \<lparr>rk_key = Some (TOPOLOGY_PREFIX @ name),
        rk_value = Some (Json (node_entry ip)), rk_mod_revision = Some n\<rparr>\<rparr>"

definition peer_delete :: "string \<Rightarrow> int \<Rightarrow> raw_event" where
  "peer_delete name n =
     \<lparr>re_type = Some DELETE,
      re_kv = Some \<lparr>rk_key = Some (TOPOLOGY_PREFIX @ name), rk_value = None, rk_mod_revision = Some n\<rparr>\<rparr>"

text \<open>node-3 joins on the first connection, which then breaks; node-2 is removed before the second one
  is open; node-1 is removed on the second.\<close>

definition broken_session :: session where
  "broken_session =
     [([], \<lparr>cn_lines = [Message None, Message (Some [peer_put ''node-3'' ''10.0.0.3'' 7])], cn_end = Broken\<rparr>),
      ([normalise_event (peer_delete ''node-2'' 8)],
       \<lparr>cn_lines = [Blank, Bad_json, Message (Some [peer_delete ''node-1'' 9])], cn_end = Closed\<rparr>)]"

lemma broken_session_mirror:
  "fst (watch_topology mem_sys sample_handlers (\<lambda>_. map snd broken_session) [] (start two_nodes))
     = Inr [(''node-2'', node_entry ''10.0.0.2''), (''node-3'', node_entry ''10.0.0.3'')]"
  by code_simp

lemma broken_session_ok:
  "\<forall>ev \<in> set (committed broken_session). wf_event ev"
  "missed broken_session = [normalise_event (peer_delete ''node-2'' 8)]"
  by (simp_all add: broken_session_def committed_def missed_def wf_event_def normalise_event_def
      peer_put_def peer_delete_def)


text \<open>The exception is real: an entry none of whose events was reported keeps the value of the seed, so
  a peer whose removal fell between two connections stays in the mirror until the daemon restarts.\<close>

lemma missed_removal_keeps_peer:
  assumes "etcd_gateway sys leased kv"
    and "prefix_free leased TOPOLOGY_PREFIX"
    and "\<forall>ev \<in> set (reported (service (create_request TOPOLOGY_PREFIX None))). ev_key ev \<noteq> TOPOLOGY_PREFIX @ name"
    and "watch_topology sys hs service [] s = (Inr ps, t)"
  shows "dict_get ps name = topo_view (kv (st_world s)) name"
proof -
  have "\<forall>ev \<in> set (reported (service (create_request TOPOLOGY_PREFIX None))).
      ev_key ev = TOPOLOGY_PREFIX @ name \<longrightarrow> wf_event ev" using assms(3) by blast
  from wp_D_ok [OF kv_store.watch_topology_at [where name = name and service = service, OF etcd_gateway.client [OF assms(1)] assms(2) this refl] assms(4)]
  show ?thesis using store_after_untouched [OF assms(3)] by (simp add: topo_view_def)
qed

lemma missed_removal_keeps_peer_witness:
  "\<exists>ps t. watch_topology mem_sys sample_handlers (\<lambda>_. map snd broken_session) [] (start two_nodes) = (Inr ps, t)
     \<and> dict_get ps ''node-2'' = Some (node_entry ''10.0.0.2'')
     \<and> topo_view (store_after (map_of (w_kv two_nodes)) (committed broken_session)) ''node-2'' = None"
proof -
  obtain ps t where e: "watch_topology mem_sys sample_handlers (\<lambda>_. map snd broken_session) [] (start two_nodes)
      = (Inr ps, t)" using broken_session_mirror by (metis result_of)
  have f: "prefix_free lease_keys TOPOLOGY_PREFIX" by code_simp
  have r: "\<forall>ev \<in> set (reported (map snd broken_session)). ev_key ev \<noteq> TOPOLOGY_PREFIX @ ''node-2''" by code_simp
  have "dict_get ps ''node-2'' = topo_view (map_of (w_kv (st_world (start two_nodes)))) ''node-2''"
    by (rule missed_removal_keeps_peer [OF mem.etcd_gateway_axioms f r e])
  moreover have "topo_view (map_of (w_kv (st_world (start two_nodes)))) ''node-2'' = Some (node_entry ''10.0.0.2'')"
    "topo_view (store_after (map_of (w_kv two_nodes)) (committed broken_session)) ''node-2'' = None"
    by code_simp+
  ultimately show ?thesis using e by auto
qed

end
