(* ===== verification/Wire.thy ===== *)
theory Wire
  imports Etcd_Client
begin

text \<open>
  The transport encoding of \<open>src/daemon/etcd_client.py\<close>: keys and values travel as base64 texts of their
  UTF-8 bytes. The other theories keep them decoded; the round trip and the order of the encoded keys
  justify that. Of Python's library this models \<open>str.encode\<close> and \<open>bytes.decode\<close> on the modelled
  characters, \<open>b64encode\<close>, and \<open>b64decode\<close> with its default leniency: characters outside the alphabet are
  skipped, and the first complete padding ends the text. Bytes are numbers below 256.
\<close>

section \<open>UTF-8\<close>

definition utf8_char :: "char \<Rightarrow> nat list" where
  "utf8_char c = (let n = ord_chr c in if n < 128 then [n] else [192 + n div 64, 128 + n mod 64])"

definition utf8 :: "string \<Rightarrow> nat list" where
  "utf8 s = concat (map utf8_char s)"

text \<open>Bytes that are no UTF-8 text, or the text of a character beyond the modelled ones, give none.\<close>

fun utf8_decode :: "nat list \<Rightarrow> string option" where
  "utf8_decode [] = Some []"
| "utf8_decode (b # bs) =
     (if b < 128 then map_option (Cons (char_of b)) (utf8_decode bs)
      else case bs of
        [] \<Rightarrow> None
      | c # cs \<Rightarrow>
          if b \<in> {194, 195} \<and> 128 \<le> c \<and> c < 192
          then map_option (Cons (char_of ((b - 192) * 64 + (c - 128)))) (utf8_decode cs) else None)"

lemma ord_chr_bound: "ord_chr c < 256"
  by (simp add: ord_chr_def)

lemma char_of_ord [simp]: "char_of (ord_chr c) = c"
  by (simp add: ord_chr_def)

lemma utf8_simps [simp]: "utf8 [] = []" "utf8 (c # s) = utf8_char c @ utf8 s"
  by (simp_all add: utf8_def)

lemma lead_byte: "\<not> n < 128 \<Longrightarrow> n < 256 \<Longrightarrow> n div 64 = 2 \<or> n div 64 = (3::nat)"
  using div_mult_mod_eq [of n 64] mod_less_divisor [of 64 n] by linarith

lemma utf8_decode_utf8: "utf8_decode (utf8 s) = Some s"
proof (induction s)
  case (Cons c s)
  show ?case
  proof (cases "ord_chr c < 128")
    case False
    have "(192 + ord_chr c div 64 - 192) * 64 + (128 + ord_chr c mod 64 - 128) = ord_chr c" by simp
    moreover have "192 + ord_chr c div 64 \<in> {194, 195}" using lead_byte [OF False ord_chr_bound] by auto
    ultimately show ?thesis using Cons False by (simp add: utf8_char_def Let_def)
  qed (use Cons in \<open>simp add: utf8_char_def\<close>)
qed simp

lemma utf8_bytes: "list_all (\<lambda>b. b < 256) (utf8 s)"
proof (induction s)
  case (Cons c s)
  have "ord_chr c div 64 < 4" using ord_chr_bound [of c] by (intro less_mult_imp_div_less) simp
  moreover have "ord_chr c mod 64 < 128" by (rule less_trans [OF mod_less_divisor]) simp_all
  ultimately show ?case using Cons ord_chr_bound [of c] by (simp add: utf8_char_def Let_def)
qed simp

section \<open>Base64\<close>

definition b64_digit :: "nat \<Rightarrow> char" where
  "b64_digit n =
     (if n < 26 then char_of (65 + n) else if n < 52 then char_of (97 + (n - 26))
      else if n < 62 then char_of (48 + (n - 52)) else if n = 62 then CHR ''+'' else CHR ''/'')"

definition b64_val :: "char \<Rightarrow> nat option" where
  "b64_val c =
     (let n = ord_chr c in
      if 65 \<le> n \<and> n \<le> 90 then Some (n - 65) else if 97 \<le> n \<and> n \<le> 122 then Some (n - 97 + 26)
      else if 48 \<le> n \<and> n \<le> 57 then Some (n - 48 + 52)
      else if c = CHR ''+'' then Some 62 else if c = CHR ''/'' then Some 63 else None)"

fun b64encode :: "nat list \<Rightarrow> string" where
  "b64encode [] = []"
| "b64encode [a] = [b64_digit (a div 4), b64_digit (a mod 4 * 16), CHR ''='', CHR ''='']"
| "b64encode [a, b] = [b64_digit (a div 4), b64_digit (a mod 4 * 16 + b div 16), b64_digit (b mod 16 * 4), CHR ''='']"
| "b64encode (a # b # c # bs) =
     [b64_digit (a div 4), b64_digit (a mod 4 * 16 + b div 16), b64_digit (b mod 16 * 4 + c div 64), b64_digit (c mod 64)]
     @ b64encode bs"

text \<open>The scanner of \<open>binascii\<close>: the place in the group of four, the bits left over, the padding seen.\<close>

fun a2b :: "nat \<Rightarrow> nat \<Rightarrow> nat \<Rightarrow> string \<Rightarrow> nat list option" where
  "a2b q left pads [] = (if q = 0 then Some [] else None)"
| "a2b q left pads (c # cs) =
     (if c = CHR ''='' then
        if 2 \<le> q then (if 4 \<le> q + (pads + 1) then Some [] else a2b q left (pads + 1) cs)
        else a2b q left pads cs
      else case b64_val c of
        None \<Rightarrow> a2b q left pads cs
      | Some v \<Rightarrow>
          if q = 0 then a2b 1 v 0 cs
          else if q = 1 then map_option (Cons (left * 4 + v div 16)) (a2b 2 (v mod 16) 0 cs)
          else if q = 2 then map_option (Cons (left * 16 + v div 4)) (a2b 3 (v mod 4) 0 cs)
          else map_option (Cons (left * 64 + v)) (a2b 0 0 0 cs))"

definition b64decode :: "string \<Rightarrow> nat list option" where
  "b64decode s = a2b 0 0 0 s"

definition b64 :: "string \<Rightarrow> string" where
  "b64 s = b64encode (utf8 s)"

definition b64dec :: "string \<Rightarrow> string option" where
  "b64dec s = Option.bind (b64decode s) utf8_decode"

section \<open>The round trip\<close>

lemma b64_digit_ok [simp]:
  assumes "n < 64"
  shows "b64_val (b64_digit n) = Some n" and "b64_digit n \<noteq> CHR ''=''"
proof -
  have ord: "ord_chr (char_of m) = m" if "m < 256" for m :: nat using that by (simp add: ord_chr_def)
  have sym: "ord_chr (CHR ''+'') = 43" "ord_chr (CHR ''/'') = 47" "ord_chr (CHR ''='') = 61" by (simp_all add: ord_chr_def)
  consider "n < 26" | "26 \<le> n" "n < 52" | "52 \<le> n" "n < 62" | "n = 62" | "n = 63" using assms by linarith
  then show "b64_val (b64_digit n) = Some n"
    by cases (simp_all add: b64_digit_def b64_val_def Let_def ord sym, linarith)
  have "ord_chr (b64_digit n) \<noteq> 61"
    using assms by (auto simp: b64_digit_def ord sym)
  then show "b64_digit n \<noteq> CHR ''=''" using sym(3) by metis
qed

lemma split_low:
  "x < k \<Longrightarrow> (u * k + x) div k = u" "x < k \<Longrightarrow> (u * k + x) mod k = (x::nat)"
  by simp_all

lemma sextets:
  assumes "a < 256" "b < 256" "c < (256::nat)"
  shows "a div 4 < 64" "a mod 4 * 16 < 64" "a mod 4 * 16 + b div 16 < 64" "b mod 16 * 4 < 64"
    "b mod 16 * 4 + c div 64 < 64" "c mod 64 < 64"
    "a div 4 * 4 + (a mod 4 * 16 + b div 16) div 16 = a" "(a mod 4 * 16 + b div 16) mod 16 * 16 + (b mod 16 * 4 + c div 64) div 4 = b"
    "(b mod 16 * 4 + c div 64) mod 4 * 64 + c mod 64 = c"
    "a div 4 * 4 + (a mod 4 * 16) div 16 = a" "(a mod 4 * 16 + b div 16) mod 16 * 16 + (b mod 16 * 4) div 4 = b"
proof -
  have d: "a div 4 < 64" "b div 16 < 16" "c div 64 < 4" using assms by (auto intro: less_mult_imp_div_less)
  have m: "a mod 4 < 4" "b mod 16 < 16" "c mod 64 < 64" by simp_all
  show "a div 4 < 64" "c mod 64 < 64" using d m by simp_all
  show "a mod 4 * 16 < 64" "a mod 4 * 16 + b div 16 < 64" "b mod 16 * 4 < 64" "b mod 16 * 4 + c div 64 < 64"
    using d m by linarith+
  have l: "(a mod 4 * 16 + b div 16) div 16 = a mod 4" "(a mod 4 * 16 + b div 16) mod 16 = b div 16"
    "(b mod 16 * 4 + c div 64) div 4 = b mod 16" "(b mod 16 * 4 + c div 64) mod 4 = c div 64"
    using d by (simp_all only: split_low)
  show "a div 4 * 4 + (a mod 4 * 16 + b div 16) div 16 = a"
    "(a mod 4 * 16 + b div 16) mod 16 * 16 + (b mod 16 * 4 + c div 64) div 4 = b"
    "(b mod 16 * 4 + c div 64) mod 4 * 64 + c mod 64 = c" unfolding l by (rule div_mult_mod_eq)+
  show "a div 4 * 4 + (a mod 4 * 16) div 16 = a" by simp
  show "(a mod 4 * 16 + b div 16) mod 16 * 16 + (b mod 16 * 4) div 4 = b" unfolding l by simp
qed

lemma b64decode_b64encode: "list_all (\<lambda>b. b < 256) bs \<Longrightarrow> b64decode (b64encode bs) = Some bs"
proof (induction bs rule: b64encode.induct)
  case (2 a)
  then show ?case using sextets [of a 0 0] by (simp add: b64decode_def)
next
  case (3 a b)
  then show ?case using sextets [of a b 0] by (simp add: b64decode_def)
next
  case (4 a b c bs)
  then show ?case using sextets [of a b c] by (simp add: b64decode_def)
qed (simp add: b64decode_def)

section \<open>The order of encoded keys\<close>

text \<open>etcd compares keys byte by byte; UTF-8 keeps the order of the texts.\<close>

lemma utf8_char_less:
  assumes "ord_chr c < ord_chr d"
  shows "utf8_char c @ xs < utf8_char d @ ys"
proof -
  let ?m = "ord_chr c" and ?n = "ord_chr d"
  have "?m div 64 < ?n div 64 \<or> ?m div 64 = ?n div 64 \<and> ?m mod 64 < ?n mod 64"
    using div_le_mono [of ?m ?n 64] assms div_mult_mod_eq [of ?m 64] div_mult_mod_eq [of ?n 64] by linarith
  then show ?thesis using assms by (auto simp: utf8_char_def Let_def)
qed

lemma utf8_char_Cons: "\<exists>b bs. utf8_char c = b # bs"
  by (simp add: utf8_char_def Let_def)

lemma utf8_less: "utf8 s < utf8 t \<longleftrightarrow> s < t"
proof (induction s arbitrary: t)
  case Nil
  show ?case using utf8_char_Cons [of "hd t"] by (cases t) auto
next
  case (Cons c s)
  show ?case
  proof (cases t)
    case (Cons d t')
    consider "ord_chr c < ord_chr d" | "ord_chr d < ord_chr c" | "c = d"
      by (metis char_of_ord linorder_neqE_nat)
    then show ?thesis
    proof cases
      case 1
      then show ?thesis using utf8_char_less Cons by (simp add: char_less_ord)
    next
      case 2
      have "\<not> utf8_char c @ utf8 s < utf8_char d @ utf8 t'" using utf8_char_less [OF 2] by (simp add: less_imp_not_less)
      then show ?thesis using 2 Cons by (auto simp: char_less_ord)
    next
      case 3
      then show ?thesis using Cons.IH [of t'] Cons by (simp add: utf8_char_def Let_def)
    qed
  qed simp
qed

section \<open>Properties\<close>

text \<open>Nothing is lost on the wire: what the client encodes, keys and values of any modelled characters, it
  decodes to the same text, so no two keys are confused.\<close>

theorem wire_roundtrip: "b64dec (b64 s) = Some s"
  by (simp add: b64dec_def b64_def b64decode_b64encode utf8_bytes utf8_decode_utf8)

definition byte_range :: "nat list \<Rightarrow> nat list \<Rightarrow> nat list \<Rightarrow> bool" where
  "byte_range lo hi k \<longleftrightarrow> lo \<le> k \<and> k < hi"

text \<open>C39. A prefix scan is exact on the wire: the byte range that etcd decodes from the request contains the
  bytes of a key if and only if the key starts with the prefix.\<close>

theorem prefix_scan_on_the_wire:
  assumes "p \<noteq> []" and "ord_chr (last p) < 255"
  shows "\<exists>lo hi. b64decode (b64 p) = Some lo \<and> b64decode (b64 (prefix_end p)) = Some hi
    \<and> (\<forall>k. byte_range lo hi (utf8 k) \<longleftrightarrow> startswith k p)"
proof -
  have "byte_range (utf8 p) (utf8 (prefix_end p)) (utf8 k) \<longleftrightarrow> in_range p (Some (prefix_end p)) k" for k
    unfolding byte_range_def in_range_def by (simp add: utf8_less linorder_not_less [symmetric])
  then show ?thesis
    using in_range_prefix [OF assms] by (simp add: b64_def b64decode_b64encode utf8_bytes)
qed

theorem prefix_scan_on_the_wire_witness:
  "\<exists>lo hi. b64decode ''L2NsdXN0ZXIvam9icy8='' = Some lo \<and> b64decode ''L2NsdXN0ZXIvam9iczA='' = Some hi
     \<and> byte_range lo hi (utf8 ''/cluster/jobs/7'') \<and> \<not> byte_range lo hi (utf8 ''/cluster/jobs'')"
proof -
  have e: "b64 ''/cluster/jobs/'' = ''L2NsdXN0ZXIvam9icy8=''" "b64 (prefix_end ''/cluster/jobs/'') = ''L2NsdXN0ZXIvam9iczA=''"
    by code_simp+
  have k: "startswith ''/cluster/jobs/7'' ''/cluster/jobs/''" "\<not> startswith ''/cluster/jobs'' ''/cluster/jobs/''" by code_simp+
  have "''/cluster/jobs/'' \<noteq> []" "ord_chr (last ''/cluster/jobs/'') < 255" by (simp_all add: ord_chr_def)
  from prefix_scan_on_the_wire [OF this] show ?thesis unfolding e using k by blast
qed

end
