(* ===== verification/Join_Order.thy ===== *)
theory Join_Order
  imports Joining Leader
begin

text \<open>
  Several joins on one cluster. On one leader the lock of \<open>src/daemon/joining.py\<close> puts them in a row, and
  every address gets a name of its own. Two daemons that both take themselves for the leader (\<open>Election\<close>
  reaches such a state) do not share that lock: both read the topology before either has written. The
  handler is cut there, between its read and its writes.
\<close>

section \<open>Joins in a row\<close>

type_synonym join_request = "string \<times> string option"

fun join_all :: "'w sys \<Rightarrow> nat \<Rightarrow> daemon_config \<Rightarrow> join_request list \<Rightarrow> ('w, (exn + join_result) list) io" where
  "join_all sys fuel cfg [] = ret []"
| "join_all sys fuel cfg ((ip, hostname) # rs) =
     bnd (reify (handle_join sys fuel cfg ip hostname)) (\<lambda>r.
     bnd (join_all sys fuel cfg rs) (\<lambda>outs. ret (r # outs)))"

text \<open>No address is registered under two names.\<close>

definition addresses_unique :: "(string \<rightharpoonup> etcd_value) \<Rightarrow> bool" where
  "addresses_unique m \<longleftrightarrow> (\<forall>ip n n'. has_ip m ip n \<longrightarrow> has_ip m ip n' \<longrightarrow> n' = n)"

definition topo_ok :: "(string \<rightharpoonup> etcd_value) \<Rightarrow> bool" where
  "topo_ok m \<longleftrightarrow> topo_wf m \<and> addresses_unique m"

lemma topo_view_upd [simp]:
  "topo_view (m(TOPOLOGY_PREFIX @ name \<mapsto> Json d)) n = (if n = name then Some d else topo_view m n)"
  "topo_view (m(TOPOLOGY_PREFIX @ name := None)) n = (if n = name then None else topo_view m n)"
  by (simp_all add: topo_view_def)

lemma ip_of_peer_entry [simp]: "ip_of (peer_entry name ip host t) = Some ip"
  by (simp add: peer_entry_def get_str_def dict_get_def)

text \<open>A registration adds one address and keeps the others.\<close>

lemma registered_has_ip:
  "registered m name ip host m' \<Longrightarrow> has_ip m' a n \<longleftrightarrow> (if n = name then a = ip else has_ip m a n)"
  by (auto simp: registered_def has_ip_def)

lemma registered_keeps: "registered m name ip host m' \<Longrightarrow> has_ip m a n \<Longrightarrow> has_ip m' a n"
  by (auto simp: registered_has_ip) (auto simp: registered_def has_ip_def)

lemma registered_topo_ok:
  assumes "topo_ok m" and "registered m name ip host m'" and "\<forall>n. \<not> has_ip m ip n"
  shows "topo_ok m'"
proof -
  have "topo_wf m'" using assms(1,2) by (auto simp: topo_ok_def topo_wf_def registered_def split: if_splits)
  moreover have "addresses_unique m'"
    using assms unfolding addresses_unique_def topo_ok_def registered_has_ip [OF assms(2)] by (auto split: if_splits)
  ultimately show ?thesis by (simp add: topo_ok_def)
qed

text \<open>What one join promises to the next: names and addresses stay, and a successful join is in the
  topology under its name.\<close>

definition joined :: "(string \<rightharpoonup> etcd_value) \<Rightarrow> (string \<rightharpoonup> etcd_value) \<Rightarrow> bool" where
  "joined m m' \<longleftrightarrow> topo_ok m' \<and> (\<forall>a n. has_ip m a n \<longrightarrow> has_ip m' a n)"

lemma joined_trans: "joined a b \<Longrightarrow> joined b c \<Longrightarrow> joined a c"
  by (auto simp: joined_def)

lemma registered_joined:
  "topo_ok m \<Longrightarrow> registered m name ip host m' \<Longrightarrow> \<forall>n. \<not> has_ip m ip n \<Longrightarrow> joined m m' \<and> has_ip m' ip name"
  by (auto simp: joined_def intro: registered_topo_ok registered_keeps) (simp add: registered_has_ip)

context kv_store
begin

lemma handle_join_joined:
  assumes L: "prefix_free leased TOPOLOGY_PREFIX" and ok: "topo_ok (kv (st_world s))"
  shows "wp (handle_join sys fuel cfg ip host)
    (\<lambda>r t. joined (kv (st_world s)) (kv (st_world t)) \<and> has_ip (kv (st_world t)) ip (jr_node_name r))
    (\<lambda>_ t. joined (kv (st_world s)) (kv (st_world t))) s"
proof (cases "is_valid_ipv4 ip")
  case True
  have wf: "topo_wf (kv (st_world s))" and same: "joined (kv (st_world s)) (kv (st_world s))"
    using ok by (simp_all add: topo_ok_def joined_def)
  show ?thesis unfolding handle_join_def using True
    by simp (rule wp_mono [OF do_join_wp [OF L wf]];
      use same registered_joined [OF ok] in \<open>auto split: if_splits\<close>)
qed (use ok in \<open>simp add: handle_join_def wp_raise joined_def\<close>)

lemma join_all_joined:
  assumes L: "prefix_free leased TOPOLOGY_PREFIX" and ok: "topo_ok (kv (st_world s))"
  shows "wp (join_all sys fuel cfg rs)
    (\<lambda>outs t. length outs = length rs \<and> joined (kv (st_world s)) (kv (st_world t))
       \<and> (\<forall>i < length rs. \<forall>r. outs ! i = Inr r \<longrightarrow> has_ip (kv (st_world t)) (fst (rs ! i)) (jr_node_name r)))
    (\<lambda>_ _. False) s"
  using ok
proof (induction rs arbitrary: s)
  case Nil
  then show ?case by (simp add: wp_ret joined_def)
next
  case (Cons req rs)
  obtain ip host where req: "req = (ip, host)" by fastforce
  have rest: "wp (bnd (join_all sys fuel cfg rs) (\<lambda>outs. ret (r # outs)))
      (\<lambda>outs t. length outs = length (req # rs) \<and> joined (kv (st_world s)) (kv (st_world t))
         \<and> (\<forall>i < length (req # rs). \<forall>x. outs ! i = Inr x \<longrightarrow> has_ip (kv (st_world t)) (fst ((req # rs) ! i)) (jr_node_name x)))
      (\<lambda>_ _. False) u"
    if j: "joined (kv (st_world s)) (kv (st_world u))"
      and r: "\<forall>x. r = Inr x \<longrightarrow> has_ip (kv (st_world u)) ip (jr_node_name x)" for r u
    unfolding wp_bnd
  proof (rule wp_mono [OF Cons.IH], goal_cases)
    case 1
    show ?case using j by (simp add: joined_def)
  next
    case (2 outs t)
    then show ?case
      using r joined_trans [OF j] by (auto simp: wp_ret req joined_def nth_Cons split: nat.splits)
  qed simp
  show ?case
    unfolding req join_all.simps wp_bnd [of "reify _"] wp_reify
    by (rule wp_mono [OF handle_join_joined [OF L Cons.prems]]; rule rest [unfolded req]) auto
qed

end

section \<open>Joins at the same time\<close>

text \<open>The handler after its read of the topology.\<close>

definition admit :: "'w sys \<Rightarrow> daemon_config \<Rightarrow> peers \<Rightarrow> string \<Rightarrow> string option \<Rightarrow> ('w, join_result) io" where
  "admit sys cfg parsed ip hostname =
     (case registered_as parsed ip of
        Some name \<Rightarrow> issue_env sys cfg (filter (\<lambda>(k, v). k \<noteq> name) parsed) name ip
      | None \<Rightarrow>
          (let new_name = allocate_next_name (keys parsed) in
           bnd (now sys) (\<lambda>t.
           bnd (put_if_absent sys (TOPOLOGY_PREFIX @ new_name) (Json (peer_entry new_name ip hostname t)) None) (\<lambda>_.
           bnd (issue_env sys cfg parsed new_name ip) (\<lambda>res.
           bnd (member_add_or_rollback sys cfg new_name ip) (\<lambda>_. ret res))))))"

lemma do_join_split:
  "do_join sys fuel cfg ip hostname =
     bnd (wait_cluster_healthy sys fuel 180) (\<lambda>_. bnd (authoritative_peers sys) (\<lambda>parsed. admit sys cfg parsed ip hostname))"
  by (simp add: do_join_def admit_def authoritative_peers_def bnd_map Let_def)

context kv_store
begin

text \<open>The first of two racing joins, and the one that comes late.\<close>

lemma admit_first:
  assumes L: "prefix_free leased TOPOLOGY_PREFIX" and "topo_wf (kv (st_world s))"
    and "mirrors ps (kv (st_world s))" and "registered_as ps ip = None"
  shows "wp (admit sys cfg ps ip host)
    (\<lambda>r t. jr_node_name r = allocate_next_name (keys ps)
       \<and> registered (kv (st_world s)) (allocate_next_name (keys ps)) ip host (kv (st_world t)))
    (\<lambda>_ _. True) s"
  unfolding admit_def assms(4) option.case Let_def
  by (rule wp_mono [OF new_join_wp [OF L assms(2) allocated_absent [OF assms(3)]]]) auto

lemma admit_late:
  assumes L: "prefix_free leased TOPOLOGY_PREFIX"
    and taken: "kv (st_world s) (TOPOLOGY_PREFIX @ allocate_next_name (keys ps)) \<noteq> None"
    and "registered_as ps ip = None"
  shows "wp (admit sys cfg ps ip host)
    (\<lambda>r t. jr_node_name r = allocate_next_name (keys ps) \<and> kv (st_world t) = kv (st_world s))
    (\<lambda>_ t. kv (st_world t) = kv (st_world s)
       \<or> kv (st_world t) = (kv (st_world s))(TOPOLOGY_PREFIX @ allocate_next_name (keys ps) := None)) s"
proof -
  let ?n = "allocate_next_name (keys ps)"
  have k: "TOPOLOGY_PREFIX @ ?n \<notin> leased" using L by (auto simp: prefix_free_def)
  have rest: "wp (bnd (issue_env sys cfg ps ?n ip) (\<lambda>res. bnd (member_add_or_rollback sys cfg ?n ip) (\<lambda>_. ret res)))
      (\<lambda>r t. jr_node_name r = ?n \<and> kv (st_world t) = kv (st_world s))
      (\<lambda>_ t. kv (st_world t) = kv (st_world s) \<or> kv (st_world t) = (kv (st_world s))(TOPOLOGY_PREFIX @ ?n := None)) u"
    if "kv (st_world u) = kv (st_world s)" for u
    unfolding wp_bnd
  proof (rule wp_mono [OF issue_env_kv], goal_cases)
    case (1 r t)
    then show ?case using that
      by (intro wp_mono [OF member_add_or_rollback_kv [OF k]]) (auto simp: wp_ret)
  qed (use that in auto)
  show ?thesis
    unfolding admit_def assms(3) option.case Let_def wp_bnd now_def wp_call
    by (rule wp_mono [OF put_if_absent_spec [OF k]])
      (use taken rest [unfolded wp_bnd] in \<open>auto simp: clock_spec split: if_splits\<close>)
qed

end

section \<open>Properties\<close>

text \<open>C6. Under the lock of one leader, joins never collide: whatever joins are handled one after the
  other, and however etcd fails in between, no address is registered twice and no registered peer loses
  its name; every join that succeeded is in the topology under the name it was told, so joiners with
  different addresses have different names.\<close>

theorem joins_in_a_row_distinct:
  assumes "etcd_gateway sys leased kv" and "prefix_free leased TOPOLOGY_PREFIX"
    and "topo_ok (kv (st_world s))"
    and "join_all sys fuel cfg rs s = (Inr outs, t)"
  shows "topo_ok (kv (st_world t))
    \<and> (\<forall>ip n. has_ip (kv (st_world s)) ip n \<longrightarrow> has_ip (kv (st_world t)) ip n)
    \<and> (\<forall>i < length rs. \<forall>j < length rs. \<forall>a b. outs ! i = Inr a \<longrightarrow> outs ! j = Inr b \<longrightarrow>
         has_ip (kv (st_world t)) (fst (rs ! i)) (jr_node_name a)
         \<and> (jr_node_name a = jr_node_name b \<longleftrightarrow> fst (rs ! i) = fst (rs ! j)))"
proof -
  from wp_D_ok [OF kv_store.join_all_joined [OF etcd_gateway.client [OF assms(1)] assms(2,3)] assms(4)]
  have j: "joined (kv (st_world s)) (kv (st_world t))"
    and each: "\<And>i r. i < length rs \<Longrightarrow> outs ! i = Inr r \<Longrightarrow> has_ip (kv (st_world t)) (fst (rs ! i)) (jr_node_name r)"
    by auto
  have one: "has_ip (kv (st_world t)) a n \<Longrightarrow> has_ip (kv (st_world t)) b n' \<Longrightarrow> n = n' \<longleftrightarrow> a = b" for a b n n'
    using j by (auto simp: joined_def topo_ok_def addresses_unique_def) (auto simp: has_ip_def)
  show ?thesis using j each one by (auto simp: joined_def)
qed

lemma join_world_ok: "topo_ok (map_of (w_kv (st_world (start join_world))))"
proof -
  have v: "topo_view (map_of (w_kv (st_world (start join_world)))) n =
      (if n = ''node-1'' then Some (node_entry ''10.0.0.1'') else if n = ''node-2'' then Some (node_entry ''10.0.0.2'') else None)" for n
    by (simp add: topo_view_def start_def join_world_def two_nodes_def TOPOLOGY_PREFIX_def)
  have "addresses_unique (map_of (w_kv (st_world (start join_world))))"
    by (auto simp: addresses_unique_def has_ip_def v node_entry_def get_str_def dict_get_def split: if_splits)
  then show ?thesis using join_world_wf by (simp add: topo_ok_def)
qed

definition two_joins :: "join_request list" where
  "two_joins = [(''10.0.0.2'', None), (''10.0.0.3'', Some ''c'')]"

theorem joins_in_a_row_distinct_witness:
  "\<exists>a b t. join_all mem_sys 91 join_cfg two_joins (start join_world) = (Inr [Inr a, Inr b], t)
     \<and> jr_node_name a \<noteq> jr_node_name b \<and> has_ip (map_of (w_kv (st_world t))) ''10.0.0.3'' (jr_node_name b)"
proof -
  let ?j = "join_all mem_sys 91 join_cfg two_joins (start join_world)"
  let ?a = "handle_join mem_sys 91 join_cfg ''10.0.0.2'' None (start join_world)"
  let ?b = "handle_join mem_sys 91 join_cfg ''10.0.0.3'' (Some ''c'') (snd ?a)"
  have "map_sum (\<lambda>_. ()) jr_node_name (fst ?a) = Inr ''node-2''" "map_sum (\<lambda>_. ()) jr_node_name (fst ?b) = Inr ''node-3''"
    by code_simp+
  then obtain a b where "fst ?a = Inr a" "fst ?b = Inr b" by (cases "fst ?a"; cases "fst ?b") auto
  then have "fst ?j = Inr [Inr a, Inr b]" by (simp add: two_joins_def bnd_def reify_def ret_def)
  then have j: "?j = (Inr [Inr a, Inr b], snd ?j)" by (rule result_of)
  have f: "prefix_free lease_keys TOPOLOGY_PREFIX" by code_simp
  note r = joins_in_a_row_distinct [OF mem.etcd_gateway_axioms f join_world_ok j]
  have "jr_node_name b \<noteq> jr_node_name a" "has_ip (map_of (w_kv (st_world (snd ?j)))) ''10.0.0.3'' (jr_node_name b)"
    using r [THEN conjunct2, THEN conjunct2, rule_format, of 1 0 b a] by (simp_all add: two_joins_def)
  then show ?thesis using j by (intro exI [of _ a] exI [of _ b] exI [of _ "snd ?j"]) auto
qed

text \<open>C28. Two leaders at once break this: when both have read the topology before either writes, both joiners
  are told the same name, and the second one's address is registered nowhere although it was told that it
  joined, because the answer of the atomic create is only logged. If instead the second join
  fails, its rollback may delete the entry of the first joiner, which was told that it joined.\<close>

theorem racing_joins_collide:
  assumes "etcd_gateway sys leased kv" and "prefix_free leased TOPOLOGY_PREFIX"
    and "topo_wf (kv (st_world s))" and "dict_ok ps" and "mirrors ps (kv (st_world s))"
    and "\<forall>n. \<not> has_ip (kv (st_world s)) ipA n" and "\<forall>n. \<not> has_ip (kv (st_world s)) ipB n" and "ipA \<noteq> ipB"
    and "admit sys cfgA ps ipA hostA s = (Inr a, t)"
    and "st_world u = st_world t" and "admit sys cfgB ps ipB hostB u = (r, v)"
  shows "(\<forall>b. r = Inr b \<longrightarrow> jr_node_name b = jr_node_name a \<and> has_ip (kv (st_world v)) ipA (jr_node_name a)
       \<and> (\<forall>n. \<not> has_ip (kv (st_world v)) ipB n))
    \<and> (\<forall>e. r = Inl e \<longrightarrow> kv (st_world v) = kv (st_world t)
       \<or> kv (st_world v) = (kv (st_world s))(TOPOLOGY_PREFIX @ jr_node_name a := None))"
proof -
  note client = etcd_gateway.client [OF assms(1)]
  have none: "registered_as ps ipA = None" "registered_as ps ipB = None"
    using registered_as_mirrors [OF assms(4,5), of ipA] registered_as_mirrors [OF assms(4,5), of ipB] assms(6,7)
    by (auto split: option.splits)
  from wp_D_ok [OF kv_store.admit_first [OF client assms(2,3,5) none(1)] assms(9)]
  have a: "jr_node_name a = allocate_next_name (keys ps)"
    and reg: "registered (kv (st_world s)) (jr_node_name a) ipA hostA (kv (st_world t))" by simp_all
  then have taken: "kv (st_world u) (TOPOLOGY_PREFIX @ allocate_next_name (keys ps)) \<noteq> None"
    using assms(10) by (auto simp: registered_def)
  note late = kv_store.admit_late [OF client assms(2) taken none(2)]
  have ips: "has_ip (kv (st_world t)) ipA (jr_node_name a)" "\<not> has_ip (kv (st_world t)) ipB n" for n
    using assms(7,8) unfolding registered_has_ip [OF reg] by auto
  show ?thesis
  proof (cases r)
    case (Inl e)
    have "(kv (st_world t))(TOPOLOGY_PREFIX @ jr_node_name a := None) = (kv (st_world s))(TOPOLOGY_PREFIX @ jr_node_name a := None)"
      using reg by (auto simp: registered_def)
    then show ?thesis using wp_D_err [OF late] assms(10,11) Inl a by auto
  next
    case (Inr b)
    then show ?thesis using wp_D_ok [OF late] assms(10,11) a ips by auto
  qed
qed

definition race_cfg :: daemon_config where
  "race_cfg = default_config ''c'' ''node-2'' ''10.0.0.2'' ''secret'' ''http://10.0.0.1:2379''"

definition race_view :: peers where
  "race_view = [(''node-1'', node_entry ''10.0.0.1''), (''node-2'', node_entry ''10.0.0.2'')]"

lemma race_view_mirrors: "mirrors race_view (map_of (w_kv (st_world (start join_world))))"
  by (simp add: mirrors_def race_view_def topo_view_def start_def join_world_def two_nodes_def TOPOLOGY_PREFIX_def dict_get_def)

theorem racing_joins_collide_witness:
  "\<exists>a t b v. admit mem_sys join_cfg race_view ''10.0.0.3'' None (start join_world) = (Inr a, t)
     \<and> admit mem_sys race_cfg race_view ''10.0.0.4'' None (start (st_world t)) = (Inr b, v)
     \<and> jr_node_name b = jr_node_name a \<and> (\<forall>n. \<not> has_ip (map_of (w_kv (st_world v))) ''10.0.0.4'' n)"
proof -
  let ?m = "map_of (w_kv (st_world (start join_world)))"
  let ?a = "admit mem_sys join_cfg race_view ''10.0.0.3'' None (start join_world)"
  let ?b = "admit mem_sys race_cfg race_view ''10.0.0.4'' None (start (st_world (snd ?a)))"
  have "map_sum (\<lambda>_. ()) jr_node_name (fst ?a) = Inr ''node-3''" "map_sum (\<lambda>_. ()) jr_node_name (fst ?b) = Inr ''node-3''"
    by code_simp+
  then obtain a b where "fst ?a = Inr a" "fst ?b = Inr b" by (cases "fst ?a"; cases "fst ?b") auto
  then have ab: "?a = (Inr a, snd ?a)" "?b = (Inr b, snd ?b)" by (simp_all only: result_of)
  have f: "prefix_free lease_keys TOPOLOGY_PREFIX" and d: "dict_ok race_view" by code_simp+
  have v: "topo_view ?m n = dict_get race_view n" for n using race_view_mirrors by (simp add: mirrors_def)
  have no: "\<forall>n. \<not> has_ip ?m ''10.0.0.3'' n" "\<forall>n. \<not> has_ip ?m ''10.0.0.4'' n"
    by (auto simp: has_ip_def v race_view_def dict_get_def node_entry_def get_str_def split: if_splits)
  have w: "st_world (start (st_world (snd ?a))) = st_world (snd ?a)" by (simp add: start_def)
  have ne: "''10.0.0.3'' \<noteq> ''10.0.0.4''" by simp
  from racing_joins_collide [OF mem.etcd_gateway_axioms f join_world_wf d race_view_mirrors no ne ab(1) w ab(2)]
  show ?thesis using ab by blast
qed

text \<open>The failing variant: etcd refuses the second member, and the first joiner's entry is gone.\<close>

lemma racing_rollback_deletes_winner:
  "case admit mem_sys join_cfg race_view ''10.0.0.3'' None (start join_world) of
     (Inl e, t) \<Rightarrow> False
   | (Inr a, t) \<Rightarrow>
       (case admit mem_sys race_cfg race_view ''10.0.0.4'' None (start ((st_world t)\<lparr>w_faults := [Serve, Fail]\<rparr>)) of
          (Inr b, v) \<Rightarrow> False
        | (Inl e, v) \<Rightarrow> topo_view (map_of (w_kv (st_world t))) (jr_node_name a) \<noteq> None
            \<and> topo_view (map_of (w_kv (st_world v))) (jr_node_name a) = None)"
  by code_simp

end
