(* ===== verification/Job_Run.thy ===== *)
theory Job_Run
  imports Jobs Remove_Node Migrate_Pulsar Rotate_Token Backups
begin

text \<open>
  The jobs manager and the workers together: \<open>src/daemon/workers/__init__.py\<close> registers one worker for each
  job type, and \<open>_execute\<close> of \<open>src/daemon/jobs.py\<close> runs the worker of the job's type with a context whose
  log and progress calls change the job. Here the ticks of \<open>Jobs.execute\<close> are those of a real worker: the
  lines it logged and the progress it set, in their order. The worker sees the outside through a system of
  its own, of which nothing is assumed, so that the flusher's writes and those of other tasks may fall
  between its calls; \<open>beat\<close> is the flusher's last heartbeat, if it woke up.
\<close>

section \<open>The registry\<close>

record 'w worker_env =
  we_sys :: "'w sys"
  we_fuel :: nat
  we_cfg :: daemon_config
  we_leader :: bool
  we_mirror :: peers
  we_image :: "string option"
  we_schedule :: "(string \<times> string) list \<Rightarrow> (string \<times> string) list"
  we_owner :: "(nat \<times> nat) option"
  we_present :: "string \<Rightarrow> bool"
  we_str :: "json \<Rightarrow> string"

type_synonym 'w worker = "obj \<Rightarrow> ('w, unit) io"

text \<open>The imports of the package, in their order.\<close>

definition worker_handlers :: "'w worker_env \<Rightarrow> 'w worker dict" where
  "worker_handlers e =
     (let sys = we_sys e; cfg = we_cfg e; lead = we_leader e; ps = we_mirror e;
          owner = we_owner e; present = we_present e; str_of = we_str e in
      register_handler ''migrate-pulsar'' (run_migrate_pulsar sys cfg lead)
     (register_handler ''rotate-token'' (run_rotate_token sys cfg lead ps (we_image e) (we_schedule e))
     (register_handler ''version-upgrade'' (run_version_upgrade sys cfg lead ps)
     (register_handler ''remove-node'' (run_remove_node sys (we_fuel e) cfg lead (peer_count ps))
     (register_handler ''backup-etcd'' (\<lambda>_. run_backup_etcd sys owner present)
     (register_handler ''restore-backup'' (run_restore_backup sys owner present str_of)
     (register_handler ''export-backup'' (run_export_backup sys owner present str_of)
     (register_handler ''create-backup'' (run_create_backup sys owner present str_of) []))))))))"

section \<open>Running a worker as a job\<close>

text \<open>The calls a computation makes, next to its result.\<close>

definition observe :: "('w, 'a) io \<Rightarrow> ('w, (exn + 'a) \<times> act list) io" where
  "observe m = (\<lambda>s. case m (s\<lparr>st_trace := []\<rparr>) of
     (r, t) \<Rightarrow> (Inr (r, st_trace t), t\<lparr>st_trace := st_trace s @ st_trace t\<rparr>))"

fun jot :: "act \<Rightarrow> job \<Rightarrow> job" where
  "jot (A_log l) j = log_writer l j"
| "jot (A_progress p) j = progress_setter p j"
| "jot _ j = j"

definition annotate :: "act list \<Rightarrow> job \<Rightarrow> job" where
  "annotate acts j = foldl (\<lambda>j a. jot a j) j acts"

fun outcome_of :: "exn + unit \<Rightarrow> outcome" where
  "outcome_of (Inr u) = Returned"
| "outcome_of (Inl e) = (if e = CancelledError then Was_cancelled else Raised e)"

definition run_job :: "'w sys \<Rightarrow> 'w worker dict \<Rightarrow> time option \<Rightarrow> job \<Rightarrow> ('w, job \<times> bool) io" where
  "run_job sys hs beat j0 =
     (case dict_get hs (j_type j0) of
        None \<Rightarrow> raise (KeyError (j_type j0))
      | Some worker \<Rightarrow>
          bnd (now sys) (\<lambda>t.
            let j1 = j0\<lparr>j_state := ''running'', j_last_heartbeat := Some t\<rparr> in
            bnd (etcd_put sys (job_key (j_id j1)) (Json (to_json j1)) None) (\<lambda>_.
            bnd (observe (worker (j_params j1))) (\<lambda>(r, acts).
              if r = Inl Diverges then raise Diverges
              else
                let j2 = annotate acts (if beat = None then j1 else j1\<lparr>j_last_heartbeat := beat\<rparr>) in
                bnd (now sys) (\<lambda>t'.
                  let j3 = (set_outcome (outcome_of r) j2)\<lparr>j_finished_at := Some t'\<rparr> in
                  bnd (try_except (etcd_put sys (job_key (j_id j3)) (Json (to_json j3)) None) (\<lambda>_. ret ())) (\<lambda>_.
                    ret (j3, outcome_of r = Was_cancelled)))))))"

lemma wp_observe:
  "wp (observe m) Q E s = (case m (s\<lparr>st_trace := []\<rparr>) of (r, t) \<Rightarrow> Q (r, st_trace t) (t\<lparr>st_trace := st_trace s @ st_trace t\<rparr>))"
  by (simp add: wp_def observe_def split: prod.split)

text \<open>The tasks that can be cancelled after \<open>_execute\<close> ended: the job is taken out of \<open>_running\<close> in its \<open>finally\<close>, which
  is not reached when the first write of the job fails.\<close>

definition running_after :: "string \<Rightarrow> exn + 'a \<Rightarrow> string list \<Rightarrow> string list" where
  "running_after jid r running = (case r of Inr _ \<Rightarrow> removeAll jid running | Inl _ \<Rightarrow> running)"

lemma cancel_after_end:
  "cancel_job (running_after jid (Inr x) running) finished jid' \<longleftrightarrow> jid' \<noteq> jid \<and> cancel_job running finished jid'"
  by (auto simp: running_after_def cancel_job_def)

section \<open>What a worker leaves in its job\<close>

fun logged :: "act list \<Rightarrow> string list" where
  "logged [] = []"
| "logged (A_log l # as) = l # logged as"
| "logged (_ # as) = logged as"

definition cap_line :: "string \<Rightarrow> string" where
  "cap_line l =
     (let text = rstrip_by (\<lambda>c. c = CHR 0x0A) l in
      if LOG_LINE_CAP_CHARS < length text then take LOG_LINE_CAP_CHARS text @ CHR 0x85 # ''[truncated]'' else text)"

text \<open>The last lines of a log.\<close>

definition tail_lines :: "'a list \<Rightarrow> 'a list" where
  "tail_lines ls = drop (length ls - LOG_TAIL_LINES) ls"

lemma tail_lines_snoc [simp]: "tail_lines (tail_lines xs @ [x]) = tail_lines (xs @ [x])"
proof (cases "length xs \<le> LOG_TAIL_LINES")
  case False
  then have "Suc (length xs - LOG_TAIL_LINES) = Suc (length xs) - LOG_TAIL_LINES" by simp
  with False show ?thesis by (simp add: tail_lines_def)
qed (simp add: tail_lines_def)

lemma tail_lines_id: "length ls \<le> LOG_TAIL_LINES \<Longrightarrow> tail_lines ls = ls"
  by (simp add: tail_lines_def)

lemma log_writer_tail: "j_logs (log_writer l j) = tail_lines (j_logs j @ [cap_line l])"
  by (simp add: log_writer_def tail_lines_def cap_line_def Let_def)

lemma annotate_simps [simp]: "annotate [] j = j" "annotate (a # as) j = annotate as (jot a j)"
  by (simp_all add: annotate_def)

lemma annotate_logs:
  assumes "length (j_logs j) \<le> LOG_TAIL_LINES"
  shows "j_logs (annotate acts j) = tail_lines (j_logs j @ map cap_line (logged acts))"
proof -
  have "j_logs (annotate acts j) = tail_lines (ls @ map cap_line (logged acts))" if "j_logs j = tail_lines ls" for ls
    using that
  proof (induction acts arbitrary: j ls)
    case (Cons a acts)
    show ?case
    proof (cases a)
      case (A_log l)
      then have "j_logs (jot a j) = tail_lines (ls @ [cap_line l])"
        using Cons.prems by (simp add: log_writer_tail)
      from Cons.IH [OF this] show ?thesis using A_log by simp
    qed (use Cons in \<open>simp_all add: progress_setter_def\<close>)
  qed simp
  then show ?thesis using tail_lines_id [OF assms] by metis
qed

lemma note_run_inv: "run_inv j0 j \<Longrightarrow> run_inv j0 (jot a j)"
  by (cases a) (auto simp: run_inv_def log_writer_ok progress_setter_ok, simp_all add: progress_setter_def same_job_def)

lemma annotate_run_inv: "run_inv j0 j \<Longrightarrow> run_inv j0 (annotate acts j)"
  by (induction acts arbitrary: j) (simp_all add: note_run_inv)

text \<open>The progress a job shows is the last one its worker set.\<close>

lemma annotate_progress:
  "j_progress (annotate acts j) = (if progress_values acts = [] then j_progress j else max 0 (min 1 (last (progress_values acts))))"
proof (induction acts arbitrary: j)
  case (Cons a acts)
  then show ?case by (cases a) (simp_all add: progress_setter_def log_writer_def Let_def)
qed simp

section \<open>The stored job tells what the worker did\<close>

text \<open>The job as its end is recorded.\<close>

definition records :: "job \<Rightarrow> exn + unit \<Rightarrow> act list \<Rightarrow> job \<Rightarrow> bool" where
  "records j0 r acts j \<longleftrightarrow> final_job (outcome_of r) j0 j \<and> j_logs j = tail_lines (j_logs j0 @ map cap_line (logged acts))"

lemma records_done: "records j0 r acts j \<Longrightarrow> j_state j = ''done'' \<Longrightarrow> r = Inr ()"
  by (cases "(r, acts, j)" rule: prod_cases3; cases r) (auto simp: records_def final_job_def split: if_splits)

lemma set_outcome_logs [simp]: "j_logs (set_outcome out j) = j_logs j"
  by (cases out) simp_all

text \<open>The manager's own calls, and how they enclose those of the worker: \<open>s\<close> and \<open>t\<close> are the states around
  \<open>_execute\<close>, \<open>s1\<close> and \<open>t1\<close> those around the worker.\<close>

definition own_call :: "string \<Rightarrow> act \<Rightarrow> bool" where
  "own_call key a \<longleftrightarrow> a = A_time \<or> (\<exists>d. a = A_sleep d) \<or> (\<exists>v. a = A_etcd (Put key v None))"

lemma own_call_simps [simp]:
  "own_call key A_time" "own_call key (A_sleep d)" "own_call key (A_etcd (Put key v None))"
  by (simp_all add: own_call_def)

definition encloses :: "('w \<Rightarrow> string \<rightharpoonup> etcd_value) \<Rightarrow> job \<Rightarrow> job \<Rightarrow> 'w st \<Rightarrow> 'w st \<Rightarrow> 'w st \<Rightarrow> 'w st \<Rightarrow> bool" where
  "encloses kv j0 j s s1 t1 t \<longleftrightarrow> st_trace s1 = []
     \<and> (\<exists>h. kv (st_world s1) = (kv (st_world s))(job_key (j_id j0) \<mapsto> Json (to_json (j0\<lparr>j_state := ''running'', j_last_heartbeat := Some h\<rparr>))))
     \<and> kv (st_world t) = (kv (st_world t1))(job_key (j_id j0) \<mapsto> Json (to_json j))
     \<and> (\<exists>pre post. st_trace t = st_trace s @ pre @ st_trace t1 @ post \<and> list_all (own_call (job_key (j_id j0))) (pre @ post))"

lemma wp_only: "only A m \<Longrightarrow> wp m (\<lambda>_ t. \<exists>acts. st_trace t = st_trace s @ acts \<and> list_all A acts) (\<lambda>_ _. True) s"
  using onlyD by (fastforce simp: wp_def split: prod.split sum.split)

context kv_store
begin

lemma put_own:
  assumes "job_key i \<notin> leased" and up: "always_up sys"
  shows "wp (etcd_put sys (job_key i) v None)
    (\<lambda>_ t. kv (st_world t) = (kv (st_world s))(job_key i \<mapsto> v)
       \<and> (\<exists>acts. st_trace t = st_trace s @ acts \<and> list_all (own_call (job_key i)) acts)) (\<lambda>_ _. False) s"
proof -
  have "only (own_call (job_key i)) (etcd_put sys (job_key i) v None)" by (intro only_intros) simp_all
  from wp_conj [OF put_wp [OF assms(1)] wp_only [OF this]] show ?thesis by (rule wp_mono) (use up in auto)
qed

lemma run_job_wp:
  assumes k: "job_key (j_id j0) \<notin> leased" and w: "dict_get hs (j_type j0) = Some worker"
    and up: "always_up sys" and ok: "length (j_logs j0) \<le> LOG_TAIL_LINES"
  shows "wp (run_job sys hs beat j0)
    (\<lambda>x t. \<exists>s1 r t1. worker (j_params j0) s1 = (r, t1) \<and> encloses kv j0 (fst x) s s1 t1 t
       \<and> records j0 r (st_trace t1) (fst x) \<and> snd x = (outcome_of r = Was_cancelled))
    (\<lambda>e _. e = Diverges \<and> (\<exists>s1 t1. worker (j_params j0) s1 = (Inl Diverges, t1))) s"
proof -
  let ?k = "job_key (j_id j0)"
  have id1: "j_id (j0\<lparr>j_state := st, j_last_heartbeat := h\<rparr>) = j_id j0" for st h by simp
  have par: "j_params (j0\<lparr>j_state := st, j_last_heartbeat := h\<rparr>) = j_params j0" for st h by simp
  have inv: "run_inv j0 (j0\<lparr>j_state := ''running'', j_last_heartbeat := h\<rparr>)" for h
    by (simp add: run_inv_def same_job_def job_ok_def)
  have rec: "records j0 r acts ((set_outcome (outcome_of r) (annotate acts (j0\<lparr>j_state := ''running'', j_last_heartbeat := h\<rparr>)))\<lparr>j_finished_at := Some f\<rparr>)" for r acts h f
    unfolding records_def using final_job_run [OF annotate_run_inv [OF inv]] ok
    by (simp add: annotate_logs)
  have final: "wp (bnd (try_except (etcd_put sys (job_key (j_id j3)) (Json (to_json j3)) None) (\<lambda>_. ret ())) (\<lambda>_. ret (j3, c)))
      (\<lambda>x t. x = (j3, c) \<and> kv (st_world t) = (kv (st_world u))(?k \<mapsto> Json (to_json j3))
         \<and> (\<exists>acts. st_trace t = st_trace u @ acts \<and> list_all (own_call ?k) acts)) (\<lambda>_ _. False) u"
    if "j_id j3 = j_id j0" for j3 c u
    unfolding wp_simps that by (rule wp_mono [OF put_own [OF k up]]) auto
  show ?thesis
    unfolding run_job_def w option.case wp_bnd now_def wp_call Let_def id1 par
  proof (rule wp_mono [OF put_own [OF k up]], goal_cases)
    case (1 u t)
    let ?s1 = "t\<lparr>st_trace := []\<rparr>"
    obtain r t1 where run: "worker (j_params j0) ?s1 = (r, t1)" by fastforce
    obtain pre where pre: "st_trace t = st_trace s @ A_time # pre" "list_all (own_call ?k) pre" using 1 by auto
    have beat: "(if beat = None then j0\<lparr>j_state := st, j_last_heartbeat := h\<rparr> else j0\<lparr>j_state := st, j_last_heartbeat := h\<rparr>\<lparr>j_last_heartbeat := beat\<rparr>)
        = j0\<lparr>j_state := st, j_last_heartbeat := (if beat = None then h else beat)\<rparr>" for st h by simp
    have id3: "j_id (set_outcome (outcome_of r) (annotate acts (j0\<lparr>j_state := ''running'', j_last_heartbeat := h\<rparr>))\<lparr>j_finished_at := Some f\<rparr>) = j_id j0" for acts h f
      using rec [where r = r and acts = acts and h = h and f = f] by (simp add: records_def final_job_def same_job_def)
    show ?case
    proof (cases "r = Inl Diverges")
      case True
      then show ?thesis using run by (auto simp: wp_observe wp_raise)
    next
      case False
      show ?thesis
        unfolding wp_observe run prod.case if_not_P [OF False] beat wp_bnd [of "call _ _"] wp_call
      proof (rule wp_mono [OF final], goal_cases)
        case (2 x t')
        then obtain post where "st_trace t' = st_trace s @ (A_time # pre) @ st_trace t1 @ (A_time # post)" "list_all (own_call ?k) post"
          using pre by auto
        then have "\<exists>pre post. st_trace t' = st_trace s @ pre @ st_trace t1 @ post \<and> list_all (own_call ?k) (pre @ post)"
          using pre(2) by (intro exI [of _ "A_time # pre"] exI [of _ "A_time # post"]) simp
        moreover have "\<exists>h. kv (st_world t) = (kv (st_world s))(?k \<mapsto> Json (to_json (j0\<lparr>j_state := ''running'', j_last_heartbeat := Some h\<rparr>)))"
          using 1 by (auto simp: clock_spec)
        ultimately show ?case using 2 run rec
          by (intro exI [of _ ?s1] exI [of _ r] exI [of _ t1]) (simp add: id3 encloses_def clock_spec)
      qed (simp_all add: id3)
    qed
  qed simp
qed

end

section \<open>Properties\<close>

lemma worker_handlers_keys:
  "keys (worker_handlers e) = [''create-backup'', ''export-backup'', ''restore-backup'', ''backup-etcd'', ''remove-node'',
     ''version-upgrade'', ''rotate-token'', ''migrate-pulsar'']"
  by (simp add: worker_handlers_def Let_def register_handler_def dict_set_def dict_get_def keys_def)

lemma worker_handlers_get:
  "dict_get (worker_handlers e) ''version-upgrade'' = Some (run_version_upgrade (we_sys e) (we_cfg e) (we_leader e) (we_mirror e))"
  "dict_get (worker_handlers e) ''remove-node'' =
     Some (run_remove_node (we_sys e) (we_fuel e) (we_cfg e) (we_leader e) (peer_count (we_mirror e)))"
  "dict_get (worker_handlers e) ''create-backup'' = Some (run_create_backup (we_sys e) (we_owner e) (we_present e) (we_str e))"
  "dict_get (worker_handlers e) ''backup-etcd'' = Some (\<lambda>_. run_backup_etcd (we_sys e) (we_owner e) (we_present e))"
  by (simp_all add: worker_handlers_def Let_def register_handler_def dict_set_def dict_get_def)

text \<open>No job is created that cannot run: the manager knows exactly the eight types of the package, refuses any
  other before it calls anything, and a job it has created finds its worker.\<close>

theorem created_jobs_have_workers:
  "known_types (worker_handlers e) = [''backup-etcd'', ''create-backup'', ''export-backup'', ''migrate-pulsar'',
     ''remove-node'', ''restore-backup'', ''rotate-token'', ''version-upgrade'']
   \<and> (case create_job sys (worker_handlers e) is_leader node running job_type params s of
        (Inr (j, ids), t) \<Rightarrow> is_leader \<and> j_type j = job_type \<and> j_params j = params
          \<and> dict_get (worker_handlers e) (j_type j) \<noteq> None
      | (Inl x, t) \<Rightarrow> job_type \<in> set (keys (worker_handlers e)) \<or> (t = s \<and> x = ValueError ''unknown job type''))"
proof (intro conjI)
  show "known_types (worker_handlers e) = [''backup-etcd'', ''create-backup'', ''export-backup'', ''migrate-pulsar'',
     ''remove-node'', ''restore-backup'', ''rotate-token'', ''version-upgrade'']"
    unfolding known_types_def worker_handlers_keys by code_simp
  have "dict_get (worker_handlers e) k \<noteq> None" if "k \<in> set (keys (worker_handlers e))" for k
    using that unfolding dict_get_keys [symmetric] .
  then show "case create_job sys (worker_handlers e) is_leader node running job_type params s of
        (Inr (j, ids), t) \<Rightarrow> is_leader \<and> j_type j = job_type \<and> j_params j = params
          \<and> dict_get (worker_handlers e) (j_type j) \<noteq> None
      | (Inl x, t) \<Rightarrow> job_type \<in> set (keys (worker_handlers e)) \<or> (t = s \<and> x = ValueError ''unknown job type'')"
    by (auto simp: create_job_def raise_def bnd_def ret_def uuid4_def now_def call_def Let_def
        split: prod.split sum.split)
qed


definition failing_tool :: "world sys" where
  "failing_tool = mem_sys\<lparr>sys_run := (\<lambda>c w. ((1, ''snapshot'' @ [nl] @ ''disk full'' @ [nl], []), w))\<rparr>"

definition tool_env :: "world worker_env" where
  "tool_env = \<lparr>we_sys = failing_tool, we_fuel = 1, we_cfg = sample_cfg, we_leader = True, we_mirror = [], we_image = None,
     we_schedule = id, we_owner = None, we_present = (\<lambda>_. False), we_str = (\<lambda>_. [])\<rparr>"

definition etcd_job :: job where
  "etcd_job = (sample_job ''b'' ''pending'' 20)\<lparr>j_type := ''backup-etcd''\<rparr>"

lemma failing_tool_run:
  "\<exists>t. run_backup_etcd failing_tool None present s = (Inl (RuntimeError ''CLI exited with an error, see job logs above''), t)
     \<and> logged (st_trace t) = logged (st_trace s) @ [''==> running: ./milvus-onprem backup-etcd'', ''snapshot'' @ [nl], ''disk full'' @ [nl]]"
proof -
  have r: "readlines (''snapshot'' @ [nl] @ ''disk full'' @ [nl]) = [''snapshot'' @ [nl], ''disk full'' @ [nl]]"
    and c: "command_line [''./milvus-onprem'', ''backup-etcd''] = ''./milvus-onprem backup-etcd''" by code_simp+
  have l: "logged (as @ bs) = logged as @ logged bs" for as bs by (induction as rule: logged.induct) auto
  show ?thesis
    by (simp add: run_backup_etcd_def run_tool_def run_in_repo_def c failing_tool_def log_line_def run_cmd_def call_def bnd_def
        r [simplified] try_except_def chown_artifacts_def raise_def ret_def is_Exception_def l)
qed


lemma job_key_no_peer [simp]: "job_key i \<noteq> TOPOLOGY_PREFIX @ n" "TOPOLOGY_PREFIX @ n \<noteq> job_key i"
  by (simp_all add: job_key_def JOBS_PREFIX_def TOPOLOGY_PREFIX_def)


definition nightly_env :: "world worker_env" where
  "nightly_env = tool_env\<lparr>we_sys := mem_sys\<lparr>sys_run := (\<lambda>c w. ((0, [], []), w))\<rparr>, we_str := (\<lambda>j. or_empty (as_str (Some j)))\<rparr>"

definition nightly_job :: job where
  "nightly_job = (sample_job ''b'' ''pending'' 20)\<lparr>j_type := ''create-backup'', j_params := [(''name'', JStr ''nightly; rm -rf /'')]\<rparr>"

lemma nightly_returns:
  "fst (run_create_backup (we_sys nightly_env) (we_owner nightly_env) (we_present nightly_env) (we_str nightly_env) (j_params nightly_job) s) = Inr ()"
proof -
  have "param (we_str nightly_env) (j_params nightly_job) ''name'' = Some ''nightly; rm -rf /''" by code_simp
  then show ?thesis
    by (simp add: run_create_backup_def run_tool_def run_in_repo_def nightly_env_def tool_env_def log_line_def run_cmd_def
        call_def bnd_def try_except_def chown_artifacts_def raise_def ret_def is_Exception_def)
qed


end
