(* ===== verification/Shutdown.thy ===== *)
theory Shutdown
  imports Lifecycle
begin

text \<open>
  \<open>src/daemon/main.py\<close>: the \<open>lifespan\<close> of a daemon from its start to the end of its shutdown. The daemon
  starts, serves, and in the \<open>finally\<close> it signals every background task to stop, cancels them, waits for
  each and closes the etcd client. A background task is given by what is left of it when \<open>CancelledError\<close>
  is thrown at the \<open>await\<close> it stands at: it may clean up, call the outside, raise anything or return.
\<close>

section \<open>Background tasks\<close>

record background =
  bg_elector :: elector
  bg_topology_stop :: bool
  bg_local_watchdog_stop :: bool
  bg_peer_watchdog_stop :: bool
  bg_stop_pruner :: bool
  bg_client_open :: bool

definition new_background :: background where
  "new_background = \<lparr>bg_elector = new_elector, bg_topology_stop = False, bg_local_watchdog_stop = False,
     bg_peer_watchdog_stop = False, bg_stop_pruner = False, bg_client_open = True\<rparr>"

text \<open>What is left of a task: how it ends, and the state it leaves.\<close>

type_synonym 'w remainder = "background \<Rightarrow> ('w, (exn + unit) \<times> background) io"

text \<open>The elector under cancellation: the \<open>finally\<close> of \<open>_cycle\<close> runs if the daemon holds the leadership, and
  \<open>run\<close> lets \<open>CancelledError\<close> through.\<close>

definition cancel_elector :: "'w remainder" where
  "cancel_elector bg =
     (let e = bg_elector bg;
          e' = (if el_is_leader e then e\<lparr>el_is_leader := False, el_term_started_at := None\<rparr> else e)
      in ret (Inl CancelledError, bg\<lparr>bg_elector := e'\<rparr>))"

text \<open>\<open>try: await t except (CancelledError, Exception): pass\<close>.\<close>

definition await_cancelled :: "'w remainder \<Rightarrow> background \<Rightarrow> ('w, background) io" where
  "await_cancelled task bg =
     bnd (task bg) (\<lambda>(r, bg').
       case r of
         Inr _ \<Rightarrow> ret bg'
       | Inl e \<Rightarrow> if e = CancelledError \<or> is_Exception e then ret bg' else raise e)"

section \<open>The lifespan\<close>

definition shutdown :: "'w sys \<Rightarrow> 'w remainder list \<Rightarrow> background \<Rightarrow> ('w, background) io" where
  "shutdown sys others bg =
     bnd (stop_elector sys (bg_elector bg)) (\<lambda>e.
       let bg1 = bg\<lparr>bg_elector := e, bg_topology_stop := True, bg_local_watchdog_stop := True,
                    bg_peer_watchdog_stop := True, bg_stop_pruner := True\<rparr>
       in bnd (fold_io await_cancelled (cancel_elector # others) bg1) (\<lambda>bg2.
            ret (bg2\<lparr>bg_client_open := False\<rparr>)))"

text \<open>\<open>serving\<close> is the time between the start and the shutdown signal: it may end in an exception and leaves
  the tasks in some state. The exception goes on after the shutdown.\<close>

definition lifespan :: "'w sys \<Rightarrow> daemon_config \<Rightarrow> 'w remainder \<Rightarrow> 'w remainder list \<Rightarrow> ('w, background) io" where
  "lifespan sys cfg serving others =
     bnd (startup sys cfg) (\<lambda>_.
     bnd (serving new_background) (\<lambda>(r, bg).
     bnd (shutdown sys others bg) (\<lambda>bg'.
       case r of Inr _ \<Rightarrow> ret bg' | Inl e \<Rightarrow> raise e)))"

section \<open>Waiting for the tasks\<close>

text \<open>A task that ends, in whatever way, and takes back no stop signal and no step of the elector.\<close>

definition obeys_cancel :: "'w remainder \<Rightarrow> bool" where
  "obeys_cancel task \<longleftrightarrow> (\<forall>bg s. \<exists>r bg' t. task bg s = (Inr (r, bg'), t) \<and> r \<noteq> Inl Diverges
     \<and> (\<exists>acts. st_trace t = st_trace s @ acts)
     \<and> (bg_topology_stop bg \<longrightarrow> bg_topology_stop bg') \<and> (bg_local_watchdog_stop bg \<longrightarrow> bg_local_watchdog_stop bg')
     \<and> (bg_peer_watchdog_stop bg \<longrightarrow> bg_peer_watchdog_stop bg') \<and> (bg_stop_pruner bg \<longrightarrow> bg_stop_pruner bg')
     \<and> bg_elector bg' = bg_elector bg)"

definition stopped :: "background \<Rightarrow> bool" where
  "stopped bg \<longleftrightarrow> bg_topology_stop bg \<and> bg_local_watchdog_stop bg \<and> bg_peer_watchdog_stop bg \<and> bg_stop_pruner bg"

lemma await_obedient:
  assumes "obeys_cancel task" and "stopped bg"
  shows "wp (await_cancelled task bg) (\<lambda>bg' t. stopped bg' \<and> bg_elector bg' = bg_elector bg \<and> (\<exists>acts. st_trace t = st_trace s @ acts)) (\<lambda>_ _. False) s"
proof -
  obtain r bg' t where "task bg s = (Inr (r, bg'), t)" "r \<noteq> Inl Diverges" "stopped bg'" "bg_elector bg' = bg_elector bg"
    "\<exists>acts. st_trace t = st_trace s @ acts"
    using assms unfolding obeys_cancel_def stopped_def by metis
  then show ?thesis
    by (cases r) (auto simp: wp_def await_cancelled_def bnd_def ret_def raise_def is_Exception_def)
qed

lemma await_all:
  fixes s :: "'w st"
  assumes "list_all obeys_cancel tasks" and "stopped bg"
  shows "wp (fold_io await_cancelled tasks bg) (\<lambda>bg' t. stopped bg' \<and> bg_elector bg' = bg_elector bg \<and> (\<exists>acts. st_trace t = st_trace s @ acts)) (\<lambda>_ _. False) s"
  using assms
proof (induction tasks arbitrary: bg s)
  case Nil
  then show ?case by (simp add: wp_ret)
next
  case (Cons task tasks)
  have one: "wp (await_cancelled task bg) (\<lambda>bg' t. stopped bg' \<and> bg_elector bg' = bg_elector bg \<and> (\<exists>acts. st_trace t = st_trace u @ acts)) (\<lambda>_ _. False) u" for u
    using Cons.prems by (intro await_obedient) simp_all
  show ?case unfolding fold_io.simps wp_bnd
  proof (rule wp_mono [OF one], goal_cases)
    case (1 x t)
    then show ?case using Cons.prems by (intro wp_mono [OF Cons.IH]) auto
  qed
qed

text \<open>The elector's task: nothing is called, and the daemon no longer leads.\<close>

lemma await_elector:
  "await_cancelled cancel_elector bg = ret (bg\<lparr>bg_elector :=
     (if el_is_leader (bg_elector bg) then (bg_elector bg)\<lparr>el_is_leader := False, el_term_started_at := None\<rparr> else bg_elector bg)\<rparr>)"
  by (auto simp: await_cancelled_def cancel_elector_def Let_def bnd_def ret_def fun_eq_iff)

text \<open>The first call of a request is the request.\<close>

lemma post_first:
  "wp (post sys rq) (\<lambda>_ t. \<exists>acts. st_trace t = st_trace s @ A_etcd rq # acts)
     (\<lambda>x t. is_Exception x \<and> (\<exists>acts. st_trace t = st_trace s @ A_etcd rq # acts)) s"
proof -
  have rest: "wp (post_loop sys rq ds) (\<lambda>_ t. \<exists>acts. st_trace t = st_trace u @ acts) (\<lambda>_ t. \<exists>acts. st_trace t = st_trace u @ acts) u" for ds and u :: "'a st"
  proof -
    have "only (\<lambda>_. True) (post_loop sys rq ds)" by (rule only_post_loop) simp_all
    from onlyD [OF this] show ?thesis by (fastforce simp: wp_def split: prod.split sum.split)
  qed
  have "wp (post sys rq) (\<lambda>_ t. \<exists>acts. st_trace t = st_trace s @ A_etcd rq # acts)
      (\<lambda>_ t. \<exists>acts. st_trace t = st_trace s @ A_etcd rq # acts) s"
    unfolding post_def
    by (auto simp: wp_simps split: http_reply.split option.split intro!: wp_mono [OF rest])
  from wp_conj [OF this post_raises] show ?thesis by (rule wp_mono) auto
qed

text \<open>Stopping the elector returns, and its first call is the revocation of the lease.\<close>

lemma stop_elector_wp:
  "wp (stop_elector sys e)
     (\<lambda>e' t. e' = e\<lparr>el_stop := True\<rparr>
        \<and> (case el_lease_id e of None \<Rightarrow> t = s | Some l \<Rightarrow> \<exists>acts. st_trace t = st_trace s @ A_etcd (Lease_revoke l) # acts))
     (\<lambda>_ _. False) s"
proof (cases "el_lease_id e")
  case (Some l)
  show ?thesis using Some
    unfolding stop_elector_def Let_def lease_revoke_def
    by (auto simp: wp_bnd wp_try_except wp_ret intro!: wp_mono [OF post_first])
qed (simp add: stop_elector_def wp_ret)

lemma shutdown_wp:
  assumes "list_all obeys_cancel others"
  shows "wp (shutdown sys others bg)
    (\<lambda>bg' t. stopped bg' \<and> \<not> bg_client_open bg' \<and> el_stop (bg_elector bg') \<and> \<not> el_is_leader (bg_elector bg')
       \<and> (\<forall>l. el_lease_id (bg_elector bg) = Some l \<longrightarrow> (\<exists>acts. st_trace t = st_trace s @ A_etcd (Lease_revoke l) # acts)))
    (\<lambda>_ _. False) s"
  unfolding shutdown_def Let_def wp_bnd [of "stop_elector _ _"]
proof (rule wp_mono [OF stop_elector_wp], goal_cases)
  case (1 e t)
  then show ?case
    unfolding fold_io.simps await_elector wp_bnd wp_ret
    by (intro wp_mono [OF await_all [OF assms]]) (auto simp: stopped_def)
qed

section \<open>Properties\<close>


text \<open>A leader whose watcher dies in a handler while it is cancelled.\<close>

definition led_world :: world where
  "led_world = two_nodes\<lparr>w_kv := (LEADER_KEY, Text ''node-1'') # w_kv two_nodes, w_bound := [(LEADER_KEY, 7)]\<rparr>"

definition leading :: "world remainder" where
  "leading bg = ret (Inl CancelledError, bg\<lparr>bg_elector := (bg_elector bg)\<lparr>el_is_leader := True, el_lease_id := Some 7\<rparr>\<rparr>)"

definition sample_tasks :: "world remainder list" where
  "sample_tasks = [\<lambda>bg. bnd (emit ''handler interrupted'') (\<lambda>_. ret (Inl (RuntimeError ''docker''), bg)), \<lambda>bg. ret (Inl CancelledError, bg), \<lambda>bg. ret (Inr (), bg)]"


end
