(* ===== verification/Spec2Isabelle.thy ===== *)
theory Spec2Isabelle
  imports Prelude Daemon_IO Json_Text Etcd_Client Sim_World Config Settings Cluster_Env Env_Edit Topology Jobs Leader Election Joining
    Watchdog Stages Handlers Worker Remove_Node Migrate_Pulsar Version_Upgrade Rotate_Token Backups Api Fleet
    Lifecycle Job_Types Watch Wire Join_Order Job_Run Shutdown "HOL-Library.Multiset"
begin

text \<open>
  A verification development for the control-plane daemon of milvus-onprem (\<open>src/daemon\<close>), the Python
  program that runs on every node of a Milvus cluster, keeps the cluster's state in etcd and carries out
  the operator's requests.

  \<^bold>\<open>The program and its parts.\<close> Every node runs one daemon. \<open>leader.py\<close> elects one of them by a lease in etcd;
  \<open>topology.py\<close> mirrors the peers registered in etcd and calls handlers on a change; \<open>handlers.py\<close> edits
  \<open>cluster.env\<close>, renders the templates and recreates containers; \<open>joining.py\<close> lets a node join; \<open>jobs.py\<close> stores
  and runs long operations, whose bodies are in \<open>workers/\<close>; \<open>watchdog.py\<close> restarts sick containers and probes
  peers; \<open>api.py\<close> is the HTTP surface through which operators and other daemons reach all of this;
  \<open>main.py\<close> starts everything. They interact through etcd (\<open>etcd_client.py\<close>), through \<open>cluster.env\<close> and
  through requests from daemon to daemon.

  \<^bold>\<open>Reading the model.\<close> A coroutine is a value of type \<open>('w, 'a) io\<close> (\<open>Daemon_IO\<close>): a function of the state of a
  daemon to an exception or a value and the next state, which records every call to the outside in a
  trace. The outside (etcd, clocks, shell, docker, TCP, files, the other daemons) is a record \<open>'w sys\<close> of
  functions on an arbitrary world, and nothing is assumed of it except where a theorem names a locale:
  \<open>etcd_gateway\<close> (documented behaviour of the etcd v3 gateway; faults at any request), \<open>kv_store\<close> (what the
  client makes of it), \<open>monotonic_clock\<close> and \<open>patient_clock\<close>, \<open>file_store\<close>, \<open>quiet_outside\<close>,
  \<open>pulsar_reports\<close> and \<open>obedient_peers\<close>. \<open>Sim_World\<close> is an executable world in memory with injected faults;
  every locale is interpreted on it or, for the last two, on a fleet of modelled daemons (\<open>Fleet\<close>).

  \<^item> \<open>Prelude\<close>, \<open>Json_Text\<close>: Python strings, dictionaries and JSON texts. \<open>Daemon_IO\<close>: computations, exceptions,
    weakest preconditions, and \<open>only\<close> (which calls a computation makes). \<open>Stages\<close>: calls in a fixed order of
    stages, and rising progress. \<open>Worker\<close>: what the workers share, and the rules for \<open>never_ok\<close>, \<open>sends\<close>,
    \<open>keeps\<close> and \<open>returns\<close>.
  \<^item> \<open>Etcd_Client\<close>: \<open>EtcdClient\<close> with its retries and fail-over. Lemmas: the client meets \<open>kv_store\<close>. \<open>Wire\<close>: the
    base64 and UTF-8 of keys and values; round trip, and prefix scans are exact on the bytes.
  \<^item> \<open>Config\<close>: \<open>DaemonConfig\<close> and \<open>require_token\<close>. \<open>Settings\<close>: the record read from the environment, field by
    field, up to the end points in use; a daemon starts exactly on a well formed environment.
  \<^item> \<open>Cluster_Env\<close>: all readers of \<open>cluster.env\<close> and \<open>_upsert_kv\<close> as a computation on the text. \<open>Env_Edit\<close>: the same
    editor system call by system call on a disk with inodes, several edits interleaved; an edit survives a
    crash, edits under the handlers' lock happen one after the other, and edits outside it clash.
  \<^item> \<open>Topology\<close>: \<open>TopologyWatcher\<close>; its mirror converges to the store. \<open>Watch\<close>: the reconnect loop of
    \<open>watch_prefix\<close> under the watcher, what survives a broken connection and what does not.
    \<open>Handlers\<close>: \<open>TopologyHandlers\<close>.
  \<^item> \<open>Leader\<close>: one \<open>LeaderElector\<close>. \<open>Election\<close>: all electors and one etcd as a step relation; one leader with
    a live lease by rule induction, and the runs that show the limits of that promise.
  \<^item> \<open>Jobs\<close>: \<open>JobsManager\<close>; a worker is a sequence of ticks interleaved with the flusher. \<open>Job_Types\<close>: the
    type of stored jobs is kept by every operation. \<open>Job_Run\<close>: the registered workers run as jobs; a stored job
    shows what its worker did. \<open>Lifecycle\<close>: registration and sweep loops of \<open>main.py\<close>. \<open>Shutdown\<close>: its
    lifespan, with the cancellation of the background tasks.
  \<^item> \<open>Joining\<close>: \<open>handle_join\<close> with its helpers. \<open>Join_Order\<close>: joins in a row under the lock, and joins that
    race on two leaders. \<open>Watchdog\<close>: both watchdogs.
  \<^item> \<open>Remove_Node\<close>, \<open>Migrate_Pulsar\<close>, \<open>Version_Upgrade\<close>, \<open>Rotate_Token\<close>, \<open>Backups\<close>: the workers. Lemmas: guards before
    effects, order of effects, no success without every peer, return, arguments that reach the shell intact.
  \<^item> \<open>Api\<close>: all routes of \<open>api.py\<close> and the routing with the token check. \<open>Fleet\<close>: daemons that answer each
    other through \<open>serve\<close>, with the migration and the rotation on them.
  \<^item> This theory: properties that span components.

  \<^bold>\<open>Loops.\<close> Structural loops are \<open>fun\<close>; the search for a free name and the polls that count seconds are
  \<open>function\<close> with a measure. A wait that ends by the clock takes a bound on its rounds and ends in the
  pseudo exception \<open>Diverges\<close> when it is used up; the theorems show that it is not: each round sleeps, so
  \<open>timeout/2 + 1\<close> rounds suffice before a join, and 61 for a removal, whose longest wait is 180 seconds in steps
  of three. Loops that run as long as the daemon (elector, watcher, watchdogs, sweeps) take the finite
  sequence of events they see before the stop, and their theorems hold for every such sequence.

  \<^bold>\<open>What is not modelled.\<close> The message of an exception is kept only as far as the source's text identifies the cause,
  and log output of \<open>logging\<close> is left out. Floats are exact rationals. Characters are the code points below 256.
  Concurrency: the coroutines of one daemon run one at a time here; interleavings are modelled where the
  source depends on them (the flusher of a job, the election, the edits of \<open>cluster.env\<close>), and requests sent
  in parallel are sent in the order of a schedule, which is an argument. A worker that runs as a job sees the
  outside through a system of its own, so that the flusher's writes may fall between its calls.
  How pydantic reads a number or a truth value in an environment variable is a parameter of \<open>Settings\<close>.
  Requests are validated against the declared fields of their models. Left out are FastAPI's own pages and its
  validation of answers, uvicorn and \<open>main\<close>, the constructors that only store their arguments, and the bodies of
  \<open>_run\<close>, \<open>_run_repo\<close> and \<open>_tcp_probe\<close>, which are calls to the outside. An em dash in a message is written as a
  hyphen. The shell scripts, templates and test clients are not part of the daemon.
\<close>

section \<open>Two views of the peer lists\<close>

lemma node_sort_key_inj: "inj_on node_sort_key A"
  by (rule inj_onI) (auto simp: node_sort_key_def split: option.splits)

lemma sorted_names_unique:
  "distinct xs \<Longrightarrow> distinct ys \<Longrightarrow> set xs = set ys \<Longrightarrow> sort_key node_sort_key xs = sort_key node_sort_key ys"
  by (rule sort_key_inj_key_eq) (simp_all add: set_eq_iff_mset_eq_distinct node_sort_key_inj)

text \<open>C35. The peer lists a joiner is issued are the ones every other daemon renders from the topology: the optimistic
  computation of the join handler, on the entries before the join, agrees with the handlers' computation on
  the topology that has the joiner's entry, names, addresses and order included.\<close>

theorem joiner_lists_equal_rendered_lists:
  assumes "dict_ok existing" and "dict_ok ps" and "ip \<noteq> []"
    and "\<And>n. dict_get ps n = (if n = name then Some (peer_entry name ip hostname since) else dict_get existing n)"
  shows "current_peer_ips_and_names ps = ordered_peer_names_and_ips_after_join existing name ip"
proof -
  let ?f = "\<lambda>n. Option.bind (dict_get ps n) ip_of" and ?c = "dict_set name ip (combine_ips existing [])"
  have new: "ip_of (peer_entry name ip hostname since) = Some ip" by (simp add: peer_entry_def get_str_def dict_get_def)
  have get: "dict_get ?c n = (if truthy (?f n) then ?f n else None)" for n
    using assms(1,3,4) new dict_get_combine [of existing "[]" n]
    by (auto simp: dict_ok_def keys_def truthy_def split: option.splits)
  have "n \<in> set (keys ?c) \<longleftrightarrow> truthy (?f n)" for n
    unfolding dict_get_keys [symmetric] get by (simp add: truthy_def split: option.splits)
  moreover have "n \<in> set (keys ps)" if "truthy (?f n)" for n
    using that unfolding dict_get_keys [symmetric] by (cases "dict_get ps n") (simp_all add: truthy_def)
  ultimately have "set (filter (\<lambda>n. truthy (?f n)) (keys ps)) = set (keys ?c)" by auto
  moreover have "distinct (filter (\<lambda>n. truthy (?f n)) (keys ps))" "distinct (keys ?c)"
    using assms(2) dict_ok_set [OF combine_ips_ok [OF dict_ok_Nil]] unfolding dict_ok_def by (simp_all del: dict_ok_Nil)
  ultimately have "sort_key node_sort_key (filter (\<lambda>n. truthy (?f n)) (keys ps)) = sort_key node_sort_key (keys ?c)"
    by (intro sorted_names_unique)
  then have "filter (\<lambda>n. truthy (?f n)) (sort_key node_sort_key (keys ps)) = sort_key node_sort_key (keys ?c)"
    by (simp add: filter_sort)
  moreover have "or_empty (?f n) = or_empty (dict_get ?c n)" for n using get [of n] by (auto simp: or_empty_def truthy_def split: option.splits)
  ultimately show ?thesis
    unfolding current_peer_ips_and_names_def ordered_peer_names_and_ips_after_join_def Let_def by simp
qed

theorem joiner_lists_equal_rendered_lists_witness:
  "current_peer_ips_and_names (dict_set ''node-4'' (peer_entry ''node-4'' ''10.0.0.4'' None 0) trio)
     = ordered_peer_names_and_ips_after_join trio ''node-4'' ''10.0.0.4''"
proof -
  let ?ps = "dict_set ''node-4'' (peer_entry ''node-4'' ''10.0.0.4'' None 0) trio"
  have "dict_ok trio" by code_simp
  moreover from this have "dict_ok ?ps" by (rule dict_ok_set)
  ultimately show ?thesis
    by (rule joiner_lists_equal_rendered_lists [where name = "''node-4''" and hostname = None and since = 0]) simp_all
qed

section \<open>The mirror and the rotation\<close>

text \<open>\<open>rotate_token.py\<close> walks the watcher's mirror and not \<open>authoritative_peers\<close>. A peer that joined while the
  leader had no watch connection is not in the mirror, so the rotation never asks it and still reports
  success when the other followers confirm.\<close>

lemma missed_joiner_is_not_rotated:
  assumes "etcd_gateway sys leased kv"
    and "prefix_free leased TOPOLOGY_PREFIX"
    and "topo_view (kv (st_world s)) name = None"
    and "\<forall>ev \<in> set (reported (service (create_request TOPOLOGY_PREFIX None))). ev_key ev \<noteq> TOPOLOGY_PREFIX @ name"
    and "watch_topology sys hs service [] s = (Inr ps, t)"
    and "\<And>n. n \<noteq> name \<Longrightarrow> Option.bind (dict_get ps n) ip_of \<noteq> Some ip"
    and "\<And>fs. set (schedule fs) = set fs"
  shows "only (\<lambda>a. \<forall>h. a = A_http h \<longrightarrow> hc_ip h \<noteq> ip) (run_rotate_token sys cfg is_leader ps img schedule params)"
proof (rule rotation_asks_only_mirror [OF assms(7)])
  fix n
  show "Option.bind (dict_get ps n) ip_of \<noteq> Some ip"
    using missed_removal_keeps_peer [OF assms(1,2,4,5)] assms(3,6) by (cases "n = name") simp_all
qed

section \<open>Progress of the workers\<close>

text \<open>The progress of a job only rises: every worker that reports progress does so in increasing steps between 0
  and 1, on every path, failures included, so that the progress stored with the job is the value reported
  and no reader sees a job fall back.\<close>

theorem workers_report_rising_progress:
  assumes "run_remove_node sys fuel cfg is_leader n ps1 s = (r1, t1)"
    and "run_migrate_pulsar sys cfg is_leader ps2 s = (r2, t2)"
    and "run_version_upgrade sys cfg is_leader ps ps3 s = (r3, t3)"
    and "run_rotate_token sys cfg is_leader ps img schedule ps4 s = (r4, t4)"
    and "t \<in> {t1, t2, t3, t4}"
  shows "\<exists>acts. st_trace t = st_trace s @ acts \<and> sorted (0 # progress_values acts @ [1])
    \<and> (\<forall>p \<in> set (progress_values acts). \<forall>j. j_progress (progress_setter p j) = p)"
proof -
  have "\<exists>acts. st_trace t = st_trace s @ acts \<and> sorted (0 # progress_values acts @ [1])"
    using assms(5) climbsD [OF climbs_remove_node assms(1)] climbsD [OF climbs_migrate_pulsar assms(2)]
      climbsD [OF climbs_version_upgrade assms(3)] climbsD [OF climbs_rotate_token assms(4)] by blast
  then obtain acts where a: "st_trace t = st_trace s @ acts" "sorted (0 # progress_values acts @ [1])" by blast
  then have "0 \<le> p \<and> p \<le> 1" if "p \<in> set (progress_values acts)" for p
    using that by (auto simp: sorted_append)
  then have "\<forall>p \<in> set (progress_values acts). \<forall>j. j_progress (progress_setter p j) = p"
    by (simp add: progress_setter_def)
  with a show ?thesis by blast
qed

theorem workers_report_rising_progress_witness:
  "\<exists>acts. st_trace (snd (run_version_upgrade mem_sys near_cfg True duo (upgrade_params ''v2.5.5'') (start upgrade_world))) = acts
     \<and> sorted (0 # progress_values acts @ [1])"
proof -
  let ?s = "start upgrade_world"
  let ?r1 = "run_remove_node mem_sys 61 near_cfg True 2 [] ?s" and ?r2 = "run_migrate_pulsar mem_sys near_cfg True [] ?s"
  let ?r3 = "run_version_upgrade mem_sys near_cfg True duo (upgrade_params ''v2.5.5'') ?s"
  let ?r4 = "run_rotate_token mem_sys near_cfg True duo None id [] ?s"
  have "snd ?r3 \<in> {snd ?r1, snd ?r2, snd ?r3, snd ?r4}" by blast
  from workers_report_rising_progress [OF surjective_pairing surjective_pairing surjective_pairing surjective_pairing this]
  show ?thesis by (auto simp: start_def)
qed

end
